(* ===== verification/Prelude.thy ===== *)
theory Prelude
  imports Main "HOL-Library.Multiset"
begin

text \<open>
  Shared vocabulary of the development: the Python exceptions the handler can raise,
  Python's indexing and slicing of sequences (negative indices counted from the end,
  slices clamped to the sequence), dictionary lookup with and without a default, and the
  rule collections the component theories feed.  Every component theory imports this one.
\<close>

named_theorems py_simps "evaluation rules of the Python primitives of the model"
named_theorems state_simps "frame and update rules of the game state"

section \<open>Python exceptions\<close>

text \<open>
  The exceptions that escape from \<open>src/handler.py\<close>.  They are not caught anywhere in
  the module; a raised exception ends the call, and what the call already wrote to the
  shared state stays written.
\<close>

datatype exc = KeyError | IndexError | TypeError | ValueError | AttributeError
  | UnboundLocalError

section \<open>Sequences\<close>

text \<open>Python's normalisation of a slice bound \<open>i\<close> for a sequence of length \<open>n\<close>.\<close>

definition py_norm :: "nat \<Rightarrow> int \<Rightarrow> nat" where
  "py_norm n i = nat (if i < 0 then max 0 (int n + i) else min i (int n))"

text \<open>\<open>xs[i:j]\<close>: never raises; an empty result when the bounds cross.\<close>

definition py_slice :: "'a list \<Rightarrow> int \<Rightarrow> int \<Rightarrow> 'a list" where
  "py_slice xs i j =
     (let a = py_norm (length xs) i; b = py_norm (length xs) j in take (b - a) (drop a xs))"

text \<open>\<open>xs[i]\<close>: raises IndexError out of range.\<close>

definition py_index :: "'a list \<Rightarrow> int \<Rightarrow> exc + 'a" where
  "py_index xs i =
     (let k = (if 0 \<le> i then i else i + int (length xs))
      in if k < 0 \<or> int (length xs) \<le> k then Inl IndexError else Inr (xs ! nat k))"

text \<open>\<open>d[k]\<close> on a plain dictionary: raises KeyError for a missing key.\<close>

definition py_getitem :: "('k \<rightharpoonup> 'v) \<Rightarrow> 'k \<Rightarrow> exc + 'v" where
  "py_getitem m k = (case m k of None \<Rightarrow> Inl KeyError | Some v \<Rightarrow> Inr v)"

text \<open>
  \<open>d[k]\<close> on a \<open>collections.defaultdict\<close>: a missing key is inserted with the
  factory's value, so the read writes the dictionary.
\<close>

definition dd_getitem :: "'v \<Rightarrow> ('k \<rightharpoonup> 'v) \<Rightarrow> 'k \<Rightarrow> 'v \<times> ('k \<rightharpoonup> 'v)" where
  "dd_getitem dflt m k = (case m k of None \<Rightarrow> (dflt, m(k \<mapsto> dflt)) | Some v \<Rightarrow> (v, m))"

section \<open>Lemmas on the primitives\<close>

lemma py_slice_nat [py_simps]:
  "py_slice xs (int a) (int b) = take (min b (length xs) - min a (length xs)) (drop a xs)"
  by (simp add: py_slice_def py_norm_def min_def)

lemma py_slice_prefix [py_simps]:
  "py_slice xs 0 (int b) = take b xs"
  using py_slice_nat [of xs 0 b] by (simp add: min_def)

lemma nat_max0_minus2: "nat (max 0 (int n - 2)) = n - 2"
  by arith

lemma py_slice_drop_last2 [py_simps]:
  "py_slice xs 0 (-2) = take (length xs - 2) xs"
  by (simp add: py_slice_def py_norm_def nat_max0_minus2 numeral_2_eq_2)

lemma py_slice_last2 [py_simps]:
  "py_slice xs (-2) (int (length xs)) = drop (length xs - 2) xs"
  by (simp add: py_slice_def py_norm_def nat_max0_minus2 numeral_2_eq_2)

lemma py_index_nat [py_simps]:
  "py_index xs (int k) = (if k < length xs then Inr (xs ! k) else Inl IndexError)"
  by (simp add: py_index_def)

lemma py_index_last [py_simps]:
  "py_index xs (-1) = (if xs = [] then Inl IndexError else Inr (last xs))"
  by (cases xs rule: rev_cases) (auto simp: py_index_def nth_append)

lemma py_getitem_simps [py_simps]:
  "m k = None \<Longrightarrow> py_getitem m k = Inl KeyError"
  "m k = Some v \<Longrightarrow> py_getitem m k = Inr v"
  by (simp_all add: py_getitem_def)

lemma dd_getitem_value [py_simps]:
  "fst (dd_getitem d m k) = (case m k of None \<Rightarrow> d | Some v \<Rightarrow> v)"
  by (simp add: dd_getitem_def split: option.split)

lemma dd_getitem_map [py_simps]:
  "snd (dd_getitem d m k) k' = (if k' = k \<and> m k = None then Some d else m k')"
  by (simp add: dd_getitem_def split: option.split)

lemma dd_getitem_dom [py_simps]:
  "dom (snd (dd_getitem d m k)) = insert k (dom m)"
  by (auto simp: dd_getitem_def split: option.splits)

lemma last_take_minus2:
  assumes "2 < length xs"
  shows "last (take (length xs - 2) xs) = xs ! (length xs - 3)"
proof -
  have ne: "take (length xs - 2) xs \<noteq> []"
    using assms by (cases xs) auto
  then have "last (take (length xs - 2) xs) = take (length xs - 2) xs ! (length xs - 2 - 1)"
    by (simp add: last_conv_nth)
  also have "\<dots> = xs ! (length xs - 3)"
    using assms by simp
  finally show ?thesis .
qed

lemma append_single_eq_iff:
  "xs @ [a] = ys @ [b] \<longleftrightarrow> xs = ys \<and> a = b"
  by simp

lemma snoc3_exists: "2 < length xs \<Longrightarrow> \<exists>pre a b c. xs = pre @ [a, b, c]"
proof (induction xs rule: rev_induct)
  case (snoc c ys)
  show ?case
  proof (cases ys rule: rev_cases)
    case Nil with snoc.prems show ?thesis by simp
  next
    case (snoc zs b)
    show ?thesis
    proof (cases zs rule: rev_cases)
      case Nil with snoc snoc.prems show ?thesis by simp
    next
      case (snoc pre a)
      with \<open>ys = zs @ [b]\<close> show ?thesis by auto
    qed
  qed
qed simp

end
