(* ===== verification/Text.thy ===== *)
theory Text
  imports Prelude
begin

text \<open>
  The text a player sends.  A Python \<open>str\<close> is a sequence of code points; the model's
  symbol is an 8-bit character (code points below 256), one of the ten CJK glyphs the
  game accepts (\<open>TileAsciiMap\<close>, \<open>src/handler.py\<close> lines 19--32), or any other code
  point at or above 256.  The glyphs are named by their pinyin, in the order of the enum.
  Python's character predicates (\<open>str.isdigit\<close>, \<open>str.isspace\<close>) and \<open>int\<close> on a
  one-character string are given for these symbols.  Code points at or above 256 that
  Unicode classifies as digits are outside the model (see the header of Spec2Isabelle).
\<close>

datatype glyph = Wan | Tong | Suo | Dong | Nan | Xi | Bei | Bai | Fa | Zhong

datatype sym = Asc char | Cjk glyph | Uni nat

type_synonym pystr = "sym list"

abbreviation py :: "string \<Rightarrow> pystr" where
  "py s \<equiv> map Asc s"

section \<open>The glyph table\<close>

text \<open>\<open>TileAsciiMap[w].value\<close>: the tile notation each glyph stands for.\<close>

primrec TileAsciiMap :: "glyph \<Rightarrow> string" where
  "TileAsciiMap Wan = ''m''"
| "TileAsciiMap Tong = ''p''"
| "TileAsciiMap Suo = ''s''"
| "TileAsciiMap Dong = ''1z''"
| "TileAsciiMap Nan = ''2z''"
| "TileAsciiMap Xi = ''3z''"
| "TileAsciiMap Bei = ''4z''"
| "TileAsciiMap Bai = ''5z''"
| "TileAsciiMap Fa = ''6z''"
| "TileAsciiMap Zhong = ''7z''"

definition TileMap :: "glyph list" where
  "TileMap = [Wan, Tong, Suo, Dong, Nan, Xi, Bei, Bai, Fa, Zhong]"

text \<open>\<open>w in TileMap\<close> for one symbol \<open>w\<close> of the message.\<close>

definition in_TileMap :: "sym \<Rightarrow> bool" where
  "in_TileMap w = (w \<in> set (map Cjk TileMap))"

section \<open>Python character predicates\<close>

definition ascii_digit :: "char \<Rightarrow> bool" where
  "ascii_digit c = (let k = (of_char c :: nat) in 48 \<le> k \<and> k \<le> 57)"

text \<open>\<open>str.isdigit\<close>: below 256 the digits are 0--9 and the superscripts two, three, one.\<close>

fun py_isdigit :: "sym \<Rightarrow> bool" where
  "py_isdigit (Asc c) = (ascii_digit c \<or> (of_char c :: nat) \<in> {178, 179, 185})"
| "py_isdigit (Cjk g) = False"
| "py_isdigit (Uni n) = False"

text \<open>\<open>str.isspace\<close> (the whitespace code points of Python 3).\<close>

fun py_isspace :: "sym \<Rightarrow> bool" where
  "py_isspace (Asc c) = ((of_char c :: nat) \<in> {9, 10, 11, 12, 13, 28, 29, 30, 31, 32, 133, 160})"
| "py_isspace (Cjk g) = False"
| "py_isspace (Uni n) =
     (n \<in> {5760, 8232, 8233, 8239, 8287, 12288} \<or> (8192 \<le> n \<and> n \<le> 8202))"

text \<open>\<open>s.strip()\<close>.\<close>

definition py_strip :: "pystr \<Rightarrow> pystr" where
  "py_strip s = rev (dropWhile py_isspace (rev (dropWhile py_isspace s)))"

text \<open>\<open>int(c)\<close> for a one-character string \<open>c\<close>; only the decimal digits convert.\<close>

fun py_int_char :: "sym \<Rightarrow> exc + int" where
  "py_int_char (Asc c) =
     (if ascii_digit c then Inr (int (of_char c) - 48) else Inl ValueError)"
| "py_int_char (Cjk g) = Inl ValueError"
| "py_int_char (Uni n) = Inl ValueError"

text \<open>\<open>str(i)\<close> for an integer: optional minus sign, then the decimal digits.\<close>

fun nat_digits :: "nat \<Rightarrow> char list" where
  "nat_digits n = (if n < 10 then [char_of (48 + n)] else nat_digits (n div 10) @ [char_of (48 + n mod 10)])"

definition py_str_int :: "int \<Rightarrow> pystr" where
  "py_str_int i = map Asc ((if i < 0 then ''-'' else []) @ nat_digits (nat \<bar>i\<bar>))"

section \<open>Lemmas\<close>

lemma in_TileMap_iff [simp]: "in_TileMap w \<longleftrightarrow> (\<exists>g. w = Cjk g)"
proof -
  have "set TileMap = UNIV"
    by (auto simp: TileMap_def intro: glyph.exhaust)
  then show ?thesis by (auto simp: in_TileMap_def)
qed

lemma TileAsciiMap_ascii: "set (TileAsciiMap g) \<subseteq> set ''mps1234567z''"
  by (cases g) auto

lemma TileAsciiMap_length: "length (TileAsciiMap g) \<le> 2"
  by (cases g) auto

lemma py_int_char_digit:
  "py_int_char w = Inr d \<Longrightarrow> 0 \<le> d \<and> d \<le> 9"
  by (cases w) (auto simp: ascii_digit_def Let_def split: if_splits)

lemma py_int_char_isdigit: "py_int_char w = Inr d \<Longrightarrow> py_isdigit w"
  by (cases w) (auto split: if_splits)

lemma py_int_char_py [simp]:
  "py_int_char (Asc (CHR ''0'')) = Inr 0" "py_int_char (Asc (CHR ''1'')) = Inr 1"
  "py_int_char (Asc (CHR ''2'')) = Inr 2" "py_int_char (Asc (CHR ''3'')) = Inr 3"
  "py_int_char (Asc (CHR ''4'')) = Inr 4" "py_int_char (Asc (CHR ''5'')) = Inr 5"
  "py_int_char (Asc (CHR ''6'')) = Inr 6" "py_int_char (Asc (CHR ''7'')) = Inr 7"
  "py_int_char (Asc (CHR ''8'')) = Inr 8" "py_int_char (Asc (CHR ''9'')) = Inr 9"
  by (simp_all add: ascii_digit_def)

lemma py_str_int_digit:
  "1 \<le> k \<Longrightarrow> k \<le> 9 \<Longrightarrow> py_str_int k = [Asc (char_of (48 + nat k))]"
  by (simp add: py_str_int_def)

lemma py_int_char_of_digit:
  "n \<le> 9 \<Longrightarrow> py_int_char (Asc (char_of (48 + n))) = Inr (int n)"
  by (simp add: ascii_digit_def of_char_of)

end
