(* ===== verification/Tiles.thy ===== *)
theory Tiles
  imports Text
begin

text \<open>
  Tile notation, as the handler reads it through the \<open>mahjong\<close> package's
  \<open>TilesConverter\<close> (\<open>mahjong/tile.py\<close>, not part of this repository).  A tile string
  such as \<open>123m456p11z\<close> is a run of digits closed by a suit letter (\<open>m\<close>, \<open>p\<close>,
  \<open>s\<close>, \<open>z\<close> or \<open>h\<close> for honours).  \<open>one_line_string_to_136_array\<close> collects
  the digits of each suit, then \<open>string_to_136_array\<close> numbers the tiles
  \<open>0..135\<close>: the tile of kind \<open>k\<close> has base \<open>4 k\<close>, and the second, third,
  fourth copy of a kind in a suit string get \<open>base + 1\<close>, \<open>+ 2\<close>, \<open>+ 3\<close>.  The
  result is grouped by suit (man, pin, sou, honours) and keeps the input order inside a
  suit.  The handler never passes \<open>has_aka_dora\<close>, so the red-five branches are dead
  and not modelled.  \<open>int(i)\<close> on a non-digit raises ValueError.

  Besides the definitions, which follow the library's loops, the theory holds a reference
  scanner \<open>scan\<close> (a pending buffer of digits, flushed into a suit by its letter) and
  the proof that the index-and-slice loop computes it, and a reference numbering
  \<open>assign_copies\<close> with the proof that the library's numbering loop computes it.
\<close>

section \<open>Numbering the tiles of one suit\<close>

text \<open>The loop of \<open>_split_string(string, offset)\<close>.\<close>

fun split_string_loop :: "int \<Rightarrow> pystr \<Rightarrow> int list \<Rightarrow> int list \<Rightarrow> exc + int list" where
  "split_string_loop offset [] data temp = Inr data"
| "split_string_loop offset (i # rest) data temp =
     (case py_int_char i of
        Inl e \<Rightarrow> Inl e
      | Inr d \<Rightarrow>
          (let tile = offset + (d - 1) * 4 in
           if tile \<in> set data then
             (let count_of_tiles = int (count_list temp tile)
              in split_string_loop offset rest (data @ [tile + count_of_tiles]) (temp @ [tile]))
           else split_string_loop offset rest (data @ [tile]) (temp @ [tile])))"

definition split_string :: "pystr \<Rightarrow> int \<Rightarrow> exc + int list" where
  "split_string string offset =
     (if string = [] then Inr [] else split_string_loop offset string [] [])"

text \<open>\<open>string_to_136_array(sou, pin, man, honors)\<close>: man first, then pin, sou, honours.\<close>

definition string_to_136_array :: "pystr \<Rightarrow> pystr \<Rightarrow> pystr \<Rightarrow> pystr \<Rightarrow> exc + int list" where
  "string_to_136_array sou pin man honors =
     (case split_string man 0 of Inl e \<Rightarrow> Inl e | Inr r1 \<Rightarrow>
      (case split_string pin 36 of Inl e \<Rightarrow> Inl e | Inr r2 \<Rightarrow>
      (case split_string sou 72 of Inl e \<Rightarrow> Inl e | Inr r3 \<Rightarrow>
      (case split_string honors 108 of Inl e \<Rightarrow> Inl e | Inr r4 \<Rightarrow>
        Inr (r1 @ r2 @ r3 @ r4)))))"

section \<open>Splitting a one-line string by suit\<close>

text \<open>The local variables of \<open>one_line_string_to_136_array\<close>.\<close>

record suits =
  sou :: pystr
  pin :: pystr
  man :: pystr
  honors :: pystr
  split_start :: nat

definition empty_suits :: suits where
  "empty_suits = \<lparr>sou = [], pin = [], man = [], honors = [], split_start = 0\<rparr>"

text \<open>
  One iteration of \<open>for index, i in enumerate(string)\<close>.  The source tests the four
  letters with four \<open>if\<close>s; a symbol equals at most one letter, so they form a chain.
\<close>

definition one_line_step :: "pystr \<Rightarrow> nat \<Rightarrow> sym \<Rightarrow> suits \<Rightarrow> suits" where
  "one_line_step string index i acc =
     (let seg = py_slice string (int (split_start acc)) (int index) in
      if i = Asc CHR ''m'' then acc\<lparr>man := man acc @ seg, split_start := Suc index\<rparr>
      else if i = Asc CHR ''p'' then acc\<lparr>pin := pin acc @ seg, split_start := Suc index\<rparr>
      else if i = Asc CHR ''s'' then acc\<lparr>sou := sou acc @ seg, split_start := Suc index\<rparr>
      else if i = Asc CHR ''z'' \<or> i = Asc CHR ''h''
        then acc\<lparr>honors := honors acc @ seg, split_start := Suc index\<rparr>
      else acc)"

fun one_line_loop :: "pystr \<Rightarrow> nat \<Rightarrow> pystr \<Rightarrow> suits \<Rightarrow> suits" where
  "one_line_loop string index [] acc = acc"
| "one_line_loop string index (i # rest) acc =
     one_line_loop string (Suc index) rest (one_line_step string index i acc)"

definition one_line_string_to_136_array :: "pystr \<Rightarrow> exc + int list" where
  "one_line_string_to_136_array string =
     (let acc = one_line_loop string 0 string empty_suits
      in string_to_136_array (sou acc) (pin acc) (man acc) (honors acc))"

section \<open>Reference definitions\<close>

datatype suit = Man | Pin | Sou | Honors

fun letter_suit :: "sym \<Rightarrow> suit option" where
  "letter_suit (Asc c) =
     (if c = CHR ''m'' then Some Man else if c = CHR ''p'' then Some Pin
      else if c = CHR ''s'' then Some Sou
      else if c = CHR ''z'' \<or> c = CHR ''h'' then Some Honors else None)"
| "letter_suit (Cjk g) = None"
| "letter_suit (Uni n) = None"

text \<open>Pending digits \<open>buf\<close>; a letter moves them to its suit.\<close>

fun scan :: "pystr \<Rightarrow> pystr \<Rightarrow> (suit \<Rightarrow> pystr) \<Rightarrow> pystr \<times> (suit \<Rightarrow> pystr)" where
  "scan buf [] q = (buf, q)"
| "scan buf (c # cs) q =
     (case letter_suit c of
        Some s \<Rightarrow> scan [] cs (q(s := q s @ buf))
      | None \<Rightarrow> scan (buf @ [c]) cs q)"

definition suit_strs :: "suits \<Rightarrow> suit \<Rightarrow> pystr" where
  "suit_strs acc s =
     (case s of Man \<Rightarrow> man acc | Pin \<Rightarrow> pin acc | Sou \<Rightarrow> sou acc | Honors \<Rightarrow> honors acc)"

definition suit_offset :: "suit \<Rightarrow> int" where
  "suit_offset s = (case s of Man \<Rightarrow> 0 | Pin \<Rightarrow> 36 | Sou \<Rightarrow> 72 | Honors \<Rightarrow> 108)"

text \<open>The copy numbering: a base id plus the number of earlier tiles of the same base.\<close>

fun assign_copies :: "int list \<Rightarrow> int list \<Rightarrow> int list" where
  "assign_copies [] seen = []"
| "assign_copies (b # bs) seen = (b + int (count_list seen b)) # assign_copies bs (seen @ [b])"

text \<open>The base ids of a suit string, or the ValueError of its first non-digit.\<close>

fun tile_bases :: "int \<Rightarrow> pystr \<Rightarrow> exc + int list" where
  "tile_bases offset [] = Inr []"
| "tile_bases offset (i # rest) =
     (case py_int_char i of
        Inl e \<Rightarrow> Inl e
      | Inr d \<Rightarrow> (case tile_bases offset rest of
                   Inl e \<Rightarrow> Inl e
                 | Inr bs \<Rightarrow> Inr ((offset + (d - 1) * 4) # bs)))"

definition digits_ok :: "pystr \<Rightarrow> bool" where
  "digits_ok xs = list_all (\<lambda>c. case py_int_char c of Inl _ \<Rightarrow> False | Inr _ \<Rightarrow> True) xs"

definition tile_count :: "(suit \<Rightarrow> pystr) \<Rightarrow> nat" where
  "tile_count q = length (q Man) + length (q Pin) + length (q Sou) + length (q Honors)"

definition suits_to_136 :: "(suit \<Rightarrow> pystr) \<Rightarrow> exc + int list" where
  "suits_to_136 q = string_to_136_array (q Sou) (q Pin) (q Man) (q Honors)"

definition closed :: "pystr \<Rightarrow> bool" where
  "closed xs = (xs = [] \<or> letter_suit (last xs) \<noteq> None)"

text \<open>
  The reference converter: scan the string into suit strings, then number each suit's
  tiles from its base ids, man, pin, sou and honours in this order, the first bad digit
  raising.
\<close>

fun ref_suits :: "(suit \<Rightarrow> pystr) \<Rightarrow> suit list \<Rightarrow> exc + int list" where
  "ref_suits q [] = Inr []"
| "ref_suits q (su # sus) =
     (case tile_bases (suit_offset su) (q su) of
        Inl e \<Rightarrow> Inl e
      | Inr bs \<Rightarrow> (case ref_suits q sus of Inl e \<Rightarrow> Inl e | Inr r \<Rightarrow> Inr (assign_copies bs [] @ r)))"

definition ref_convert :: "pystr \<Rightarrow> exc + int list" where
  "ref_convert s = ref_suits (snd (scan [] s (\<lambda>_. []))) [Man, Pin, Sou, Honors]"

section \<open>The index-and-slice loop computes the scanner\<close>

lemma one_line_step_strs:
  assumes "split_start acc \<le> length pre"
  shows "suit_strs (one_line_step (pre @ c # cs) (length pre) c acc) =
           (case letter_suit c of None \<Rightarrow> suit_strs acc
            | Some s \<Rightarrow> (suit_strs acc)(s := suit_strs acc s @ drop (split_start acc) pre))"
    and "drop (split_start (one_line_step (pre @ c # cs) (length pre) c acc)) (pre @ [c]) =
           (case letter_suit c of None \<Rightarrow> drop (split_start acc) pre @ [c] | Some s \<Rightarrow> [])"
    and "split_start (one_line_step (pre @ c # cs) (length pre) c acc) \<le> Suc (length pre)"
proof -
  have seg: "py_slice (pre @ c # cs) (int (split_start acc)) (int (length pre)) =
      drop (split_start acc) pre"
    using assms by (simp add: py_simps min_def)
  have step: "one_line_step (pre @ c # cs) (length pre) c acc =
     (let seg = drop (split_start acc) pre in
      if c = Asc CHR ''m'' then acc\<lparr>man := man acc @ seg, split_start := Suc (length pre)\<rparr>
      else if c = Asc CHR ''p'' then acc\<lparr>pin := pin acc @ seg, split_start := Suc (length pre)\<rparr>
      else if c = Asc CHR ''s'' then acc\<lparr>sou := sou acc @ seg, split_start := Suc (length pre)\<rparr>
      else if c = Asc CHR ''z'' \<or> c = Asc CHR ''h''
        then acc\<lparr>honors := honors acc @ seg, split_start := Suc (length pre)\<rparr>
      else acc)"
    by (simp only: one_line_step_def seg)
  show "suit_strs (one_line_step (pre @ c # cs) (length pre) c acc) =
           (case letter_suit c of None \<Rightarrow> suit_strs acc
            | Some s \<Rightarrow> (suit_strs acc)(s := suit_strs acc s @ drop (split_start acc) pre))"
    unfolding step by (cases c) (auto simp: suit_strs_def fun_eq_iff split: suit.split)
  show "drop (split_start (one_line_step (pre @ c # cs) (length pre) c acc)) (pre @ [c]) =
           (case letter_suit c of None \<Rightarrow> drop (split_start acc) pre @ [c] | Some s \<Rightarrow> [])"
    unfolding step using assms by (cases c) auto
  show "split_start (one_line_step (pre @ c # cs) (length pre) c acc) \<le> Suc (length pre)"
    unfolding step using assms by (cases c) (auto simp: Let_def)
qed

lemma one_line_loop_scan:
  "split_start acc \<le> length pre \<Longrightarrow>
   suit_strs (one_line_loop (pre @ rest) (length pre) rest acc) =
   snd (scan (drop (split_start acc) pre) rest (suit_strs acc))"
proof (induction rest arbitrary: pre acc)
  case Nil
  then show ?case by simp
next
  case (Cons c cs)
  let ?acc' = "one_line_step (pre @ c # cs) (length pre) c acc"
  have "suit_strs (one_line_loop (pre @ c # cs) (length pre) (c # cs) acc) =
        suit_strs (one_line_loop ((pre @ [c]) @ cs) (length (pre @ [c])) cs ?acc')"
    by simp
  also have "\<dots> = snd (scan (drop (split_start ?acc') (pre @ [c])) cs (suit_strs ?acc'))"
    using one_line_step_strs(3)[OF Cons.prems] by (intro Cons.IH) simp
  also have "\<dots> = snd (scan (drop (split_start acc) pre) (c # cs) (suit_strs acc))"
    unfolding one_line_step_strs(1,2)[OF Cons.prems] by (simp split: option.split)
  finally show ?case .
qed

lemma one_line_string_scan:
  "one_line_string_to_136_array s = suits_to_136 (snd (scan [] s (\<lambda>_. [])))"
proof -
  have "suit_strs (one_line_loop s 0 s empty_suits) = snd (scan [] s (suit_strs empty_suits))"
    using one_line_loop_scan [of empty_suits "[]" s] by (simp add: empty_suits_def)
  moreover have "suit_strs empty_suits = (\<lambda>_. [])"
    by (auto simp: suit_strs_def empty_suits_def fun_eq_iff split: suit.split)
  ultimately show ?thesis
    by (simp add: one_line_string_to_136_array_def suits_to_136_def Let_def suit_strs_def
        fun_eq_iff split: suit.splits)
qed


section \<open>Counting and numbering\<close>

lemma split_string_loop_copies:
  "set temp \<subseteq> set data \<Longrightarrow>
   split_string_loop offset xs data temp =
     (case tile_bases offset xs of Inl e \<Rightarrow> Inl e | Inr bs \<Rightarrow> Inr (data @ assign_copies bs temp))"
proof (induction xs arbitrary: data temp)
  case Nil
  then show ?case by simp
next
  case (Cons i rest)
  show ?case
  proof (cases "py_int_char i")
    case (Inl e)
    then show ?thesis by simp
  next
    case (Inr d)
    define tile where "tile = offset + (d - 1) * 4"
    have cnt: "tile \<notin> set data \<Longrightarrow> count_list temp tile = 0"
      using Cons.prems by (auto simp: count_list_0_iff)
    have inv: "set (temp @ [tile]) \<subseteq> set (data @ [tile + int (count_list temp tile)])"
      using Cons.prems cnt by (cases "tile \<in> set data") auto
    have "split_string_loop offset (i # rest) data temp =
          split_string_loop offset rest (data @ [tile + int (count_list temp tile)]) (temp @ [tile])"
      using Inr cnt by (simp add: tile_def Let_def)
    also have "\<dots> = (case tile_bases offset rest of Inl e \<Rightarrow> Inl e
        | Inr bs \<Rightarrow> Inr ((data @ [tile + int (count_list temp tile)]) @ assign_copies bs (temp @ [tile])))"
      using inv by (rule Cons.IH)
    finally show ?thesis
      using Inr by (simp add: tile_def split: sum.split)
  qed
qed

lemma tile_bases_ok: "digits_ok xs \<longleftrightarrow> (\<exists>bs. tile_bases offset xs = Inr bs)"
proof (induction xs)
  case Nil
  then show ?case by (simp add: digits_ok_def)
next
  case (Cons i rest)
  then show ?case
    by (cases "py_int_char i"; cases "tile_bases offset rest") (auto simp: digits_ok_def)
qed

lemma tile_bases_length: "tile_bases offset xs = Inr bs \<Longrightarrow> length bs = length xs"
  by (induction xs arbitrary: bs) (auto split: sum.splits)

lemma length_assign_copies [simp]: "length (assign_copies bs seen) = length bs"
  by (induction bs arbitrary: seen) auto

lemma split_string_copies:
  "split_string xs offset =
     (case tile_bases offset xs of Inl e \<Rightarrow> Inl e | Inr bs \<Rightarrow> Inr (assign_copies bs []))"
  unfolding split_string_def using split_string_loop_copies [of "[]" "[]" offset xs]
  by (cases "xs = []") (simp_all split: sum.split)

lemma split_string_ok:
  "(\<exists>r. split_string xs offset = Inr r) \<longleftrightarrow> digits_ok xs"
  using tile_bases_ok [of xs offset] by (auto simp: split_string_copies split: sum.splits)

lemma split_string_length:
  "split_string xs offset = Inr r \<Longrightarrow> length r = length xs"
  by (auto simp: split_string_copies dest: tile_bases_length split: sum.splits)

lemma string_to_136_array_Inr:
  "string_to_136_array xs xp xm xh = Inr ts \<longleftrightarrow>
     (\<exists>r1 r2 r3 r4. split_string xm 0 = Inr r1 \<and> split_string xp 36 = Inr r2 \<and>
        split_string xs 72 = Inr r3 \<and> split_string xh 108 = Inr r4 \<and> ts = r1 @ r2 @ r3 @ r4)"
  by (auto simp: string_to_136_array_def split: sum.split)

lemma string_to_136_array_length:
  "string_to_136_array xs xp xm xh = Inr ts \<Longrightarrow>
     length ts = length xm + length xp + length xs + length xh"
  by (auto simp: string_to_136_array_Inr dest!: split_string_length)

lemma string_to_136_array_ok:
  "(\<exists>ts. string_to_136_array xs xp xm xh = Inr ts) \<longleftrightarrow>
     digits_ok xm \<and> digits_ok xp \<and> digits_ok xs \<and> digits_ok xh"
proof -
  have ok: "\<And>xs off. digits_ok xs \<longleftrightarrow> (\<exists>r. split_string xs off = Inr r)"
    by (simp add: split_string_ok)
  show ?thesis
    unfolding string_to_136_array_Inr ok [of xm 0] ok [of xp 36] ok [of xs 72] ok [of xh 108]
    by blast
qed

lemma scan_append:
  "scan b (xs @ ys) q = scan (fst (scan b xs q)) ys (snd (scan b xs q))"
  by (induction xs arbitrary: b q) (simp_all split: option.split)

lemma scan_no_letter:
  "list_all (\<lambda>c. letter_suit c = None) ds \<Longrightarrow> scan b ds q = (b @ ds, q)"
  by (induction ds arbitrary: b) auto

lemma scan_last_letter:
  "letter_suit c = Some s \<Longrightarrow> fst (scan b (xs @ [c]) q) = []"
  by (simp add: scan_append)


lemma digits_ok_append [simp]: "digits_ok (xs @ ys) \<longleftrightarrow> digits_ok xs \<and> digits_ok ys"
  by (simp add: digits_ok_def)

lemma suits_to_136_length: "suits_to_136 q = Inr ts \<Longrightarrow> length ts = tile_count q"
  by (auto simp: suits_to_136_def tile_count_def dest: string_to_136_array_length)

lemma suits_to_136_ok:
  "(\<exists>ts. suits_to_136 q = Inr ts) \<longleftrightarrow> (\<forall>s. digits_ok (q s))"
proof -
  have "(\<forall>s. digits_ok (q s)) \<longleftrightarrow>
      digits_ok (q Man) \<and> digits_ok (q Pin) \<and> digits_ok (q Sou) \<and> digits_ok (q Honors)"
    by (metis suit.exhaust)
  then show ?thesis by (simp add: suits_to_136_def string_to_136_array_ok)
qed

lemma scan_closed: "closed xs \<Longrightarrow> fst (scan [] xs q) = []"
  by (cases xs rule: rev_cases) (auto simp: closed_def scan_append split: option.split)

text \<open>Two symbols give a tile only when they are a digit and a suit letter.\<close>

lemma one_line_two_Cons:
  assumes "one_line_string_to_136_array [a, b] = Inr (w # ws)"
  shows "letter_suit a = None \<and> (\<exists>s. letter_suit b = Some s) \<and> ws = []"
proof -
  have empty: "suits_to_136 (\<lambda>_. []) = Inr []"
    by (simp add: suits_to_136_def string_to_136_array_def split_string_def)
  show ?thesis
  proof (cases "letter_suit a")
    case None
    then show ?thesis
    proof (cases "letter_suit b")
      case None
      with \<open>letter_suit a = None\<close> assms empty show ?thesis
        by (simp add: one_line_string_scan)
    next
      case (Some s)
      with \<open>letter_suit a = None\<close> assms have "suits_to_136 ((\<lambda>_. [])(s := [a])) = Inr (w # ws)"
        by (simp add: one_line_string_scan)
      then have "length (w # ws) = tile_count ((\<lambda>_. [])(s := [a]))"
        by (rule suits_to_136_length)
      then have "ws = []" by (cases s) (simp_all add: tile_count_def)
      with None Some show ?thesis by simp
    qed
  next
    case (Some s)
    then have "suits_to_136 (snd (scan [] [a, b] (\<lambda>_. []))) = Inr []"
      using empty by (simp add: fun_upd_idem split: option.split)
    with assms show ?thesis by (simp add: one_line_string_scan)
  qed
qed

text \<open>
  Appending one tile \<open>a\<close> of suit \<open>b\<close> to a string that ends in a suit letter adds
  exactly one tile.
\<close>

lemma one_line_append_tile:
  assumes "closed xs" "letter_suit a = None" "letter_suit b = Some s"
    and "one_line_string_to_136_array (xs @ [a, b]) = Inr ts"
  shows "\<exists>cs. one_line_string_to_136_array xs = Inr cs \<and> length ts = Suc (length cs)"
proof -
  define q where "q = snd (scan [] xs (\<lambda>_. []))"
  have q': "snd (scan [] (xs @ [a, b]) (\<lambda>_. [])) = q(s := q s @ [a])"
    using assms(1-3) scan_closed [OF assms(1)] by (simp add: scan_append q_def)
  with assms(4) have ts: "suits_to_136 (q(s := q s @ [a])) = Inr ts"
    by (simp add: one_line_string_scan)
  then have "\<forall>s'. digits_ok ((q(s := q s @ [a])) s')"
    using suits_to_136_ok by blast
  then have "\<forall>s'. digits_ok (q s')"
    by (metis digits_ok_append fun_upd_apply)
  then obtain cs where cs: "suits_to_136 q = Inr cs"
    using suits_to_136_ok by blast
  have "tile_count (q(s := q s @ [a])) = Suc (tile_count q)"
    by (cases s) (simp_all add: tile_count_def)
  with ts cs have "length ts = Suc (length cs)"
    by (simp add: suits_to_136_length)
  with cs show ?thesis by (simp add: one_line_string_scan q_def)
qed

lemma isdigit_not_letter: "py_isdigit c \<Longrightarrow> letter_suit c = None"
  by (cases c) (auto simp: ascii_digit_def)

section \<open>The converter against the reference\<close>

text \<open>
  \<open>one_line_string_to_136_array\<close>, with its index-and-slice loop and its numbering
  loop over the growing lists \<open>data\<close> and \<open>temp\<close>, computes the reference converter:
  scan the string into suits, number each suit's tiles by base id plus the count of
  earlier equal bases, concatenate man, pin, sou, honours; the same error where one is
  raised.
\<close>

lemma one_line_string_ref:
  "one_line_string_to_136_array s = ref_convert s"
  by (simp add: one_line_string_scan ref_convert_def suits_to_136_def string_to_136_array_def
      split_string_copies suit_offset_def split: sum.split)

end
