(* ===== verification/Guess_Input.thy ===== *)
theory Guess_Input
  imports Tiles
begin

text \<open>
  The validation and normalisation of a guess (\<open>src/handler.py\<close>): the character
  check of \<open>guesses_handler\<close> (line 139) and \<open>HandGuess.format_hand_msg\<close> (lines
  107--118), which replaces each glyph by its tile notation and, when the symbol before
  the last two is a digit, copies the last symbol (the suit letter of the winning tile)
  in front of the last two, so that the hand part ends with a suit letter.  The lemmas
  give the result of each branch, the IndexError on messages of at most two symbols, that
  the fix-up happens at most once (the function is idempotent on what it returns), and
  that on a message that passes the character check and ends in a tile, the hand part
  \<open>msg_hand[:-2]\<close> ends with a suit letter.
\<close>

section \<open>The character check\<close>

text \<open>
  The class \<open>[^\d mpszh \<dots>glyphs]\<close> of line 139: a symbol passes when it is a
  decimal digit, one of \<open>m p s z h\<close> or one of the ten glyphs.
\<close>

fun allowed_sym :: "sym \<Rightarrow> bool" where
  "allowed_sym (Asc c) = (ascii_digit c \<or> c \<in> set ''mpszh'')"
| "allowed_sym (Cjk g) = in_TileMap (Cjk g)"
| "allowed_sym (Uni n) = False"

text \<open>\<open>re.search(...)\<close> finds a match: some symbol is not allowed.\<close>

definition illegal_msg :: "pystr \<Rightarrow> bool" where
  "illegal_msg msg = list_ex (\<lambda>w. \<not> allowed_sym w) msg"

section \<open>format_hand_msg\<close>

text \<open>One iteration of the loop: \<open>hand += TileAsciiMap[w].value\<close> or \<open>hand += w\<close>.\<close>

definition format_piece :: "sym \<Rightarrow> pystr" where
  "format_piece w =
     (if in_TileMap w then (case w of Cjk g \<Rightarrow> py (TileAsciiMap g) | _ \<Rightarrow> [w]) else [w])"

primrec format_loop :: "pystr \<Rightarrow> pystr \<Rightarrow> pystr" where
  "format_loop hand [] = hand"
| "format_loop hand (w # ws) = format_loop (hand @ format_piece w) ws"

definition format_hand_msg :: "pystr \<Rightarrow> exc + pystr" where
  "format_hand_msg msg =
     (let hand = format_loop [] msg in
      case py_index (py_slice hand 0 (-2)) (-1) of
        Inl e \<Rightarrow> Inl e
      | Inr c \<Rightarrow>
          (if py_isdigit c then
             (case py_index hand (-1) of
                Inl e \<Rightarrow> Inl e
              | Inr l \<Rightarrow> Inr (py_slice hand 0 (-2) @ [l] @ py_slice hand (-2) (int (length hand))))
           else Inr hand))"

section \<open>Lemmas\<close>

text \<open>The symbols of a message that passed the check, after translation.\<close>

fun tile_sym :: "sym \<Rightarrow> bool" where
  "tile_sym (Asc c) = (ascii_digit c \<or> c \<in> set ''mpszh'')"
| "tile_sym (Cjk g) = False"
| "tile_sym (Uni n) = False"

lemma format_loop_concat: "format_loop hand ws = hand @ concat (map format_piece ws)"
  by (induction ws arbitrary: hand) simp_all

lemma format_piece_ascii [simp]: "format_piece (Asc c) = [Asc c]"
  by (simp add: format_piece_def)

lemma format_loop_ascii [simp]: "format_loop [] (py s) = py s"
proof -
  have "concat (map format_piece (py s)) = py s"
    by (induction s) simp_all
  then show ?thesis by (simp add: format_loop_concat)
qed

lemma format_piece_tile_sym:
  "allowed_sym w \<Longrightarrow> list_all tile_sym (format_piece w)"
proof (cases w)
  case (Cjk g)
  then show ?thesis
    by (cases g) (auto simp: format_piece_def ascii_digit_def)
qed (auto simp: format_piece_def)

lemma format_loop_tile_sym:
  "\<not> illegal_msg msg \<Longrightarrow> list_all tile_sym (format_loop [] msg)"
  using format_piece_tile_sym
  by (fastforce simp: illegal_msg_def format_loop_concat list_all_iff list_ex_iff)

text \<open>The three outcomes of \<open>format_hand_msg\<close>, by the translated message \<open>hand\<close>.\<close>

lemma format_hand_msg_short:
  "length (format_loop [] msg) \<le> 2 \<Longrightarrow> format_hand_msg msg = Inl IndexError"
  by (simp add: format_hand_msg_def Let_def py_simps)

lemma format_hand_msg_fixup:
  assumes "format_loop [] msg = hand" "2 < length hand"
    and "py_isdigit (hand ! (length hand - 3))"
  shows "format_hand_msg msg =
           Inr (take (length hand - 2) hand @ [last hand] @ drop (length hand - 2) hand)"
proof -
  have "last (take (length hand - 2) hand) = hand ! (length hand - 3)"
    using assms(2) by (rule last_take_minus2)
  moreover have "hand \<noteq> []"
    using assms(2) by (cases hand) auto
  ultimately show ?thesis using assms
    by (simp add: format_hand_msg_def py_simps Let_def)
qed

lemma format_hand_msg_plain:
  assumes "format_loop [] msg = hand" "2 < length hand"
    and "\<not> py_isdigit (hand ! (length hand - 3))"
  shows "format_hand_msg msg = Inr hand"
proof -
  have "last (take (length hand - 2) hand) = hand ! (length hand - 3)"
    using assms(2) by (rule last_take_minus2)
  moreover have "hand \<noteq> []"
    using assms(2) by (cases hand) auto
  ultimately show ?thesis using assms
    by (simp add: format_hand_msg_def py_simps Let_def)
qed

lemma tile_sym_allowed: "tile_sym c \<Longrightarrow> allowed_sym c"
  by (cases c) auto

lemma format_loop_tile_syms:
  "list_all tile_sym xs \<Longrightarrow> format_loop [] xs = xs"
proof -
  assume "list_all tile_sym xs"
  then have "concat (map format_piece xs) = xs"
  proof (induction xs)
    case (Cons w ws)
    then show ?case by (cases w) simp_all
  qed simp
  then show ?thesis by (simp add: format_loop_concat)
qed

lemma tile_sym_letter:
  "tile_sym c \<Longrightarrow> \<not> py_isdigit c \<Longrightarrow> letter_suit c \<noteq> None"
  by (cases c) auto

text \<open>What \<open>format_hand_msg\<close> returns on a message that passed the check.\<close>

lemma format_hand_msg_cases [consumes 2, case_names fixup plain]:
  assumes "\<not> illegal_msg msg" "format_hand_msg msg = Inr hand"
  obtains (fixup) h0 where "format_loop [] msg = h0" "2 < length h0"
      "py_isdigit (h0 ! (length h0 - 3))"
      "hand = take (length h0 - 2) h0 @ [last h0] @ drop (length h0 - 2) h0"
  | (plain) "format_loop [] msg = hand" "2 < length hand"
      "letter_suit (hand ! (length hand - 3)) \<noteq> None"
proof -
  define h0 where "h0 = format_loop [] msg"
  have long: "2 < length h0"
    using assms(2) format_hand_msg_short [of msg] by (fastforce simp: h0_def)
  have syms: "list_all tile_sym h0"
    using assms(1) by (simp add: h0_def format_loop_tile_sym)
  show ?thesis
  proof (cases "py_isdigit (h0 ! (length h0 - 3))")
    case True
    then show ?thesis
      using fixup long assms(2) format_hand_msg_fixup [OF h0_def [symmetric] long]
      by (simp add: h0_def)
  next
    case False
    have "letter_suit (h0 ! (length h0 - 3)) \<noteq> None"
      using syms long False by (intro tile_sym_letter) (simp_all add: list_all_length)
    then show ?thesis
      using plain long assms(2) format_hand_msg_plain [OF h0_def [symmetric] long False]
      by (simp add: h0_def)
  qed
qed

lemma format_hand_msg_length:
  assumes "\<not> illegal_msg msg" "format_hand_msg msg = Inr hm"
  shows "2 < length hm"
  using assms
proof (cases rule: format_hand_msg_cases)
  case (fixup h0)
  then show ?thesis by simp
qed

lemma format_hand_msg_tile_syms:
  assumes "\<not> illegal_msg msg" "format_hand_msg msg = Inr hand"
  shows "list_all tile_sym hand"
  using assms
proof (cases rule: format_hand_msg_cases)
  case (fixup h0)
  have "list_all tile_sym h0"
    using assms(1) fixup(1) format_loop_tile_sym by blast
  moreover have "h0 \<noteq> []"
    using fixup(2) by (cases h0) auto
  ultimately show ?thesis
    using fixup(4) by (auto simp: list_all_iff dest: in_set_takeD in_set_dropD)
next
  case plain
  then show ?thesis using assms(1) format_loop_tile_sym by blast
qed

text \<open>
  A normalised guess that ends in a suit letter has a hand part \<open>msg_hand[:-2]\<close>
  ending in a suit letter too.
\<close>

lemma format_hand_msg_closed:
  assumes "\<not> illegal_msg msg" "format_hand_msg msg = Inr hand"
    and "letter_suit (last hand) \<noteq> None"
  shows "closed (take (length hand - 2) hand)"
  using assms(1,2)
proof (cases rule: format_hand_msg_cases)
  case (fixup h0)
  have "last hand = last h0"
    using fixup(2,4) by simp
  moreover have "take (length hand - 2) hand = take (length h0 - 2) h0 @ [last h0]"
    using fixup(2,4) by simp
  ultimately show ?thesis
    using assms(3) by (simp add: closed_def)
next
  case plain
  then show ?thesis
    by (simp add: closed_def last_take_minus2)
qed

text \<open>
  C9: normalisation never changes the tiles: when the translated message ends in a digit
  and a suit letter, the fix-up of \<open>format_hand_msg\<close> (which copies the suit letter
  in front of the last digit) yields a string the tile converter reads as the same tiles,
  in the same order, as the message itself.
\<close>

theorem format_hand_msg_tiles:
  assumes "\<not> illegal_msg msg" "format_hand_msg msg = Inr hand"
    and "letter_suit (last (format_loop [] msg)) \<noteq> None"
    and "letter_suit (format_loop [] msg ! (length (format_loop [] msg) - 2)) = None"
  shows "one_line_string_to_136_array hand = one_line_string_to_136_array (format_loop [] msg)"
  using assms(1,2)
proof (cases rule: format_hand_msg_cases)
  case (fixup h0)
  obtain pre d1 d2 l where h0: "h0 = pre @ [d1, d2, l]"
    using snoc3_exists [OF fixup(2)] by blast
  obtain s where l: "letter_suit l = Some s"
    using assms(3) fixup(1) h0 by auto
  have d2: "letter_suit d2 = None"
    using assms(4) fixup(1) h0 by (simp add: nth_append)
  have d1: "letter_suit d1 = None"
    using fixup(3) h0 by (simp add: nth_append isdigit_not_letter)
  have hand: "hand = pre @ [d1, l, d2, l]"
    using fixup(4) h0 by simp
  show ?thesis
    unfolding one_line_string_scan hand fixup(1) h0
    using d1 d2 l by (simp add: scan_append)
next
  case plain
  then show ?thesis by simp
qed

theorem format_hand_msg_tiles_witness:
  "\<not> illegal_msg (py ''123456789m11123p'') \<and>
   format_hand_msg (py ''123456789m11123p'') = Inr (py ''123456789m1112p3p'') \<and>
   one_line_string_to_136_array (py ''123456789m1112p3p'') =
     one_line_string_to_136_array (py ''123456789m11123p'')"
proof -
  have a: "\<not> illegal_msg (py ''123456789m11123p'')" by code_simp
  have b: "format_hand_msg (py ''123456789m11123p'') = Inr (py ''123456789m1112p3p'')" by code_simp
  have c: "letter_suit (last (format_loop [] (py ''123456789m11123p''))) \<noteq> None" by code_simp
  have d: "letter_suit (format_loop [] (py ''123456789m11123p'') ! (length (format_loop [] (py ''123456789m11123p'')) - 2)) = None"
    by code_simp
  show ?thesis using a b format_hand_msg_tiles [OF a b c d] by simp
qed

end
