(* ===== verification/Hand.thy ===== *)
theory Hand
  imports Tiles
begin

text \<open>
  The secret hand and the scorer (\<open>src/handler.py\<close> lines 35--60).  The scorer is the
  \<open>mahjong\<close> package's \<open>HandCalculator.estimate_hand_value\<close>; the development does not
  model mahjong scoring, so the scorer is a parameter \<open>calc\<close> of type
  \<open>estimator\<close>, and every lemma holds for any scorer.  Its answer keeps the fields the
  handler reads: \<open>han\<close> and \<open>fu\<close> (\<open>None\<close> when the tiles are no winning hand),
  \<open>cost\<close> (its \<open>main\<close> and \<open>additional\<close> parts, \<open>None\<close> on an error) and the
  \<open>yaku\<close> list (\<open>None\<close> on an error).

  \<open>get_hand\<close> reads one line of the corpus \<open>hands.txt\<close>.  The file (read by
  \<open>linecache\<close>) is the parameter \<open>hand_list\<close>, and the value of
  \<open>random.randint(0, len(hand_list))\<close> is the parameter \<open>r\<close> (any integer from 0 to
  the length, both included).
\<close>

record hand_config =
  is_riichi :: bool
  is_tsumo :: bool

record yaku_info =
  yaku_id :: int
  japanese :: pystr

record hand_response =
  han :: "int option"
  fu :: "int option"
  cost :: "(int \<times> int) option"
  yaku :: "yaku_info list option"

type_synonym estimator = "int list \<Rightarrow> int \<Rightarrow> hand_config \<Rightarrow> hand_response"

text \<open>\<open>HandResult = namedtuple("HandResult", "tiles win_tile tsumo result hand_index")\<close>.\<close>

record hand_result =
  tiles :: "int list"
  win_tile :: pystr
  tsumo :: bool
  result :: hand_response
  hand_index :: int

text \<open>
  \<open>get_hand(hand_index=None)\<close>.  \<open>hand_index or random.randint(...)\<close> takes the
  random draw when the index is \<open>None\<close> or \<open>0\<close>.  A corpus line is stripped and its
  last three characters cut; character 26 is \<open>+\<close> for a self-drawn win, and the
  winning tile is the two characters after the 26 hand characters (after the \<open>+\<close>).
\<close>

definition get_hand ::
  "estimator \<Rightarrow> pystr list \<Rightarrow> int option \<Rightarrow> int \<Rightarrow> exc + hand_result" where
  "get_hand calc hand_list hand_index0 r =
     (let idx = (case hand_index0 of None \<Rightarrow> r | Some i \<Rightarrow> if i = 0 then r else i) in
      case py_index hand_list idx of
        Inl e \<Rightarrow> Inl e
      | Inr line \<Rightarrow>
         (let hand_raw = py_slice (py_strip line) 0 (-3) in
          case py_index hand_raw 26 of
            Inl e \<Rightarrow> Inl e
          | Inr c \<Rightarrow>
             (let is_ts = (c = Asc CHR ''+'');
                  last_tile = (if is_ts then py_slice hand_raw 27 29 else py_slice hand_raw 26 28)
              in case one_line_string_to_136_array (filter (\<lambda>x. x \<noteq> Asc CHR ''+'') hand_raw) of
                   Inl e \<Rightarrow> Inl e
                 | Inr all_tiles \<Rightarrow>
                  (case one_line_string_to_136_array last_tile of
                     Inl e \<Rightarrow> Inl e
                   | Inr wts \<Rightarrow>
                      (case py_index wts 0 of
                         Inl e \<Rightarrow> Inl e
                       | Inr wt \<Rightarrow>
                          (let res = calc all_tiles wt \<lparr>is_riichi = True, is_tsumo = is_ts\<rparr>
                           in case one_line_string_to_136_array (py_slice hand_raw 0 26) of
                                Inl e \<Rightarrow> Inl e
                              | Inr ts \<Rightarrow>
                                  Inr \<lparr>tiles = ts, win_tile = last_tile, tsumo = is_ts,
                                       result = res, hand_index = idx\<rparr>))))))"

section \<open>The draw\<close>

text \<open>
  C30: \<open>random.randint(0, len(hand_list))\<close> includes its upper end, and
  \<open>hand_index or ...\<close> treats an explicit index 0 as absent: whenever the draw is
  the length of the corpus, \<open>get_hand\<close> raises IndexError instead of returning a hand.
\<close>

theorem get_hand_draw_past_end:
  assumes "hand_index0 = None \<or> hand_index0 = Some 0"
  shows "get_hand calc hand_list hand_index0 (int (length hand_list)) = Inl IndexError"
  using assms by (auto simp: get_hand_def py_index_def)

theorem get_hand_draw_past_end_witness:
  "get_hand (\<lambda>_ _ _. \<lparr>han = None, fu = None, cost = None, yaku = None\<rparr>) [py ''x''] (Some 0) 1 = Inl IndexError"
  using get_hand_draw_past_end [of "Some 0" "\<lambda>_ _ _. \<lparr>han = None, fu = None, cost = None, yaku = None\<rparr>" "[py ''x'']"]
  by simp

section \<open>A well-formed corpus line\<close>

text \<open>
  C34: on a corpus line that is, after \<open>strip()\<close>, thirteen tiles in 26 characters, an
  optional \<open>+\<close> (self-draw), the two characters of the winning tile and three
  characters of metadata, \<open>get_hand\<close> returns the thirteen tiles, the winning tile's
  text, the self-draw flag, the line's index, and the scorer's answer on the fourteen tiles
  with riichi and that flag.
\<close>

theorem get_hand_line:
  assumes "0 \<le> r" "r < int (length hand_list)"
    and "py_strip (hand_list ! nat r) = body @ (if ts then [Asc CHR ''+''] else []) @ w @ meta"
    and "length body = 26" "length w = 2" "length meta = 3"
    and "Asc CHR ''+'' \<notin> set body" "Asc CHR ''+'' \<notin> set w"
    and "one_line_string_to_136_array (body @ w) = Inr all_tiles"
    and "one_line_string_to_136_array w = Inr (wt # wts)"
    and "one_line_string_to_136_array body = Inr ts0"
  shows "get_hand calc hand_list None r =
           Inr \<lparr>tiles = ts0, win_tile = w, tsumo = ts,
                result = calc all_tiles wt \<lparr>is_riichi = True, is_tsumo = ts\<rparr>, hand_index = r\<rparr>"
proof -
  define raw where "raw = body @ (if ts then [Asc CHR ''+''] else []) @ w"
  have raw: "py_slice (py_strip (hand_list ! nat r)) 0 (-3) = raw"
    using assms(3,6) by (simp add: raw_def py_slice_def py_norm_def)
  have c26: "py_index raw 26 = Inr (if ts then Asc CHR ''+'' else w ! 0)"
    using assms(4,5) by (cases ts) (simp_all add: raw_def py_index_def nth_append)
  have w0: "w ! 0 \<noteq> Asc CHR ''+''"
    using assms(5,8) by (metis nth_mem zero_less_numeral)
  have lt: "(if ts then py_slice raw 27 29 else py_slice raw 26 28) = w"
    using assms(4,5) by (cases ts) (simp_all add: raw_def py_slice_def py_norm_def)
  have flt: "filter (\<lambda>x. x \<noteq> Asc CHR ''+'') raw = body @ w"
  proof -
    have "filter (\<lambda>x. x \<noteq> Asc CHR ''+'') body = body" "filter (\<lambda>x. x \<noteq> Asc CHR ''+'') w = w"
      using assms(7,8) by (auto simp: filter_id_conv)
    then show ?thesis by (simp add: raw_def)
  qed
  have b26: "py_slice raw 0 26 = body"
    using assms(4) by (simp add: raw_def py_slice_def py_norm_def)
  show ?thesis
    using assms(1,2,9-11) raw c26 w0 lt flt b26
    by (cases ts) (simp_all add: get_hand_def py_index_def Let_def)
qed

theorem get_hand_line_witness:
  "get_hand (\<lambda>_ _ _. \<lparr>han = None, fu = None, cost = None, yaku = None\<rparr>) [py ''1m2m3m4m5m6m7m8m9m1p1p1p2p3p:01''] None 0 =
     Inr \<lparr>tiles = [0, 4, 8, 12, 16, 20, 24, 28, 32, 36, 37, 38, 40], win_tile = py ''3p'',
          tsumo = False, result = \<lparr>han = None, fu = None, cost = None, yaku = None\<rparr>,
          hand_index = 0\<rparr>"
proof -
  have s: "py_strip ([py ''1m2m3m4m5m6m7m8m9m1p1p1p2p3p:01''] ! nat 0) =
      py ''1m2m3m4m5m6m7m8m9m1p1p1p2p'' @ (if False then [Asc CHR ''+''] else []) @ py ''3p'' @ py '':01''"
    by code_simp
  have l: "length (py ''1m2m3m4m5m6m7m8m9m1p1p1p2p'') = 26" "length (py ''3p'') = 2" "length (py '':01'') = 3" by simp_all
  have p: "Asc CHR ''+'' \<notin> set (py ''1m2m3m4m5m6m7m8m9m1p1p1p2p'')" "Asc CHR ''+'' \<notin> set (py ''3p'')" by simp_all
  have c: "one_line_string_to_136_array (py ''1m2m3m4m5m6m7m8m9m1p1p1p2p'' @ py ''3p'') =
      Inr [0, 4, 8, 12, 16, 20, 24, 28, 32, 36, 37, 38, 40, 44]"
    "one_line_string_to_136_array (py ''3p'') = Inr [44]"
    "one_line_string_to_136_array (py ''1m2m3m4m5m6m7m8m9m1p1p1p2p'') = Inr [0, 4, 8, 12, 16, 20, 24, 28, 32, 36, 37, 38, 40]"
    by code_simp+
  have r: "0 \<le> (0::int)" "0 < int (length [py ''1m2m3m4m5m6m7m8m9m1p1p1p2p3p:01''])" by simp_all
  show ?thesis
    using get_hand_line [OF r s l p c] by simp
qed

end
