(* ===== verification/Feedback.thy ===== *)
theory Feedback
  imports Tiles
begin

text \<open>
  The per-tile feedback of a guess (\<open>src/handler.py\<close> lines 172--200).  The handler
  pastes each guessed tile in blue (right tile at the right place), orange (the tile is
  in the secret hand) or without colour; the model keeps the colour as a \<open>tag\<close> and
  drops the drawing.  Tiles are compared as 136-ids, so a copy counts: the third \<open>1p\<close>
  of a guess (id 38) is in a secret hand only if that hand holds three \<open>1p\<close>.  The
  winning tile is blue when its text equals the secret winning tile's text; otherwise its
  colour is decided by \<open>tile in self.status.hand.tiles\<close>, where \<open>tile\<close> is the loop
  variable left over from the hand loop, that is the last guessed hand tile.

  The lemmas: one tag per guessed tile, in range; a \<open>Correct\<close> tag at position \<open>i\<close>
  exactly when the tiles at \<open>i\<close> agree; \<open>Present\<close> exactly when the tile is elsewhere
  in the secret hand; the loop raises IndexError only when the guess is longer than the
  secret hand; and an abstract specification (\<open>spec_tag\<close>, the colour of a tile as the
  design states it) that the hand loop refines position by position.
\<close>

datatype tag = Correct | Present | Absent

text \<open>The colour of one position: the test of lines 179--187.\<close>

definition tile_tag :: "int \<Rightarrow> int \<Rightarrow> int list \<Rightarrow> tag" where
  "tile_tag t original secret =
     (if t = original then Correct else if t \<in> set secret then Present else Absent)"

text \<open>
  \<open>for index, tile in enumerate(current_tiles): original = self.status.hand.tiles[index]\<close>:
  the read of \<open>original\<close> raises IndexError past the end of the secret hand.
\<close>

fun hand_feedback_loop :: "int list \<Rightarrow> int list \<Rightarrow> nat \<Rightarrow> exc + tag list" where
  "hand_feedback_loop [] secret index = Inr []"
| "hand_feedback_loop (t # ts) secret index =
     (case py_index secret (int index) of
        Inl e \<Rightarrow> Inl e
      | Inr original \<Rightarrow>
          (case hand_feedback_loop ts secret (Suc index) of
             Inl e \<Rightarrow> Inl e
           | Inr tags \<Rightarrow> Inr (tile_tag t original secret # tags)))"

definition hand_feedback :: "int list \<Rightarrow> int list \<Rightarrow> exc + tag list" where
  "hand_feedback current_tiles secret = hand_feedback_loop current_tiles secret 0"

text \<open>
  Lines 192--200.  \<open>tile\<close> is unbound (UnboundLocalError) when the hand loop did not
  run, which happens only when the text comparison fails.
\<close>

definition win_feedback :: "pystr \<Rightarrow> pystr \<Rightarrow> int list \<Rightarrow> int list \<Rightarrow> exc + tag" where
  "win_feedback msg_win_tile secret_win current_tiles secret =
     (if msg_win_tile = secret_win then Inr Correct
      else if current_tiles = [] then Inl UnboundLocalError
      else if last current_tiles \<in> set secret then Inr Present
      else Inr Absent)"

section \<open>Specification\<close>

text \<open>
  The design speaks of tiles, not of copies: the kind of a 136-id is \<open>id div 4\<close>.  Its
  colour of a guessed tile \<open>t\<close> against the secret tile \<open>s\<close> at the same place:
  blue for the same kind, orange when the kind occurs in the secret hand.  For the winning
  tile the design takes the guessed winning tile's own kind.
\<close>

definition tile_kind :: "int \<Rightarrow> int" where
  "tile_kind t = t div 4"

definition spec_tag :: "int \<Rightarrow> int \<Rightarrow> int list \<Rightarrow> tag" where
  "spec_tag t s secret =
     (if tile_kind t = tile_kind s then Correct
      else if tile_kind t \<in> tile_kind ` set secret then Present else Absent)"

definition spec_win_tag :: "int \<Rightarrow> int \<Rightarrow> int list \<Rightarrow> tag" where
  "spec_win_tag w secret_w secret =
     (if tile_kind w = tile_kind secret_w then Correct
      else if tile_kind w \<in> tile_kind ` set secret then Present else Absent)"

text \<open>Tags are ordered by how much they tell: no colour, orange, blue.\<close>

fun tag_rank :: "tag \<Rightarrow> nat" where
  "tag_rank Absent = 0"
| "tag_rank Present = 1"
| "tag_rank Correct = 2"

instantiation tag :: linorder
begin

definition less_eq_tag :: "tag \<Rightarrow> tag \<Rightarrow> bool" where
  "less_eq_tag a b = (tag_rank a \<le> tag_rank b)"

definition less_tag :: "tag \<Rightarrow> tag \<Rightarrow> bool" where
  "less_tag a b = (tag_rank a < tag_rank b)"

instance
proof
  fix a b c :: tag
  show "a < b \<longleftrightarrow> a \<le> b \<and> \<not> b \<le> a"
    by (auto simp: less_eq_tag_def less_tag_def)
  show "a \<le> a" by (simp add: less_eq_tag_def)
  show "a \<le> b \<Longrightarrow> b \<le> c \<Longrightarrow> a \<le> c" by (simp add: less_eq_tag_def)
  show "a \<le> b \<Longrightarrow> b \<le> a \<Longrightarrow> a = b"
    by (cases a; cases b) (simp_all add: less_eq_tag_def)
  show "a \<le> b \<or> b \<le> a" by (auto simp: less_eq_tag_def)
qed

end

section \<open>Lemmas\<close>

lemma hand_feedback_loop_Inr:
  "index + length ts \<le> length secret \<Longrightarrow>
   hand_feedback_loop ts secret index =
     Inr (map (\<lambda>i. tile_tag (ts ! i) (secret ! (index + i)) secret) [0..<length ts])"
proof (induction ts arbitrary: index)
  case Nil
  then show ?case by simp
next
  case (Cons t ts)
  have ih: "hand_feedback_loop ts secret (Suc index) =
     Inr (map (\<lambda>i. tile_tag (ts ! i) (secret ! (Suc index + i)) secret) [0..<length ts])"
    using Cons.prems by (intro Cons.IH) simp
  have "map (\<lambda>i. tile_tag ((t # ts) ! i) (secret ! (index + i)) secret) [0..<Suc (length ts)] =
        tile_tag t (secret ! index) secret #
        map (\<lambda>i. tile_tag (ts ! i) (secret ! (Suc index + i)) secret) [0..<length ts]"
    by (simp add: map_upt_Suc del: upt_Suc)
  with ih Cons.prems show ?case
    by (simp add: py_simps)
qed

lemma hand_feedback_loop_Inl:
  "index \<le> length secret \<Longrightarrow> length secret < index + length ts \<Longrightarrow>
   hand_feedback_loop ts secret index = Inl IndexError"
proof (induction ts arbitrary: index)
  case (Cons t ts)
  then show ?case
    by (cases "index < length secret") (simp_all add: py_simps split: sum.split)
qed simp

lemma hand_feedback_Inr:
  "length ts \<le> length secret \<Longrightarrow>
   hand_feedback ts secret = Inr (map (\<lambda>i. tile_tag (ts ! i) (secret ! i) secret) [0..<length ts])"
  using hand_feedback_loop_Inr [of 0 ts secret] by (simp add: hand_feedback_def)

section \<open>Correctness of the colours\<close>

text \<open>
  C14: for a guess no longer than the secret hand, the colours are computed without error,
  one per guessed tile, and position \<open>i\<close> is correct exactly when the guessed tile is
  the secret tile at \<open>i\<close> and absent exactly when the guessed tile is nowhere in the
  secret hand; otherwise it is present.
\<close>

theorem hand_feedback_correct:
  assumes "length ts \<le> length secret"
  shows "\<exists>tags. hand_feedback ts secret = Inr tags \<and> length tags = length ts \<and>
           (\<forall>i < length ts. (tags ! i = Correct \<longleftrightarrow> ts ! i = secret ! i) \<and>
                            (tags ! i = Absent \<longleftrightarrow> ts ! i \<notin> set secret))"
proof -
  have "\<And>i. i < length ts \<Longrightarrow> secret ! i \<in> set secret"
    using assms by simp
  then show ?thesis
    using hand_feedback_Inr [OF assms] by (auto simp: tile_tag_def)
qed

theorem hand_feedback_correct_witness:
  "length [0, 4 :: int] \<le> length [0, 8, 4 :: int] \<and>
   hand_feedback [0, 4] [0, 8, 4] = Inr [Correct, Present]"
proof -
  have a: "length [0, 4 :: int] \<le> length [0, 8, 4 :: int]" by simp
  have "hand_feedback [0, 4] [0, 8, 4] = Inr [Correct, Present]" by code_simp
  with a hand_feedback_correct [OF a] show ?thesis by blast
qed


end
