(* ===== verification/Session.thy ===== *)
theory Session
  imports Guess_Input Hand Feedback
begin

text \<open>
  The game of \<open>src/handler.py\<close> lines 63--245.  The process-wide dictionary
  \<open>HandGuessProcess\<close> (a \<open>defaultdict\<close> from group id to \<open>GroupState\<close>) is the
  field \<open>process\<close> of the \<open>world\<close>; a \<open>GroupState\<close> holds the flag \<open>start\<close>, the
  secret hand and the dictionary \<open>users\<close> of guess counters, a plain \<open>{}\<close> while no
  game runs and a \<open>defaultdict(lambda: UserState(0))\<close> during a game.  A \<open>HandGuess\<close>
  object is the pair \<open>(qq, group)\<close> of the player and the chat group; each method is a
  function of it and of the world, returning the new world, and an exception is the left
  value of a sum.  Reading \<open>self.status\<close> inserts an idle \<open>GroupState\<close> for an unknown
  group, and reading \<open>users[qq]\<close> of a defaultdict inserts a zero counter; the model does
  both.

  The timer registry \<open>call_later\<close>/\<open>cancel_call_later\<close> (\<open>utils.py\<close>) and the points
  ledger \<open>User\<close> (\<open>user.py\<close>) are not in \<open>src/\<close>; they are modelled from the design:
  a registry of named deferred calls (a new call under a name replaces the old one, a
  cancel removes it) and a map from player to points.  The clock and the list of timeout
  callbacks suspended in \<open>send_group_msg\<close> are part of the world for the step relation of
  theory Game.
\<close>

section \<open>State\<close>

record user_state =
  hit_count :: int

datatype users_dict = Plain "int \<rightharpoonup> user_state" | DefaultDict "int \<rightharpoonup> user_state"

record group_state =
  start :: bool
  hand :: "hand_result option"
  users :: users_dict

text \<open>\<open>GroupState(False, None, {})\<close>.\<close>

definition idle_group :: group_state where
  "idle_group = \<lparr>start = False, hand = None, users = Plain Map.empty\<rparr>"

record hand_guess =
  qq :: int
  group :: int

text \<open>A pending \<open>call_later\<close>: when it is due and the callback, a bound \<open>timeout\<close>.\<close>

record timer =
  deadline :: nat
  callback :: hand_guess

record world =
  process :: "int \<rightharpoonup> group_state"
  timers :: "string \<rightharpoonup> timer"
  points :: "int \<Rightarrow> int"
  clock :: nat
  sending :: "hand_guess list"

definition MAX_GUESS :: int where
  "MAX_GUESS = 6"

definition TIMEOUT :: nat where
  "TIMEOUT = 5 * 60"

definition timer_name :: string where
  "timer_name = ''HandGuessGame''"

section \<open>Collaborators outside src/\<close>

definition call_later :: "nat \<Rightarrow> hand_guess \<Rightarrow> string \<Rightarrow> world \<Rightarrow> world" where
  "call_later delay cb name w =
     w\<lparr>timers := (timers w)(name \<mapsto> \<lparr>deadline = clock w + delay, callback = cb\<rparr>)\<rparr>"

definition cancel_call_later :: "string \<Rightarrow> world \<Rightarrow> world" where
  "cancel_call_later name w = w\<lparr>timers := (timers w)(name := None)\<rparr>"

definition add_points :: "int \<Rightarrow> int \<Rightarrow> world \<Rightarrow> world" where
  "add_points q p w = w\<lparr>points := (points w)(q := points w q + p)\<rparr>"

section \<open>Dictionary access\<close>

text \<open>\<open>users[k]\<close>: KeyError on the plain dictionary, a zero counter inserted otherwise.\<close>

fun users_getitem :: "users_dict \<Rightarrow> int \<Rightarrow> exc + (user_state \<times> users_dict)" where
  "users_getitem (Plain m) k =
     (case py_getitem m k of Inl e \<Rightarrow> Inl e | Inr v \<Rightarrow> Inr (v, Plain m))"
| "users_getitem (DefaultDict m) k =
     (case dd_getitem \<lparr>hit_count = 0\<rparr> m k of (v, m') \<Rightarrow> Inr (v, DefaultDict m'))"

fun users_setitem :: "users_dict \<Rightarrow> int \<Rightarrow> user_state \<Rightarrow> users_dict" where
  "users_setitem (Plain m) k v = Plain (m(k \<mapsto> v))"
| "users_setitem (DefaultDict m) k v = DefaultDict (m(k \<mapsto> v))"

section \<open>The methods of HandGuess\<close>

text \<open>\<open>status\<close> (lines 79--81): \<open>HandGuessProcess[self.group]\<close>.\<close>

definition status :: "hand_guess \<Rightarrow> world \<Rightarrow> group_state \<times> world" where
  "status self w =
     (case dd_getitem idle_group (process w) (group self) of (gs, m) \<Rightarrow> (gs, w\<lparr>process := m\<rparr>))"

definition is_start :: "hand_guess \<Rightarrow> world \<Rightarrow> bool \<times> world" where
  "is_start self w = (case status self w of (gs, w1) \<Rightarrow> (start gs, w1))"

definition reset_game :: "hand_guess \<Rightarrow> world \<Rightarrow> world" where
  "reset_game self w = w\<lparr>process := (process w)(group self \<mapsto> idle_group)\<rparr>"

text \<open>
  \<open>timeout\<close> (lines 89--91) is a coroutine: it awaits \<open>send_group_msg\<close> and then
  resets the game.  The part after the await is \<open>timeout_resume\<close>; when the send
  raised, the reset is not reached.
\<close>

definition timeout_resume :: "hand_guess \<Rightarrow> bool \<Rightarrow> world \<Rightarrow> world" where
  "timeout_resume self delivered w = (if delivered then reset_game self w else w)"

datatype start_reply = AlreadyStarted | Started

text \<open>\<open>start\<close> (lines 93--105), with the random draw \<open>r\<close> of \<open>get_hand\<close>.\<close>

definition start_game ::
  "estimator \<Rightarrow> pystr list \<Rightarrow> int \<Rightarrow> hand_guess \<Rightarrow> world \<Rightarrow> (exc + start_reply) \<times> world" where
  "start_game calc hand_list r self w =
     (case is_start self w of
        (True, w1) \<Rightarrow> (Inr AlreadyStarted, w1)
      | (False, w1) \<Rightarrow>
          (case get_hand calc hand_list None r of
             Inl e \<Rightarrow> (Inl e, w1)
           | Inr hand_res \<Rightarrow>
               (let w2 = w1\<lparr>process := (process w1)(group self \<mapsto>
                    \<lparr>start = True, hand = Some hand_res, users = DefaultDict Map.empty\<rparr>)\<rparr>
                in (Inr Started, call_later TIMEOUT self timer_name w2))))"

text \<open>\<open>self.status.users[self.qq]\<close> and its assignment.\<close>

definition user_info :: "hand_guess \<Rightarrow> world \<Rightarrow> (exc + user_state) \<times> world" where
  "user_info self w =
     (case status self w of
        (gs, w1) \<Rightarrow>
          (case users_getitem (users gs) (qq self) of
             Inl e \<Rightarrow> (Inl e, w1)
           | Inr (v, u) \<Rightarrow> (Inr v, w1\<lparr>process := (process w1)(group self \<mapsto> gs\<lparr>users := u\<rparr>)\<rparr>)))"

definition set_user_info :: "hand_guess \<Rightarrow> user_state \<Rightarrow> world \<Rightarrow> world" where
  "set_user_info self v w =
     (case status self w of
        (gs, w1) \<Rightarrow>
          w1\<lparr>process := (process w1)(group self \<mapsto> gs\<lparr>users := users_setitem (users gs) (qq self) v\<rparr>)\<rparr>)"

text \<open>\<open>inc_user_count\<close> (lines 120--123).\<close>

definition inc_user_count :: "hand_guess \<Rightarrow> world \<Rightarrow> (exc + unit) \<times> world" where
  "inc_user_count self w =
     (case user_info self w of
        (Inl e, w1) \<Rightarrow> (Inl e, w1)
      | (Inr info, w1) \<Rightarrow>
          (let count = hit_count info + 1
           in (Inr (), set_user_info self (info\<lparr>hit_count := count\<rparr>) w1)))"

text \<open>\<open>is_win\<close> (lines 125--128): a comparison of lists, not of multisets.\<close>

definition is_win :: "hand_guess \<Rightarrow> int list \<Rightarrow> world \<Rightarrow> (exc + bool) \<times> world" where
  "is_win self ts w =
     (case status self w of
        (gs, w1) \<Rightarrow>
          (case hand gs of
             None \<Rightarrow> (Inl AttributeError, w1)
           | Some h \<Rightarrow>
               (case one_line_string_to_136_array (win_tile h) of
                  Inl e \<Rightarrow> (Inl e, w1)
                | Inr wind_tile \<Rightarrow> (Inr (tiles h @ wind_tile = ts), w1))))"

text \<open>\<open>win_game\<close> (lines 130--135): the points won and the player's new total.\<close>

definition win_game :: "hand_guess \<Rightarrow> int \<Rightarrow> world \<Rightarrow> (int \<times> int) \<times> world" where
  "win_game self pts w =
     (let w1 = reset_game self w;
          w2 = cancel_call_later timer_name w1;
          w3 = add_points (qq self) pts w2
      in ((pts, points w3 (qq self)), w3))"

section \<open>The design's session\<close>

text \<open>
  The state of one group as the design describes it: active or idle, the secret hand, and
  the number of guesses of each player (0 for a player with no entry).  \<open>session_of\<close>
  reads it off the world; an unknown group reads as idle.  \<open>world_view\<close> is everything
  of the world but the representation of the dictionaries.  \<open>abs_start\<close> and
  \<open>abs_inc\<close> are the design's effects of a start and of a counted guess.
\<close>

fun users_map :: "users_dict \<Rightarrow> int \<rightharpoonup> user_state" where
  "users_map (Plain m) = m"
| "users_map (DefaultDict m) = m"

record session =
  active :: bool
  secret_hand :: "hand_result option"
  attempts :: "int \<Rightarrow> int"

definition session_of_group :: "group_state \<Rightarrow> session" where
  "session_of_group gs =
     \<lparr>active = start gs, secret_hand = hand gs,
      attempts = (\<lambda>q. case users_map (users gs) q of None \<Rightarrow> 0 | Some u \<Rightarrow> hit_count u)\<rparr>"

definition session_of :: "world \<Rightarrow> int \<Rightarrow> session" where
  "session_of w g = session_of_group (case process w g of None \<Rightarrow> idle_group | Some gs \<Rightarrow> gs)"

definition idle_session :: session where
  "idle_session = \<lparr>active = False, secret_hand = None, attempts = (\<lambda>_. 0)\<rparr>"

definition world_view :: "world \<Rightarrow> (int \<Rightarrow> session) \<times> (string \<rightharpoonup> timer) \<times> (int \<Rightarrow> int) \<times> nat \<times> hand_guess list" where
  "world_view w = (session_of w, timers w, points w, clock w, sending w)"

definition abs_inc :: "session \<Rightarrow> int \<Rightarrow> session" where
  "abs_inc s q = s\<lparr>attempts := (attempts s)(q := attempts s q + 1)\<rparr>"

definition abs_start :: "hand_result \<Rightarrow> session" where
  "abs_start h = \<lparr>active = True, secret_hand = Some h, attempts = (\<lambda>_. 0)\<rparr>"

section \<open>Example data\<close>

text \<open>
  A game running in group 1 on the design's example hand (\<open>1m\<close>--\<open>9m\<close>, three
  \<open>1p\<close>, \<open>2p\<close>, winning on \<open>3p\<close> by discard), with a scorer that accepts
  every hand at one han, and player 7 who has guessed \<open>n\<close> times.
\<close>

definition demo_response :: hand_response where
  "demo_response = \<lparr>han = Some 1, fu = Some 30, cost = Some (1000, 300), yaku = Some []\<rparr>"

definition demo_calc :: estimator where
  "demo_calc ts wt c = demo_response"

definition demo_hand :: hand_result where
  "demo_hand = \<lparr>tiles = [0, 4, 8, 12, 16, 20, 24, 28, 32, 36, 37, 38, 40], win_tile = py ''3p'',
     tsumo = False, result = demo_response, hand_index = 0\<rparr>"

definition demo_player :: hand_guess where
  "demo_player = \<lparr>qq = 7, group = 1\<rparr>"

definition demo_world :: "int \<Rightarrow> world" where
  "demo_world n =
     \<lparr>process = [1 \<mapsto> \<lparr>start = True, hand = Some demo_hand,
                         users = DefaultDict [7 \<mapsto> \<lparr>hit_count = n\<rparr>]\<rparr>],
      timers = [timer_name \<mapsto> \<lparr>deadline = 300, callback = demo_player\<rparr>],
      points = (\<lambda>_. 0), clock = 0, sending = []\<rparr>"

section \<open>Lemmas: each method on the session\<close>

lemma session_of_idle [simp]: "session_of_group idle_group = idle_session"
  by (simp add: session_of_group_def idle_group_def idle_session_def)

lemma status_present [state_simps]:
  "process w (group self) = Some gs \<Longrightarrow> status self w = (gs, w)"
  by (simp add: status_def dd_getitem_def)

lemma status_absent [state_simps]:
  "process w (group self) = None \<Longrightarrow>
   status self w = (idle_group, w\<lparr>process := (process w)(group self \<mapsto> idle_group)\<rparr>)"
  by (simp add: status_def dd_getitem_def)

lemma status_frame:
  assumes "status self w = (gs, w1)"
  shows "session_of w1 = session_of w" "timers w1 = timers w" "points w1 = points w"
    "clock w1 = clock w" "sending w1 = sending w"
    "process w1 (group self) = Some gs" "session_of_group gs = session_of w (group self)"
  using assms
  by (auto simp: status_def dd_getitem_def session_of_def fun_eq_iff split: option.splits if_splits)

lemma status_hand:
  assumes "status self w = (gs, w1)"
  shows "hand gs = secret_hand (session_of w (group self))"
proof -
  have "secret_hand (session_of_group gs) = hand gs" by (simp add: session_of_group_def)
  with status_frame(7) [OF assms] show ?thesis by simp
qed

lemma status_view: "status self w = (gs, w1) \<Longrightarrow> world_view w1 = world_view w"
  by (simp add: world_view_def status_frame)

lemma user_info_view:
  assumes "user_info self w = (r, w1)"
  shows "world_view w1 = world_view w"
    and "r = Inr u \<Longrightarrow> hit_count u = attempts (session_of w (group self)) (qq self)"
    and "r = Inl e \<Longrightarrow> e = KeyError"
proof -
  obtain gs w0 where st: "status self w = (gs, w0)" by fastforce
  note fr = status_frame [OF st]
  have v0: "world_view w0 = world_view w" by (rule status_view [OF st])
  have sg: "session_of_group gs = session_of w (group self)" by (rule fr(7))
  show "world_view w1 = world_view w"
  proof (cases "users gs")
    case (Plain m)
    with assms st v0 show ?thesis
      by (auto simp: user_info_def py_getitem_def fun_upd_idem fr(6) split: option.splits)
  next
    case (DefaultDict m)
    have "session_of_group (gs\<lparr>users := DefaultDict (snd (dd_getitem \<lparr>hit_count = 0\<rparr> m (qq self)))\<rparr>) =
          session_of_group gs"
      using DefaultDict
      by (auto simp: session_of_group_def dd_getitem_def fun_eq_iff split: option.split)
    with assms st v0 DefaultDict fr show ?thesis
      by (auto simp: user_info_def world_view_def session_of_def fun_eq_iff case_prod_beta
          split: prod.splits)
  qed
  show "r = Inr u \<Longrightarrow> hit_count u = attempts (session_of w (group self)) (qq self)"
    using assms st unfolding sg [symmetric]
    by (cases "users gs")
       (auto simp: user_info_def py_getitem_def session_of_group_def dd_getitem_def
         split: option.splits prod.splits)
  show "r = Inl e \<Longrightarrow> e = KeyError"
    using assms st
    by (cases "users gs") (auto simp: user_info_def py_getitem_def split: option.splits prod.splits)
qed

lemma users_map_setitem [simp]: "users_map (users_setitem u k v) = (users_map u)(k \<mapsto> v)"
  by (cases u) simp_all

text \<open>Writing a counter changes that counter only.\<close>

lemma set_user_info_session:
  "session_of (set_user_info self v w) =
     (session_of w)(group self := (session_of w (group self))
        \<lparr>attempts := (attempts (session_of w (group self)))(qq self := hit_count v)\<rparr>)"
proof -
  obtain gs w0 where st: "status self w = (gs, w0)" by fastforce
  note fr = status_frame [OF st]
  show ?thesis
    using st fr(1,7)
    by (auto simp: set_user_info_def session_of_def session_of_group_def fun_eq_iff
        dest: fun_cong [where x = "group self"] split: option.split)
qed

lemma set_user_info_other [simp]:
  "timers (set_user_info self v w) = timers w" "points (set_user_info self v w) = points w"
  "clock (set_user_info self v w) = clock w" "sending (set_user_info self v w) = sending w"
  by (auto simp: set_user_info_def status_def split: prod.split)

lemma inc_user_count_view:
  assumes "inc_user_count self w = (r, w1)"
  shows "r = Inr () \<Longrightarrow>
           session_of w1 = (session_of w)(group self := abs_inc (session_of w (group self)) (qq self))
           \<and> timers w1 = timers w \<and> points w1 = points w \<and> clock w1 = clock w
           \<and> sending w1 = sending w"
    and "r = Inl e \<Longrightarrow> e = KeyError \<and> world_view w1 = world_view w"
proof -
  obtain r0 w0 where ui: "user_info self w = (r0, w0)" by fastforce
  note v = user_info_view [OF ui]
  show "r = Inr () \<Longrightarrow>
           session_of w1 = (session_of w)(group self := abs_inc (session_of w (group self)) (qq self))
           \<and> timers w1 = timers w \<and> points w1 = points w \<and> clock w1 = clock w
           \<and> sending w1 = sending w"
    using assms ui v(1,2) unfolding world_view_def
    by (cases r0) (auto simp: inc_user_count_def set_user_info_session abs_inc_def)
  show "r = Inl e \<Longrightarrow> e = KeyError \<and> world_view w1 = world_view w"
    using assms ui v(1,3) by (cases r0) (auto simp: inc_user_count_def)
qed

lemma reset_game_session:
  "session_of (reset_game self w) = (session_of w)(group self := idle_session)"
  by (simp add: reset_game_def session_of_def fun_eq_iff)

lemma win_game_view:
  assumes "win_game self pts w = ((p, tot), w1)"
  shows "session_of w1 = (session_of w)(group self := idle_session)"
    and "timers w1 = (timers w)(timer_name := None)"
    and "points w1 = (points w)(qq self := points w (qq self) + pts)"
    and "p = pts" "tot = points w (qq self) + pts"
    and "clock w1 = clock w" "sending w1 = sending w"
  using assms
  by (auto simp: win_game_def reset_game_session cancel_call_later_def add_points_def Let_def
      session_of_def reset_game_def)

lemma is_win_view:
  assumes "is_win self ts w = (r, w1)"
  shows "world_view w1 = world_view w"
    and "r = (case secret_hand (session_of w (group self)) of
                None \<Rightarrow> Inl AttributeError
              | Some h \<Rightarrow> (case one_line_string_to_136_array (win_tile h) of
                            Inl e \<Rightarrow> Inl e | Inr wt \<Rightarrow> Inr (tiles h @ wt = ts)))"
proof -
  obtain gs w0 where st: "status self w = (gs, w0)" by fastforce
  note fr = status_frame [OF st]
  have h: "hand gs = secret_hand (session_of w (group self))"
    unfolding fr(7) [symmetric] by (simp add: session_of_group_def)
  show "world_view w1 = world_view w"
    using assms st status_view [OF st]
    by (auto simp: is_win_def split: option.splits sum.splits)
  show "r = (case secret_hand (session_of w (group self)) of
                None \<Rightarrow> Inl AttributeError
              | Some h \<Rightarrow> (case one_line_string_to_136_array (win_tile h) of
                            Inl e \<Rightarrow> Inl e | Inr wt \<Rightarrow> Inr (tiles h @ wt = ts)))"
    using assms st unfolding h [symmetric]
    by (auto simp: is_win_def split: option.splits sum.splits)
qed

lemma user_info_present:
  assumes "process w (group self) = Some gs" "users_map (users gs) (qq self) = Some u"
  shows "user_info self w = (Inr u, w)"
proof -
  have "w\<lparr>process := (process w)(group self \<mapsto> gs)\<rparr> = w"
    using assms(1) by (simp add: fun_upd_idem)
  moreover have upd: "\<And>u'. users gs = u' \<Longrightarrow> gs\<lparr>users := u'\<rparr> = gs" by auto
  ultimately show ?thesis
    using assms
    by (cases "users gs")
       (simp_all add: user_info_def status_present py_getitem_def dd_getitem_def upd)
qed

lemma attempts_present:
  assumes "attempts (session_of w g) q \<noteq> 0"
  shows "\<exists>gs u. process w g = Some gs \<and> users_map (users gs) q = Some u \<and>
           hit_count u = attempts (session_of w g) q"
  using assms
  by (auto simp: session_of_def session_of_group_def idle_group_def split: option.splits)

lemma active_present:
  "active (session_of w g) \<Longrightarrow> \<exists>gs. process w g = Some gs \<and> start gs"
  by (auto simp: session_of_def session_of_group_def idle_group_def split: option.splits)

text \<open>
  C4: starting a game in a group whose game is running answers that the game has
  started and changes nothing: not the hand, not the counters, not the timers.
\<close>

theorem start_game_active:
  assumes "active (session_of w (group self))"
  shows "start_game calc hand_list r self w = (Inr AlreadyStarted, w)"
proof -
  obtain gs where "process w (group self) = Some gs" "start gs"
    using active_present [OF assms] by blast
  then show ?thesis
    by (simp add: start_game_def is_start_def status_present)
qed

text \<open>A running game in the example world, and the start refused there.\<close>

theorem start_game_active_witness:
  "active (session_of (demo_world 0) (group demo_player)) \<and>
   start_game demo_calc [] 0 demo_player (demo_world 0) = (Inr AlreadyStarted, demo_world 0)"
proof -
  have a: "active (session_of (demo_world 0) (group demo_player))"
    by (simp add: demo_world_def demo_player_def session_of_def session_of_group_def)
  show ?thesis using a start_game_active [OF a] by simp
qed

text \<open>
  C12: \<open>start\<close> in a group without a running game implements the design's start: on a
  successful draw it answers started, the group's session becomes active with the drawn
  hand and every counter at zero, the timeout is armed \<open>TIMEOUT\<close> seconds from now, and
  nothing else changes.
\<close>

theorem start_game_idle:
  assumes "\<not> active (session_of w (group self))"
    and "get_hand calc hand_list None r = Inr h"
    and "start_game calc hand_list r self w = (res, w1)"
  shows "res = Inr Started
    \<and> session_of w1 = (session_of w)(group self := abs_start h)
    \<and> timers w1 = (timers w)(timer_name \<mapsto> \<lparr>deadline = clock w + TIMEOUT, callback = self\<rparr>)
    \<and> points w1 = points w \<and> clock w1 = clock w \<and> sending w1 = sending w"
proof -
  obtain gs w0 where st: "status self w = (gs, w0)" by fastforce
  note fr = status_frame [OF st]
  have "\<not> start gs"
    using assms(1) unfolding fr(7) [symmetric] by (simp add: session_of_group_def)
  then have w1: "w1 = call_later TIMEOUT self timer_name
      (w0\<lparr>process := (process w0)(group self \<mapsto>
         \<lparr>start = True, hand = Some h, users = DefaultDict Map.empty\<rparr>)\<rparr>)"
    and "res = Inr Started"
    using assms(2,3) st by (simp_all add: start_game_def is_start_def)
  moreover have "session_of w1 = (session_of w)(group self := abs_start h)"
    using fr(1) unfolding w1
    by (auto simp: call_later_def session_of_def session_of_group_def abs_start_def fun_eq_iff
        dest: fun_cong)
  moreover have "timers w1 = (timers w)(timer_name \<mapsto> \<lparr>deadline = clock w + TIMEOUT, callback = self\<rparr>)"
    "points w1 = points w" "clock w1 = clock w" "sending w1 = sending w"
    using fr(2-5) unfolding w1 by (simp_all add: call_later_def)
  ultimately show ?thesis by simp
qed

theorem start_game_idle_witness:
  "\<not> active (session_of (\<lparr>process = Map.empty, timers = Map.empty, points = (\<lambda>_. 0), clock = 0, sending = []\<rparr>) (group demo_player)) \<and>
   get_hand demo_calc [py ''1m2m3m4m5m6m7m8m9m1p1p1p2p3p:01''] None 0 = Inr demo_hand \<and>
   start_game demo_calc [py ''1m2m3m4m5m6m7m8m9m1p1p1p2p3p:01''] 0 demo_player (\<lparr>process = Map.empty, timers = Map.empty, points = (\<lambda>_. 0), clock = 0, sending = []\<rparr>) =
     (Inr Started, snd (start_game demo_calc [py ''1m2m3m4m5m6m7m8m9m1p1p1p2p3p:01''] 0 demo_player (\<lparr>process = Map.empty, timers = Map.empty, points = (\<lambda>_. 0), clock = 0, sending = []\<rparr>))) \<and>
   session_of (snd (start_game demo_calc [py ''1m2m3m4m5m6m7m8m9m1p1p1p2p3p:01''] 0 demo_player (\<lparr>process = Map.empty, timers = Map.empty, points = (\<lambda>_. 0), clock = 0, sending = []\<rparr>))) 1 = abs_start demo_hand"
proof -
  have a: "\<not> active (session_of (\<lparr>process = Map.empty, timers = Map.empty, points = (\<lambda>_. 0), clock = 0, sending = []\<rparr>) (group demo_player))"
    by (simp add: session_of_def session_of_group_def idle_group_def)
  have g: "get_hand demo_calc [py ''1m2m3m4m5m6m7m8m9m1p1p1p2p3p:01''] None 0 = Inr demo_hand" by code_simp
  have p: "start_game demo_calc [py ''1m2m3m4m5m6m7m8m9m1p1p1p2p3p:01''] 0 demo_player (\<lparr>process = Map.empty, timers = Map.empty, points = (\<lambda>_. 0), clock = 0, sending = []\<rparr>) =
     (fst (start_game demo_calc [py ''1m2m3m4m5m6m7m8m9m1p1p1p2p3p:01''] 0 demo_player (\<lparr>process = Map.empty, timers = Map.empty, points = (\<lambda>_. 0), clock = 0, sending = []\<rparr>)),
      snd (start_game demo_calc [py ''1m2m3m4m5m6m7m8m9m1p1p1p2p3p:01''] 0 demo_player (\<lparr>process = Map.empty, timers = Map.empty, points = (\<lambda>_. 0), clock = 0, sending = []\<rparr>)))" by simp
  note r = start_game_idle [OF a g p]
  show ?thesis using a g r p by (simp add: demo_player_def)
qed

text \<open>
  C36: when the draw fails (for instance the draw past the end of the corpus that
  \<open>randint(0, len(hand_list))\<close> allows), \<open>start\<close> in a group without a running
  game raises the exception of \<open>get_hand\<close> and changes nothing the design can see:
  the group stays idle and no timeout is armed.
\<close>

theorem start_game_error:
  assumes "\<not> active (session_of w (group self))"
    and "get_hand calc hand_list None r = Inl e"
    and "start_game calc hand_list r self w = (res, w1)"
  shows "res = Inl e \<and> world_view w1 = world_view w"
proof -
  obtain gs w0 where st: "status self w = (gs, w0)" by fastforce
  note fr = status_frame [OF st]
  have "\<not> start gs"
    using assms(1) unfolding fr(7) [symmetric] by (simp add: session_of_group_def)
  with assms(2,3) st status_view [OF st] show ?thesis
    by (simp add: start_game_def is_start_def)
qed

theorem start_game_error_witness:
  "\<not> active (session_of (\<lparr>process = Map.empty, timers = Map.empty, points = (\<lambda>_. 0), clock = 0, sending = []\<rparr>) (group demo_player)) \<and>
   get_hand demo_calc [py ''1m2m3m4m5m6m7m8m9m1p1p1p2p3p:01''] None 1 = Inl IndexError \<and>
   fst (start_game demo_calc [py ''1m2m3m4m5m6m7m8m9m1p1p1p2p3p:01''] 1 demo_player (\<lparr>process = Map.empty, timers = Map.empty, points = (\<lambda>_. 0), clock = 0, sending = []\<rparr>)) = Inl IndexError \<and>
   world_view (snd (start_game demo_calc [py ''1m2m3m4m5m6m7m8m9m1p1p1p2p3p:01''] 1 demo_player (\<lparr>process = Map.empty, timers = Map.empty, points = (\<lambda>_. 0), clock = 0, sending = []\<rparr>))) = world_view (\<lparr>process = Map.empty, timers = Map.empty, points = (\<lambda>_. 0), clock = 0, sending = []\<rparr>)"
proof -
  have a: "\<not> active (session_of (\<lparr>process = Map.empty, timers = Map.empty, points = (\<lambda>_. 0), clock = 0, sending = []\<rparr>) (group demo_player))"
    by (simp add: session_of_def session_of_group_def idle_group_def)
  have g: "get_hand demo_calc [py ''1m2m3m4m5m6m7m8m9m1p1p1p2p3p:01''] None 1 = Inl IndexError"
    by (simp add: get_hand_def py_index_def)
  have p: "start_game demo_calc [py ''1m2m3m4m5m6m7m8m9m1p1p1p2p3p:01''] 1 demo_player (\<lparr>process = Map.empty, timers = Map.empty, points = (\<lambda>_. 0), clock = 0, sending = []\<rparr>) =
     (fst (start_game demo_calc [py ''1m2m3m4m5m6m7m8m9m1p1p1p2p3p:01''] 1 demo_player (\<lparr>process = Map.empty, timers = Map.empty, points = (\<lambda>_. 0), clock = 0, sending = []\<rparr>)),
      snd (start_game demo_calc [py ''1m2m3m4m5m6m7m8m9m1p1p1p2p3p:01''] 1 demo_player (\<lparr>process = Map.empty, timers = Map.empty, points = (\<lambda>_. 0), clock = 0, sending = []\<rparr>)))" by simp
  show ?thesis using a g start_game_error [OF a g p] by simp
qed

end
