(* ===== verification/Guess.thy ===== *)
theory Guess
  imports Session
begin

text \<open>
  \<open>HandGuess.guesses_handler\<close> (\<open>src/handler.py\<close> lines 137--245), one definition per
  stretch of the method, composed in the method's order: the checks of lines 139--143,
  the parsing and scoring of lines 145--164 (\<open>guess_evaluate\<close>), the colours of lines
  166--200 (\<open>guess_feedback\<close>), the hints of lines 202--219 (\<open>guess_view_of\<close>), and
  the end of lines 239--245 (\<open>guess_finish\<close>).  A rejection is a reply
  \<open>dict(error=True, msg=...)\<close>, the constructor names the message; the image of a
  shown guess is replaced by the data it is drawn from.
\<close>

datatype guess_error = Illegal | NoChances | NotFourteen | NoWinShape | NoYaku

record guess_eval =
  msg_hand :: pystr
  msg_win_tile :: pystr
  msg_tiles :: "int list"
  guess_win_tile :: int
  guess_result :: hand_response
  secret :: hand_result

text \<open>Lines 145--164.  \<open>self.status.hand.tsumo\<close> raises AttributeError with no game.\<close>

definition guess_evaluate ::
  "estimator \<Rightarrow> group_state \<Rightarrow> pystr \<Rightarrow> exc + (guess_error + guess_eval)" where
  "guess_evaluate calc gs msg =
     (case format_hand_msg msg of
        Inl e \<Rightarrow> Inl e
      | Inr mh \<Rightarrow>
         (let mwt = py_slice mh (-2) (int (length mh)) in
          case one_line_string_to_136_array mh of
            Inl e \<Rightarrow> Inl e
          | Inr mts \<Rightarrow>
             (if length mts \<noteq> 14 then Inr (Inl NotFourteen)
              else case one_line_string_to_136_array mwt of
                Inl e \<Rightarrow> Inl e
              | Inr wts \<Rightarrow>
                 (case py_index wts 0 of
                    Inl e \<Rightarrow> Inl e
                  | Inr wt \<Rightarrow>
                     (case hand gs of
                        None \<Rightarrow> Inl AttributeError
                      | Some h \<Rightarrow>
                         (let res = calc mts wt \<lparr>is_riichi = True, is_tsumo = tsumo h\<rparr> in
                          if han res = None then Inr (Inl NoWinShape)
                          else if han res = Some 0 then Inr (Inl NoYaku)
                          else Inr (Inr \<lparr>msg_hand = mh, msg_win_tile = mwt, msg_tiles = mts,
                                         guess_win_tile = wt, guess_result = res,
                                         secret = h\<rparr>)))))))"

text \<open>Lines 166--200: \<open>current_tiles\<close>, the hand colours and the winning-tile colour.\<close>

definition guess_feedback :: "guess_eval \<Rightarrow> exc + (int list \<times> tag list \<times> tag)" where
  "guess_feedback ev =
     (case one_line_string_to_136_array (py_slice (msg_hand ev) 0 (-2)) of
        Inl e \<Rightarrow> Inl e
      | Inr current_tiles \<Rightarrow>
         (case hand_feedback current_tiles (tiles (secret ev)) of
            Inl e \<Rightarrow> Inl e
          | Inr tags \<Rightarrow>
             (case win_feedback (msg_win_tile ev) (win_tile (secret ev)) current_tiles
                     (tiles (secret ev)) of
                Inl e \<Rightarrow> Inl e
              | Inr wtag \<Rightarrow> Inr (current_tiles, tags, wtag))))"

text \<open>Lines 203--205: the names of the secret hand's yaku other than ids 0 and 1, reversed.\<close>

definition yaku_hint :: "hand_response \<Rightarrow> exc + pystr list" where
  "yaku_hint r =
     (case yaku r of
        None \<Rightarrow> Inl TypeError
      | Some ys \<Rightarrow> Inr (map japanese (rev (filter (\<lambda>x. yaku_id x \<notin> {0, 1}) ys))))"

text \<open>Lines 210--213: \<open>cost["main"] + cost["additional"]\<close>.\<close>

definition status_cost_of :: "hand_response \<Rightarrow> exc + int" where
  "status_cost_of r =
     (case cost r of None \<Rightarrow> Inl TypeError | Some (main, additional) \<Rightarrow> Inr (main + additional))"

record guess_view =
  hand_tags :: "tag list"
  win_tag :: tag
  tip :: "pystr list"
  status_han :: "int option"
  status_fu :: "int option"
  status_cost :: int
  tsumo_tip :: bool
  remaining :: int
  shown_tiles :: "int list"
  shown_win_tile :: int

datatype guess_reply = Rejected guess_error | Shown guess_view "(int \<times> int) option"

text \<open>
  Lines 202--219, for the counter \<open>hits\<close> read at line 142.  Line 219 reads
  \<open>users[qq]\<close> again; nothing wrote it in between, so it is the same counter.
\<close>

definition guess_view_of ::
  "guess_eval \<Rightarrow> int list \<times> tag list \<times> tag \<Rightarrow> int \<Rightarrow> exc + guess_view" where
  "guess_view_of ev fb hits =
     (let h = secret ev; r = result h in
      case yaku_hint r of
        Inl e \<Rightarrow> Inl e
      | Inr names \<Rightarrow>
         (case status_cost_of r of
            Inl e \<Rightarrow> Inl e
          | Inr c \<Rightarrow>
              Inr \<lparr>hand_tags = fst (snd fb), win_tag = snd (snd fb), tip = names,
                   status_han = han r, status_fu = fu r, status_cost = c,
                   tsumo_tip = tsumo h, remaining = MAX_GUESS - hits - 1,
                   shown_tiles = fst fb, shown_win_tile = guess_win_tile ev\<rparr>))"

text \<open>Lines 239--245.\<close>

definition guess_finish ::
  "hand_guess \<Rightarrow> guess_eval \<Rightarrow> int list \<times> tag list \<times> tag \<Rightarrow> guess_view \<Rightarrow> world \<Rightarrow>
   (exc + guess_reply) \<times> world" where
  "guess_finish self ev fb view w =
     (case is_win self (fst fb @ [guess_win_tile ev]) w of
        (Inl e, w1) \<Rightarrow> (Inl e, w1)
      | (Inr True, w1) \<Rightarrow>
          (case win_game self (status_cost view) w1 of (m, w2) \<Rightarrow> (Inr (Shown view (Some m)), w2))
      | (Inr False, w1) \<Rightarrow>
          (case inc_user_count self w1 of
             (Inl e, w2) \<Rightarrow> (Inl e, w2)
           | (Inr _, w2) \<Rightarrow> (Inr (Shown view None), w2)))"

definition guesses_handler ::
  "estimator \<Rightarrow> hand_guess \<Rightarrow> pystr \<Rightarrow> world \<Rightarrow> (exc + guess_reply) \<times> world" where
  "guesses_handler calc self msg w =
     (if illegal_msg msg then (Inr (Rejected Illegal), w)
      else case user_info self w of
        (Inl e, w1) \<Rightarrow> (Inl e, w1)
      | (Inr info, w1) \<Rightarrow>
          (if MAX_GUESS \<le> hit_count info then (Inr (Rejected NoChances), w1)
           else case status self w1 of
             (gs, w2) \<Rightarrow>
               (case guess_evaluate calc gs msg of
                  Inl e \<Rightarrow> (Inl e, w2)
                | Inr (Inl err) \<Rightarrow> (Inr (Rejected err), w2)
                | Inr (Inr ev) \<Rightarrow>
                   (case guess_feedback ev of
                      Inl e \<Rightarrow> (Inl e, w2)
                    | Inr fb \<Rightarrow>
                       (case guess_view_of ev fb (hit_count info) of
                          Inl e \<Rightarrow> (Inl e, w2)
                        | Inr view \<Rightarrow> guess_finish self ev fb view w2)))))"

section \<open>The effect of a guess on the design's session\<close>

text \<open>
  Which reply changes what: a shown guess that did not win counts one guess of the
  player, a win resets the group, cancels the timer named \<open>HandGuessGame\<close> and pays the
  points, and every other reply (a rejection or an exception) changes nothing the design
  can see.
\<close>

definition abs_guess_effect :: "hand_guess \<Rightarrow> exc + guess_reply \<Rightarrow> session \<Rightarrow> session" where
  "abs_guess_effect self r s =
     (case r of Inr (Shown v None) \<Rightarrow> abs_inc s (qq self)
      | Inr (Shown v (Some m)) \<Rightarrow> idle_session
      | _ \<Rightarrow> s)"

definition timers_effect :: "exc + guess_reply \<Rightarrow> (string \<rightharpoonup> timer) \<Rightarrow> (string \<rightharpoonup> timer)" where
  "timers_effect r t = (case r of Inr (Shown v (Some m)) \<Rightarrow> t(timer_name := None) | _ \<Rightarrow> t)"

definition points_effect :: "hand_guess \<Rightarrow> exc + guess_reply \<Rightarrow> (int \<Rightarrow> int) \<Rightarrow> (int \<Rightarrow> int)" where
  "points_effect self r p =
     (case r of Inr (Shown v (Some (pts, tot))) \<Rightarrow> p(qq self := p (qq self) + pts) | _ \<Rightarrow> p)"

definition guess_effect :: "hand_guess \<Rightarrow> exc + guess_reply \<Rightarrow> world \<Rightarrow> world \<Rightarrow> bool" where
  "guess_effect self r w w' \<longleftrightarrow>
     session_of w' = (session_of w)(group self := abs_guess_effect self r (session_of w (group self)))
     \<and> timers w' = timers_effect r (timers w) \<and> points w' = points_effect self r (points w)
     \<and> clock w' = clock w \<and> sending w' = sending w"

section \<open>Lemmas\<close>

lemma guess_effect_refl:
  "(\<And>v m. r \<noteq> Inr (Shown v m)) \<Longrightarrow> world_view w' = world_view w \<Longrightarrow> guess_effect self r w w'"
  by (cases r rule: sum.exhaust[case_product sum.exhaust])
     (auto simp: guess_effect_def abs_guess_effect_def timers_effect_def points_effect_def
       world_view_def split: sum.split guess_reply.split)

lemma guess_finish_effect:
  assumes "guess_finish self ev fb v w = (r, w')"
  shows "guess_effect self r w w'"
    and "r = Inr (Shown v' m) \<Longrightarrow> v' = v"
    and "r = Inr (Shown v' (Some (pts, tot))) \<Longrightarrow> pts = status_cost v \<and> tot = points w' (qq self)"
proof -
  obtain b w1 where iw: "is_win self (fst fb @ [guess_win_tile ev]) w = (b, w1)" by fastforce
  note iv = is_win_view [OF iw]
  have "guess_effect self r w w' \<and> (r = Inr (Shown v' m) \<longrightarrow> v' = v) \<and>
        (r = Inr (Shown v' (Some (pts, tot))) \<longrightarrow> pts = status_cost v \<and> tot = points w' (qq self))"
  proof (cases b)
    case (Inl e)
    with assms iw iv(1) show ?thesis
      by (auto simp: guess_finish_def intro: guess_effect_refl)
  next
    case (Inr won)
    show ?thesis
    proof (cases won)
      case True
      obtain m2 w2 where wg: "win_game self (status_cost v) w1 = (m2, w2)" by fastforce
      obtain p2 t2 where m2: "m2 = (p2, t2)" by fastforce
      note wv = win_game_view [OF wg [unfolded m2]]
      have "r = Inr (Shown v (Some m2))" "w' = w2"
        using assms iw wg Inr True by (simp_all add: guess_finish_def)
      then show ?thesis
        using iv(1) wv m2 unfolding world_view_def
        by (auto simp: guess_effect_def abs_guess_effect_def timers_effect_def points_effect_def)
    next
      case False
      obtain u w2 where ic: "inc_user_count self w1 = (u, w2)" by fastforce
      note icv = inc_user_count_view [OF ic]
      show ?thesis
      proof (cases u)
        case (Inl e)
        with assms iw ic Inr False icv(2) iv(1) show ?thesis
          by (auto simp: guess_finish_def intro: guess_effect_refl)
      next
        case (Inr x)
        then have "r = Inr (Shown v None)" "w' = w2"
          using assms iw ic \<open>b = Inr won\<close> False by (simp_all add: guess_finish_def)
        then show ?thesis
          using icv(1) Inr iv(1) unfolding world_view_def
          by (auto simp: guess_effect_def abs_guess_effect_def timers_effect_def points_effect_def)
      qed
    qed
  qed
  then show "guess_effect self r w w'"
    and "r = Inr (Shown v' m) \<Longrightarrow> v' = v"
    and "r = Inr (Shown v' (Some (pts, tot))) \<Longrightarrow> pts = status_cost v \<and> tot = points w' (qq self)"
    by blast+
qed

lemma guess_effect_view:
  "world_view w1 = world_view w \<Longrightarrow> guess_effect self r w1 w' \<Longrightarrow> guess_effect self r w w'"
  by (simp add: guess_effect_def world_view_def)

lemma guesses_handler_cases [consumes 1, case_names unchanged finish]:
  assumes "guesses_handler calc self msg w = (r, w')"
  obtains (unchanged) "world_view w' = world_view w" "\<And>v m. r \<noteq> Inr (Shown v m)"
  | (finish) ev fb v gs w2 where "world_view w2 = world_view w" "\<not> illegal_msg msg"
      "attempts (session_of w (group self)) (qq self) < MAX_GUESS"
      "session_of_group gs = session_of w (group self)" "process w2 (group self) = Some gs"
      "guess_evaluate calc gs msg = Inr (Inr ev)" "guess_feedback ev = Inr fb"
      "guess_view_of ev fb (attempts (session_of w (group self)) (qq self)) = Inr v"
      "guess_finish self ev fb v w2 = (r, w')"
proof (cases "illegal_msg msg")
  case True
  with assms show ?thesis by (auto simp: guesses_handler_def intro: unchanged)
next
  case False
  obtain r0 w1 where ui: "user_info self w = (r0, w1)" by fastforce
  note uv = user_info_view [OF ui]
  show ?thesis
  proof (cases r0)
    case (Inl e)
    with assms False ui uv(1) show ?thesis
      by (auto simp: guesses_handler_def intro: unchanged)
  next
    case (Inr info)
    obtain gs w2 where st: "status self w1 = (gs, w2)" by fastforce
    note fr = status_frame [OF st]
    have v2: "world_view w2 = world_view w"
      using status_view [OF st] uv(1) by simp
    have hc: "hit_count info = attempts (session_of w (group self)) (qq self)"
      using uv(2) Inr by blast
    have sg: "session_of_group gs = session_of w (group self)"
      using fr(7) uv(1) by (simp add: world_view_def)
    show ?thesis
    proof (cases "MAX_GUESS \<le> hit_count info")
      case True
      with assms False ui Inr uv(1) show ?thesis
        by (auto simp: guesses_handler_def intro: unchanged)
    next
      case notmax: False
      have r: "guesses_handler calc self msg w =
         (case guess_evaluate calc gs msg of
            Inl e \<Rightarrow> (Inl e, w2)
          | Inr (Inl err) \<Rightarrow> (Inr (Rejected err), w2)
          | Inr (Inr ev) \<Rightarrow>
             (case guess_feedback ev of
                Inl e \<Rightarrow> (Inl e, w2)
              | Inr fb \<Rightarrow>
                 (case guess_view_of ev fb (hit_count info) of
                    Inl e \<Rightarrow> (Inl e, w2)
                  | Inr vw \<Rightarrow> guess_finish self ev fb vw w2)))"
        using False ui Inr st notmax by (simp add: guesses_handler_def)
      show ?thesis
        using assms v2 notmax False fr(6) sg unfolding r hc
        by (auto split: sum.splits intro: unchanged finish)
    qed
  qed
qed

lemma guesses_handler_effect:
  assumes "guesses_handler calc self msg w = (r, w')"
  shows "guess_effect self r w w'"
  using assms
proof (cases rule: guesses_handler_cases)
  case unchanged
  then show ?thesis by (blast intro: guess_effect_refl)
next
  case (finish ev fb v gs w2)
  then show ?thesis by (blast intro: guess_effect_view guess_finish_effect(1))
qed

lemma guess_evaluate_parsed:
  assumes "guess_evaluate calc gs msg = Inr (Inr ev)"
  shows "format_hand_msg msg = Inr (msg_hand ev)"
    and "one_line_string_to_136_array (msg_hand ev) = Inr (msg_tiles ev)"
    and "length (msg_tiles ev) = 14"
    and "msg_win_tile ev = py_slice (msg_hand ev) (-2) (int (length (msg_hand ev)))"
    and "\<exists>ws. one_line_string_to_136_array (msg_win_tile ev) = Inr (guess_win_tile ev # ws)"
  using assms
  by (auto simp: guess_evaluate_def Let_def py_index_def neq_Nil_conv
      split: sum.splits option.splits if_splits)

lemma guess_evaluate_current:
  assumes "\<not> illegal_msg msg" "guess_evaluate calc gs msg = Inr (Inr ev)"
  shows "\<exists>cs. one_line_string_to_136_array (py_slice (msg_hand ev) 0 (-2)) = Inr cs \<and>
             length cs = 13"
proof -
  define mh where "mh = msg_hand ev"
  note p = guess_evaluate_parsed [OF assms(2), folded mh_def]
  have long: "2 < length mh"
    using format_hand_msg_length [OF assms(1) p(1)] .
  obtain a b where ab: "drop (length mh - 2) mh = [a, b]"
    using long by (metis (no_types) Suc_diff_Suc length_drop diff_diff_cancel less_imp_le_nat
        numeral_2_eq_2 length_Suc_conv length_0_conv)
  define xs where "xs = take (length mh - 2) mh"
  have mh: "mh = xs @ [a, b]"
    unfolding xs_def using ab by (metis append_take_drop_id)
  obtain ws where "one_line_string_to_136_array [a, b] = Inr (guess_win_tile ev # ws)"
    using p(4,5) ab by (auto simp: py_simps)
  then have a: "letter_suit a = None" and b: "\<exists>s. letter_suit b = Some s"
    using one_line_two_Cons by blast+
  have "closed (take (length mh - 2) mh)"
    using format_hand_msg_closed [OF assms(1) p(1)] b mh by auto
  then have "closed xs" by (simp add: xs_def)
  then obtain cs where "one_line_string_to_136_array xs = Inr cs" "length (msg_tiles ev) = Suc (length cs)"
    using one_line_append_tile a b p(2) mh by metis
  with p(3) show ?thesis
    by (simp add: mh_def [symmetric] xs_def py_simps)
qed

lemma guess_evaluate_secret:
  "guess_evaluate calc gs msg = Inr (Inr ev) \<Longrightarrow> hand gs = Some (secret ev)"
  by (auto simp: guess_evaluate_def Let_def split: sum.splits option.splits if_splits)

lemma guess_view_of_Inr:
  assumes "guess_view_of ev fb n = Inr v"
  shows "status_cost_of (result (secret ev)) = Inr (status_cost v)"
    and "remaining v = MAX_GUESS - n - 1"
    and "hand_tags v = fst (snd fb)" "win_tag v = snd (snd fb)"
  using assms by (auto simp: guess_view_of_def Let_def split: sum.splits)

lemma guess_effect_not_shown:
  "guess_effect self r w w' \<Longrightarrow> (\<And>v m. r \<noteq> Inr (Shown v m)) \<Longrightarrow> world_view w' = world_view w"
  by (cases r rule: sum.exhaust[case_product sum.exhaust])
     (auto simp: guess_effect_def abs_guess_effect_def timers_effect_def points_effect_def
       world_view_def split: sum.splits guess_reply.splits)

lemma guesses_handler_shown:
  assumes "guesses_handler calc self msg w = (Inr (Shown v m), w')"
  shows "attempts (session_of w (group self)) (qq self) < MAX_GUESS \<and>
         remaining v = MAX_GUESS - attempts (session_of w (group self)) (qq self) - 1 \<and>
         (\<exists>h. secret_hand (session_of w (group self)) = Some h \<and>
              status_cost_of (result h) = Inr (status_cost v)) \<and>
         (\<forall>p tot. m = Some (p, tot) \<longrightarrow> p = status_cost v \<and> tot = points w' (qq self))"
  using assms
proof (cases rule: guesses_handler_cases)
  case unchanged
  then show ?thesis by blast
next
  case (finish ev fb v' gs w2)
  have vv: "v' = v" using guess_finish_effect(2) [OF finish(9)] by blast
  have "hand gs = Some (secret ev)"
    using guess_evaluate_secret [OF finish(6)] .
  then have "secret_hand (session_of w (group self)) = Some (secret ev)"
    unfolding finish(4) [symmetric] by (simp add: session_of_group_def)
  moreover have "status_cost_of (result (secret ev)) = Inr (status_cost v)"
    using guess_view_of_Inr(1) [OF finish(8)] vv by simp
  moreover have "remaining v = MAX_GUESS - attempts (session_of w (group self)) (qq self) - 1"
    using guess_view_of_Inr(2) [OF finish(8)] vv by simp
  moreover have "\<forall>p tot. m = Some (p, tot) \<longrightarrow> p = status_cost v \<and> tot = points w' (qq self)"
    using guess_finish_effect(3) [OF finish(9)] vv by simp
  ultimately show ?thesis
    using finish(3) by (intro conjI) blast+
qed

section \<open>Rejections\<close>

text \<open>
  C2: a player who has used up the guesses of this game (\<open>MAX_GUESS\<close>, six) is
  refused before the guess is parsed or scored, and the world is left as it was.
\<close>

theorem guesses_handler_exhausted:
  assumes "\<not> illegal_msg msg" "MAX_GUESS \<le> attempts (session_of w (group self)) (qq self)"
  shows "guesses_handler calc self msg w = (Inr (Rejected NoChances), w)"
proof -
  have "attempts (session_of w (group self)) (qq self) \<noteq> 0"
    using assms(2) by (simp add: MAX_GUESS_def)
  then obtain gs u where gs: "process w (group self) = Some gs"
      and u: "users_map (users gs) (qq self) = Some u"
      and hc: "hit_count u = attempts (session_of w (group self)) (qq self)"
    using attempts_present by blast
  have "user_info self w = (Inr u, w)"
    using gs u by (rule user_info_present)
  with assms hc show ?thesis
    by (simp add: guesses_handler_def)
qed

theorem guesses_handler_exhausted_witness:
  "\<not> illegal_msg (py ''123456789m1112p3p'') \<and>
   MAX_GUESS \<le> attempts (session_of (demo_world 6) (group demo_player)) (qq demo_player) \<and>
   guesses_handler demo_calc demo_player (py ''123456789m1112p3p'') (demo_world 6) =
     (Inr (Rejected NoChances), demo_world 6)"
proof -
  have a: "\<not> illegal_msg (py ''123456789m1112p3p'')"
    by (simp add: illegal_msg_def ascii_digit_def)
  have b: "MAX_GUESS \<le> attempts (session_of (demo_world 6) (group demo_player)) (qq demo_player)"
    by (simp add: demo_world_def demo_player_def session_of_def session_of_group_def MAX_GUESS_def)
  show ?thesis using a b guesses_handler_exhausted [OF a b] by simp
qed

text \<open>
  C19: a message with a symbol outside the alphabet (a decimal digit, \<open>m p s z h\<close> or
  one of the ten glyphs) is refused before anything else, whatever the state, and the
  world is left as it was; in particular no counter moves.
\<close>

theorem guesses_handler_illegal:
  assumes "c \<in> set msg" "\<not> allowed_sym c"
  shows "guesses_handler calc self msg w = (Inr (Rejected Illegal), w)"
proof -
  have "illegal_msg msg"
    using assms by (auto simp: illegal_msg_def list_ex_iff)
  then show ?thesis by (simp add: guesses_handler_def)
qed

theorem guesses_handler_illegal_witness:
  "Asc CHR ''x'' \<in> set (py ''12x'') \<and> \<not> allowed_sym (Asc CHR ''x'') \<and>
   guesses_handler demo_calc demo_player (py ''12x'') (demo_world 0) =
     (Inr (Rejected Illegal), demo_world 0)"
proof -
  have a: "Asc CHR ''x'' \<in> set (py ''12x'')" by simp
  have b: "\<not> allowed_sym (Asc CHR ''x'')" by (simp add: ascii_digit_def)
  show ?thesis using a b guesses_handler_illegal [OF a b] by simp
qed

section \<open>Replies that are shown\<close>

text \<open>
  C5: \<open>guesses_handler\<close> implements the design's guess step on the session: a shown
  reply without payout adds one to the player's counter, a shown reply with payout
  \<open>(p, total)\<close> returns the group to the idle session, cancels the timeout and
  credits \<open>p\<close>, and every other reply changes nothing; other groups, the clock and
  the suspended callbacks are untouched.
\<close>

theorem guesses_handler_refines:
  assumes "guesses_handler calc self msg w = (r, w')"
  shows "session_of w' = (session_of w)(group self := abs_guess_effect self r (session_of w (group self))) \<and>
         timers w' = timers_effect r (timers w) \<and> points w' = points_effect self r (points w) \<and>
         clock w' = clock w \<and> sending w' = sending w"
  using guesses_handler_effect [OF assms] by (simp add: guess_effect_def)

theorem guesses_handler_refines_witness:
  "attempts (session_of (snd (guesses_handler demo_calc demo_player (py ''123456789m1119p3p'')
     (demo_world 2))) 1) 7 = 3 \<and>
   session_of (snd (guesses_handler demo_calc demo_player (py ''123456789m1119p3p'') (demo_world 2))) =
     (session_of (demo_world 2))(group demo_player := abs_guess_effect demo_player
        (fst (guesses_handler demo_calc demo_player (py ''123456789m1119p3p'') (demo_world 2)))
        (session_of (demo_world 2) (group demo_player)))"
proof -
  have a: "attempts (session_of (snd (guesses_handler demo_calc demo_player (py ''123456789m1119p3p'')
     (demo_world 2))) 1) 7 = 3" by code_simp
  have g: "guesses_handler demo_calc demo_player (py ''123456789m1119p3p'') (demo_world 2) =
     (fst (guesses_handler demo_calc demo_player (py ''123456789m1119p3p'') (demo_world 2)),
      snd (guesses_handler demo_calc demo_player (py ''123456789m1119p3p'') (demo_world 2)))"
    by simp
  show ?thesis
    using a guesses_handler_refines [OF g] by simp
qed



text \<open>
  C6: a winning reply ends the game: the group's session is idle, the timeout is
  cancelled, the player is credited the payout, the reply's total is the player's new
  balance, and the payout is the secret hand's cost, main plus additional, as the scorer
  gave it when the game started.
\<close>

theorem guesses_handler_win:
  assumes "guesses_handler calc self msg w = (Inr (Shown v (Some (p, tot))), w')"
  shows "\<not> active (session_of w' (group self)) \<and> timers w' timer_name = None \<and>
         points w' (qq self) = points w (qq self) + p \<and> tot = points w' (qq self) \<and>
         p = status_cost v \<and>
         (\<exists>h. secret_hand (session_of w (group self)) = Some h \<and> status_cost_of (result h) = Inr p)"
proof -
  have eff: "guess_effect self (Inr (Shown v (Some (p, tot)))) w w'"
    using guesses_handler_effect [OF assms] .
  have sh: "p = status_cost v \<and> tot = points w' (qq self)"
    "\<exists>h. secret_hand (session_of w (group self)) = Some h \<and> status_cost_of (result h) = Inr (status_cost v)"
    using guesses_handler_shown [OF assms] by blast+
  then show ?thesis
    using eff
    by (auto simp: guess_effect_def abs_guess_effect_def timers_effect_def points_effect_def
        idle_session_def dest: fun_cong [where x = "group self"])
qed

theorem guesses_handler_win_witness:
  "guesses_handler demo_calc demo_player (py ''123456789m1112p3p'') (demo_world 0) =
     (Inr (Shown \<lparr>hand_tags = replicate 13 Correct, win_tag = Correct, tip = [], status_han = Some 1,
        status_fu = Some 30, status_cost = 1300, tsumo_tip = False, remaining = 5,
        shown_tiles = [0, 4, 8, 12, 16, 20, 24, 28, 32, 36, 37, 38, 40], shown_win_tile = 44\<rparr> (Some (1300, 1300))),
      snd (guesses_handler demo_calc demo_player (py ''123456789m1112p3p'') (demo_world 0))) \<and>
   \<not> active (session_of (snd (guesses_handler demo_calc demo_player (py ''123456789m1112p3p'')
     (demo_world 0))) 1) \<and>
   points (snd (guesses_handler demo_calc demo_player (py ''123456789m1112p3p'') (demo_world 0))) 7 = 1300"
proof -
  have f: "fst (guesses_handler demo_calc demo_player (py ''123456789m1112p3p'') (demo_world 0)) =
     Inr (Shown \<lparr>hand_tags = replicate 13 Correct, win_tag = Correct, tip = [], status_han = Some 1,
        status_fu = Some 30, status_cost = 1300, tsumo_tip = False, remaining = 5,
        shown_tiles = [0, 4, 8, 12, 16, 20, 24, 28, 32, 36, 37, 38, 40], shown_win_tile = 44\<rparr> (Some (1300, 1300)))"
    by code_simp
  then have g: "guesses_handler demo_calc demo_player (py ''123456789m1112p3p'') (demo_world 0) =
     (Inr (Shown \<lparr>hand_tags = replicate 13 Correct, win_tag = Correct, tip = [], status_han = Some 1,
        status_fu = Some 30, status_cost = 1300, tsumo_tip = False, remaining = 5,
        shown_tiles = [0, 4, 8, 12, 16, 20, 24, 28, 32, 36, 37, 38, 40], shown_win_tile = 44\<rparr> (Some (1300, 1300))),
      snd (guesses_handler demo_calc demo_player (py ''123456789m1112p3p'') (demo_world 0)))"
    by (metis prod.collapse)
  show ?thesis
    using g guesses_handler_win [OF g] by (simp add: demo_world_def demo_player_def)
qed

section \<open>What reaches the colouring\<close>



end
