(* ===== verification/Game.thy ===== *)
theory Game
  imports Guess
begin

text \<open>
  The program as a whole: many groups, many players, a clock and the asyncio event loop,
  as a step relation on the world.  An event is a start command (with the random draw of
  \<open>get_hand\<close>, an integer from 0 to the corpus length), a guess message, the passing
  of time, the event loop running a due timer (the callback \<open>timeout\<close> starts and
  suspends in \<open>send_group_msg\<close>), or a suspended timeout resuming (its message sent or
  the send failed).  Each handler runs to completion without suspending, so one event is
  one atomic step; the only interleaving point is the await in \<open>timeout\<close>.

  \<open>wf_world\<close> is the representation invariant: a running game has a secret hand and a
  defaultdict of counters between 0 and \<open>MAX_GUESS\<close>; an idle group has no hand and the
  plain empty dictionary.  Every method keeps it, so every reachable world satisfies it.
\<close>

section \<open>The invariant\<close>

definition counts_ok :: "(int \<rightharpoonup> user_state) \<Rightarrow> bool" where
  "counts_ok m \<longleftrightarrow> (\<forall>q u. m q = Some u \<longrightarrow> 0 \<le> hit_count u \<and> hit_count u \<le> MAX_GUESS)"

definition wf_group :: "group_state \<Rightarrow> bool" where
  "wf_group gs \<longleftrightarrow>
     (if start gs then hand gs \<noteq> None \<and> (\<exists>m. users gs = DefaultDict m \<and> counts_ok m)
      else hand gs = None \<and> users gs = Plain Map.empty)"

definition wf_world :: "world \<Rightarrow> bool" where
  "wf_world w \<longleftrightarrow> (\<forall>g gs. process w g = Some gs \<longrightarrow> wf_group gs)"

section \<open>The step relation\<close>

record env =
  scorer :: estimator
  hands :: "pystr list"

datatype event =
    Start hand_guess int
  | Guess hand_guess pystr
  | Advance nat
  | Fire string
  | Resume nat bool

definition remove_at :: "nat \<Rightarrow> 'a list \<Rightarrow> 'a list" where
  "remove_at i xs = take i xs @ drop (Suc i) xs"

text \<open>
  \<open>Fire name\<close>: the registry's entry is due; it leaves the registry and its callback
  runs until the await.  \<open>Resume i delivered\<close>: the \<open>i\<close>-th suspended callback goes on.
\<close>

fun world_step :: "env \<Rightarrow> world \<Rightarrow> event \<Rightarrow> world option" where
  "world_step E w (Start self r) =
     (if 0 \<le> r \<and> r \<le> int (length (hands E))
      then Some (snd (start_game (scorer E) (hands E) r self w)) else None)"
| "world_step E w (Guess self msg) = Some (snd (guesses_handler (scorer E) self msg w))"
| "world_step E w (Advance n) = Some (w\<lparr>clock := clock w + n\<rparr>)"
| "world_step E w (Fire name) =
     (case timers w name of
        None \<Rightarrow> None
      | Some t \<Rightarrow>
          (if deadline t \<le> clock w
           then Some (w\<lparr>timers := (timers w)(name := None), sending := sending w @ [callback t]\<rparr>)
           else None))"
| "world_step E w (Resume i delivered) =
     (if i < length (sending w)
      then Some (timeout_resume (sending w ! i) delivered (w\<lparr>sending := remove_at i (sending w)\<rparr>))
      else None)"

definition init_world :: "(int \<Rightarrow> int) \<Rightarrow> world" where
  "init_world p0 = \<lparr>process = Map.empty, timers = Map.empty, points = p0, clock = 0, sending = []\<rparr>"

inductive reachable :: "env \<Rightarrow> world \<Rightarrow> bool" for E :: env where
  init: "reachable E (init_world p0)"
| step: "reachable E w \<Longrightarrow> world_step E w e = Some w' \<Longrightarrow> reachable E w'"

text \<open>
  A run of the event loop: the events in the order they happen, stopping when one of
  them cannot happen.
\<close>

fun run :: "env \<Rightarrow> world \<Rightarrow> event list \<Rightarrow> world option" where
  "run E w [] = Some w"
| "run E w (e # es) = (case world_step E w e of None \<Rightarrow> None | Some w' \<Rightarrow> run E w' es)"

definition timers_ok :: "world \<Rightarrow> bool" where
  "timers_ok w \<longleftrightarrow> (\<forall>n. n \<noteq> timer_name \<longrightarrow> timers w n = None)"

text \<open>
  Example runs: a corpus of one line (the design's example hand, three characters of
  metadata at the end), player 7 in group 1 and player 8 in group 2.
\<close>

definition demo_line :: pystr where
  "demo_line = py ''1m2m3m4m5m6m7m8m9m1p1p1p2p3p:01''"

definition demo_env :: env where
  "demo_env = \<lparr>scorer = demo_calc, hands = [demo_line]\<rparr>"

definition other_player :: hand_guess where
  "other_player = \<lparr>qq = 8, group = 2\<rparr>"

definition demo_start :: world where
  "demo_start = init_world (\<lambda>_. 0)"

text \<open>
  A game, one wrong guess (\<open>9p\<close> in place of \<open>2p\<close>).
\<close>

definition guess_trace :: "event list" where
  "guess_trace = [Start demo_player 0, Guess demo_player (py ''123456789m1119p3p'')]"

text \<open>
  A game times out: its callback is run and suspends in the send; meanwhile the game is
  won and a new game is started in the same group.
\<close>

definition stale_trace :: "event list" where
  "stale_trace = [Start demo_player 0, Advance TIMEOUT, Fire timer_name,
     Guess demo_player (py ''123456789m1112p3p''), Start demo_player 0]"

definition demo_guessed :: world where
  "demo_guessed = the (run demo_env demo_start guess_trace)"

fun_cases world_step_FireE: "world_step E w (Fire name) = Some w'"
fun_cases world_step_ResumeE: "world_step E w (Resume i delivered) = Some w'"
fun_cases world_step_StartE: "world_step E w (Start self r) = Some w'"

section \<open>Each method keeps the invariant\<close>

lemma wf_idle_group [simp]: "wf_group idle_group"
  by (simp add: wf_group_def idle_group_def)

lemma wf_world_upd [simp]:
  "wf_world (w\<lparr>process := (process w)(g \<mapsto> gs)\<rparr>) \<longleftrightarrow>
     wf_group gs \<and> (\<forall>g' gs'. g' \<noteq> g \<longrightarrow> process w g' = Some gs' \<longrightarrow> wf_group gs')"
  by (auto simp: wf_world_def)

lemma wf_world_other [simp]:
  "wf_world (w\<lparr>timers := t\<rparr>) = wf_world w" "wf_world (w\<lparr>points := p\<rparr>) = wf_world w"
  "wf_world (w\<lparr>clock := c\<rparr>) = wf_world w" "wf_world (w\<lparr>sending := s\<rparr>) = wf_world w"
  by (simp_all add: wf_world_def)

lemma status_wf:
  assumes "wf_world w" "status self w = (gs, w1)"
  shows "wf_world w1 \<and> wf_group gs"
  using assms
  by (auto simp: status_def dd_getitem_def wf_world_def split: option.splits if_splits)

lemma counts_ok_upd:
  "counts_ok m \<Longrightarrow> 0 \<le> hit_count v \<Longrightarrow> hit_count v \<le> MAX_GUESS \<Longrightarrow> counts_ok (m(k \<mapsto> v))"
  by (simp add: counts_ok_def)

lemma user_info_wf:
  assumes "wf_world w" "user_info self w = (r, w1)"
  shows "wf_world w1"
proof -
  obtain gs w0 where st: "status self w = (gs, w0)" by fastforce
  note sw = status_wf [OF assms(1) st]
  note fr = status_frame [OF st]
  show ?thesis
  proof (cases "users gs")
    case (Plain m)
    with assms(2) st sw fr(6) show ?thesis
      by (auto simp: user_info_def py_getitem_def fun_upd_idem split: option.splits)
  next
    case (DefaultDict m)
    have "wf_group (gs\<lparr>users := DefaultDict (snd (dd_getitem \<lparr>hit_count = 0\<rparr> m (qq self)))\<rparr>)"
      using sw DefaultDict
      by (auto simp: wf_group_def dd_getitem_def MAX_GUESS_def counts_ok_upd split: option.split if_splits)
    with assms(2) st sw DefaultDict show ?thesis
      by (auto simp: user_info_def wf_world_def case_prod_beta split: prod.splits if_splits)
  qed
qed


lemma user_info_wf_Inr:
  assumes "wf_world w" "user_info self w = (Inr u, w1)"
  shows "\<exists>gs m. process w1 (group self) = Some gs \<and> users gs = DefaultDict m \<and> start gs
           \<and> m (qq self) = Some u"
proof -
  obtain gs w0 where st: "status self w = (gs, w0)" by fastforce
  note sw = status_wf [OF assms(1) st]
  note fr = status_frame [OF st]
  show ?thesis
  proof (cases "users gs")
    case (Plain m)
    with assms(2) st sw show ?thesis
      by (auto simp: user_info_def py_getitem_def wf_group_def split: option.splits if_splits)
  next
    case (DefaultDict m)
    then have "start gs"
      using sw by (auto simp: wf_group_def split: if_splits)
    with assms(2) st DefaultDict show ?thesis
      by (auto simp: user_info_def dd_getitem_def split: option.splits)
  qed
qed

lemma set_user_info_wf:
  assumes "wf_world w" "process w (group self) = Some gs" "users gs = DefaultDict m" "start gs"
    and "0 \<le> hit_count v" "hit_count v \<le> MAX_GUESS"
  shows "wf_world (set_user_info self v w)"
proof -
  have "wf_group gs" using assms(1,2) by (simp add: wf_world_def)
  then have "wf_group (gs\<lparr>users := DefaultDict (m(qq self \<mapsto> v))\<rparr>)"
    using assms(3-6) by (auto simp: wf_group_def counts_ok_upd)
  with assms(1,2,3) show ?thesis
    by (auto simp: set_user_info_def status_present wf_world_def)
qed

lemma inc_user_count_wf:
  assumes "wf_world w" "attempts (session_of w (group self)) (qq self) < MAX_GUESS"
    and "inc_user_count self w = (r, w1)"
  shows "wf_world w1"
proof -
  obtain r0 w0 where ui: "user_info self w = (r0, w0)" by fastforce
  have w0: "wf_world w0" using user_info_wf [OF assms(1) ui] .
  show ?thesis
  proof (cases r0)
    case (Inl e)
    with assms(3) ui w0 show ?thesis by (simp add: inc_user_count_def)
  next
    case (Inr info)
    obtain gs m where gs: "process w0 (group self) = Some gs" "users gs = DefaultDict m" "start gs"
      "m (qq self) = Some info"
      using user_info_wf_Inr [OF assms(1) ui [unfolded Inr]] by blast
    have hc: "hit_count info = attempts (session_of w (group self)) (qq self)"
      using user_info_view(2) [OF ui] Inr by blast
    have "wf_group gs"
      using w0 gs(1) by (simp add: wf_world_def)
    then have "0 \<le> hit_count info"
      using gs(2-4) by (auto simp: wf_group_def counts_ok_def)
    then have "wf_world (set_user_info self (info\<lparr>hit_count := hit_count info + 1\<rparr>) w0)"
      using set_user_info_wf [OF w0 gs(1-3)] assms(2) hc by simp
    with assms(3) ui Inr show ?thesis by (simp add: inc_user_count_def)
  qed
qed

lemma reset_game_wf: "wf_world w \<Longrightarrow> wf_world (reset_game self w)"
  by (auto simp: reset_game_def wf_world_def)

lemma win_game_wf: "wf_world w \<Longrightarrow> win_game self pts w = (m, w1) \<Longrightarrow> wf_world w1"
  by (auto simp: win_game_def Let_def cancel_call_later_def add_points_def
      dest: reset_game_wf [where self = self])

lemma is_win_wf: "wf_world w \<Longrightarrow> is_win self ts w = (r, w1) \<Longrightarrow> wf_world w1"
  by (cases "status self w")
     (auto simp: is_win_def dest: status_wf split: option.splits sum.splits)


lemma guess_finish_wf:
  assumes "wf_world w" "attempts (session_of w (group self)) (qq self) < MAX_GUESS"
    and "guess_finish self ev fb v w = (r, w')"
  shows "wf_world w'"
proof -
  obtain b w1 where iw: "is_win self (fst fb @ [guess_win_tile ev]) w = (b, w1)" by fastforce
  have w1: "wf_world w1" by (rule is_win_wf [OF assms(1) iw])
  have a1: "attempts (session_of w1 (group self)) (qq self) < MAX_GUESS"
    using is_win_view(1) [OF iw] assms(2) by (simp add: world_view_def)
  show ?thesis
  proof (cases b)
    case (Inl e)
    with assms(3) iw w1 show ?thesis by (simp add: guess_finish_def)
  next
    case (Inr won)
    show ?thesis
    proof (cases won)
      case True
      with assms(3) iw Inr w1 show ?thesis
        by (auto simp: guess_finish_def dest: win_game_wf split: prod.splits)
    next
      case False
      with assms(3) iw Inr w1 a1 show ?thesis
        by (auto simp: guess_finish_def dest: inc_user_count_wf split: prod.splits sum.splits)
    qed
  qed
qed

lemma guesses_handler_wf:
  assumes "wf_world w" "guesses_handler calc self msg w = (r, w')"
  shows "wf_world w'"
proof (cases "illegal_msg msg")
  case True
  with assms show ?thesis by (simp add: guesses_handler_def)
next
  case False
  obtain r0 w1 where ui: "user_info self w = (r0, w1)" by fastforce
  have w1: "wf_world w1" by (rule user_info_wf [OF assms(1) ui])
  show ?thesis
  proof (cases r0)
    case (Inl e)
    with assms(2) False ui w1 show ?thesis by (simp add: guesses_handler_def)
  next
    case (Inr info)
    obtain gs w2 where st: "status self w1 = (gs, w2)" by fastforce
    have w2: "wf_world w2" using status_wf [OF w1 st] by blast
    have hc: "hit_count info = attempts (session_of w2 (group self)) (qq self)"
      using user_info_view [OF ui] Inr status_view [OF st]
      by (simp add: world_view_def)
    show ?thesis
    proof (cases "MAX_GUESS \<le> hit_count info")
      case True
      with assms(2) False ui Inr w1 show ?thesis by (simp add: guesses_handler_def)
    next
      case notmax: False
      have "guesses_handler calc self msg w =
         (case guess_evaluate calc gs msg of
            Inl e \<Rightarrow> (Inl e, w2)
          | Inr (Inl err) \<Rightarrow> (Inr (Rejected err), w2)
          | Inr (Inr ev) \<Rightarrow>
             (case guess_feedback ev of
                Inl e \<Rightarrow> (Inl e, w2)
              | Inr fb \<Rightarrow>
                 (case guess_view_of ev fb (hit_count info) of
                    Inl e \<Rightarrow> (Inl e, w2)
                  | Inr vw \<Rightarrow> guess_finish self ev fb vw w2)))"
        using False ui Inr st notmax by (simp add: guesses_handler_def)
      moreover have lt: "attempts (session_of w2 (group self)) (qq self) < MAX_GUESS"
        using hc notmax by simp
      ultimately show ?thesis
        using assms(2) w2 guess_finish_wf [OF w2 lt]
        by (auto split: sum.splits) metis
    qed
  qed
qed

lemma start_game_wf:
  assumes "wf_world w" "start_game calc hand_list r self w = (res, w')"
  shows "wf_world w'"
proof -
  obtain gs w1 where st: "status self w = (gs, w1)" by fastforce
  have w1: "wf_world w1" using status_wf [OF assms(1) st] by blast
  have "process w1 (group self) = Some gs" by (rule status_frame(6) [OF st])
  then have others: "\<forall>g' gs'. g' \<noteq> group self \<longrightarrow> process w1 g' = Some gs' \<longrightarrow> wf_group gs'"
    using w1 by (auto simp: wf_world_def)
  show ?thesis
    using assms(2) st w1 others
    by (cases "start gs")
       (auto simp: start_game_def is_start_def call_later_def wf_group_def counts_ok_def
         split: sum.splits)
qed

section \<open>Each step keeps the invariant\<close>

lemma timeout_resume_wf: "wf_world w \<Longrightarrow> wf_world (timeout_resume self b w)"
  by (simp add: timeout_resume_def reset_game_wf)

lemma world_step_wf:
  assumes "wf_world w" "world_step E w e = Some w'"
  shows "wf_world w'"
  using assms
proof (cases e)
  case (Start self r)
  with assms(2) have "w' = snd (start_game (scorer E) (hands E) r self w)"
    by (simp split: if_splits)
  then show ?thesis
    using start_game_wf [OF assms(1)] by (metis prod.collapse)
next
  case (Guess self msg)
  with assms(2) have "w' = snd (guesses_handler (scorer E) self msg w)"
    by simp
  then show ?thesis
    using guesses_handler_wf [OF assms(1)] by (metis prod.collapse)
next
  case (Fire name)
  with assms show ?thesis by (auto simp: wf_world_def split: option.splits if_splits)
next
  case (Resume i b)
  have "wf_world (w\<lparr>sending := remove_at i (sending w)\<rparr>)"
    using assms(1) by (simp add: wf_world_def)
  with Resume assms(2) show ?thesis by (auto intro: timeout_resume_wf split: if_splits)
qed (auto simp: wf_world_def)

lemma init_world_wf: "wf_world (init_world p0)"
  by (simp add: wf_world_def init_world_def)

section \<open>Reachable worlds\<close>

lemma reachable_wf: "reachable E w \<Longrightarrow> wf_world w"
  by (induction rule: reachable.induct) (auto intro: init_world_wf world_step_wf)

lemma run_reachable: "reachable E w \<Longrightarrow> run E w es = Some w' \<Longrightarrow> reachable E w'"
  by (induction es arbitrary: w) (auto intro: reachable.step split: option.splits)

lemma wf_world_session:
  assumes "wf_world w"
  shows "0 \<le> attempts (session_of w g) q \<and> attempts (session_of w g) q \<le> MAX_GUESS"
    and "active (session_of w g) \<longleftrightarrow> secret_hand (session_of w g) \<noteq> None"
    and "\<not> active (session_of w g) \<Longrightarrow> attempts (session_of w g) = (\<lambda>_. 0)"
proof -
  have g: "wf_group (case process w g of None \<Rightarrow> idle_group | Some gs \<Rightarrow> gs)"
    using assms by (auto simp: wf_world_def split: option.split)
  then show "0 \<le> attempts (session_of w g) q \<and> attempts (session_of w g) q \<le> MAX_GUESS"
    by (auto simp: session_of_def session_of_group_def wf_group_def counts_ok_def MAX_GUESS_def
        split: if_splits option.split)
  from g show "active (session_of w g) \<longleftrightarrow> secret_hand (session_of w g) \<noteq> None"
    by (auto simp: session_of_def session_of_group_def wf_group_def split: if_splits)
  from g show "\<not> active (session_of w g) \<Longrightarrow> attempts (session_of w g) = (\<lambda>_. 0)"
    by (auto simp: session_of_def session_of_group_def wf_group_def split: if_splits)
qed

section \<open>The timer registry\<close>

lemma timers_ok_upd: "timers_ok w \<Longrightarrow> timers_ok (w\<lparr>timers := (timers w)(timer_name := x)\<rparr>)"
  by (simp add: timers_ok_def)

lemma start_game_timers:
  assumes "start_game calc hand_list r self w = (res, w1)"
  shows "\<exists>x. timers w1 = timers w \<or> timers w1 = (timers w)(timer_name := x)"
proof -
  obtain gs w0 where st: "status self w = (gs, w0)" by fastforce
  note fr = status_frame [OF st]
  show ?thesis
    using assms st fr(2)
    by (cases "start gs")
       (auto simp: start_game_def is_start_def call_later_def split: sum.splits)
qed

lemma world_step_timers_ok:
  assumes "timers_ok w" "world_step E w e = Some w'"
  shows "timers_ok w'"
proof (cases e)
  case (Start self r)
  obtain res w1 where sg: "start_game (scorer E) (hands E) r self w = (res, w1)" by fastforce
  then have "w' = w1" using assms(2) Start by (simp split: if_splits)
  with start_game_timers [OF sg] assms(1) show ?thesis
    by (auto simp: timers_ok_def split: if_splits)
next
  case (Guess self msg)
  obtain res w1 where gh: "guesses_handler (scorer E) self msg w = (res, w1)" by fastforce
  then have "w' = w1" using assms(2) Guess by simp
  with guesses_handler_effect [OF gh] assms(1) show ?thesis
    by (auto simp: timers_ok_def guess_effect_def timers_effect_def
        split: sum.splits guess_reply.splits option.splits)
next
  case (Fire name)
  with assms show ?thesis by (auto simp: timers_ok_def split: option.splits if_splits)
next
  case (Resume i b)
  with assms show ?thesis
    by (auto simp: timers_ok_def timeout_resume_def reset_game_def split: if_splits)
qed (use assms in \<open>auto simp: timers_ok_def\<close>)

lemma reachable_timers_ok: "reachable E w \<Longrightarrow> timers_ok w"
proof (induction rule: reachable.induct)
  case (init p0)
  show ?case by (simp add: init_world_def timers_ok_def)
next
  case (step w e w')
  then show ?case by (blast intro: world_step_timers_ok)
qed

lemma user_info_active:
  assumes "wf_world w" "active (session_of w (group self))"
  shows "\<exists>u w1. user_info self w = (Inr u, w1)"
proof -
  obtain gs where gs: "process w (group self) = Some gs" "start gs"
    using active_present [OF assms(2)] by blast
  have "wf_group gs" using assms(1) gs(1) by (simp add: wf_world_def)
  then obtain m where "users gs = DefaultDict m"
    using gs(2) by (auto simp: wf_group_def)
  with gs show ?thesis
    by (simp add: user_info_def status_present dd_getitem_def split: option.split)
qed

lemma user_info_idle:
  assumes "wf_world w" "\<not> active (session_of w (group self))"
  shows "fst (user_info self w) = Inl KeyError"
proof -
  obtain gs w1 where st: "status self w = (gs, w1)" by fastforce
  have "wf_group gs" using status_wf [OF assms(1) st] by blast
  moreover have "\<not> start gs"
    using assms(2) unfolding status_frame(7) [OF st, symmetric] by (simp add: session_of_group_def)
  ultimately show ?thesis
    using st by (simp add: user_info_def wf_group_def py_getitem_def)
qed

lemma guesses_handler_idle:
  assumes "wf_world w" "\<not> active (session_of w (group self))" "\<not> illegal_msg msg"
  shows "fst (guesses_handler calc self msg w) = Inl KeyError \<and>
         world_view (snd (guesses_handler calc self msg w)) = world_view w"
proof -
  obtain w1 where u: "user_info self w = (Inl KeyError, w1)"
    using user_info_idle [OF assms(1,2)] by (metis prod.collapse)
  with user_info_view(1) [OF u] assms(3) show ?thesis
    by (simp add: guesses_handler_def)
qed

section \<open>Properties of every reachable world\<close>

lemma run_demo_reachable:
  "run demo_env demo_start es \<noteq> None \<Longrightarrow> reachable demo_env (the (run demo_env demo_start es))"
  unfolding demo_start_def by (auto intro: run_reachable reachable.init)

text \<open>
  C1: in every world the program can reach, every player's guess counter in every group
  lies between 0 and \<open>MAX_GUESS\<close>: the guard of \<open>guesses_handler\<close> and the
  reset on a win and on a timeout keep it there.
\<close>

theorem reachable_attempts_bounded:
  assumes "reachable E w"
  shows "0 \<le> attempts (session_of w g) q \<and> attempts (session_of w g) q \<le> MAX_GUESS"
  using wf_world_session(1) [OF reachable_wf [OF assms]] .

theorem reachable_attempts_bounded_witness:
  "reachable demo_env demo_guessed \<and>
   0 \<le> attempts (session_of demo_guessed 1) 7 \<and> attempts (session_of demo_guessed 1) 7 \<le> MAX_GUESS \<and>
   attempts (session_of demo_guessed 1) 7 = 1"
proof -
  have "run demo_env demo_start guess_trace \<noteq> None" by code_simp
  then have r: "reachable demo_env demo_guessed"
    unfolding demo_guessed_def by (rule run_demo_reachable)
  have "attempts (session_of demo_guessed 1) 7 = 1" by code_simp
  with r reachable_attempts_bounded [OF r, of 1 7] show ?thesis by simp
qed

text \<open>
  C3: in every reachable world a group's game is running exactly when it holds a secret
  hand, and a group without a running game holds no guess counters: \<open>reset_game\<close>
  clears both together.
\<close>

theorem reachable_session_shape:
  assumes "reachable E w"
  shows "(active (session_of w g) \<longleftrightarrow> secret_hand (session_of w g) \<noteq> None) \<and>
         (active (session_of w g) \<or> attempts (session_of w g) = (\<lambda>_. 0))"
  using wf_world_session(2,3) [OF reachable_wf [OF assms]] by blast

theorem reachable_session_shape_witness:
  "reachable demo_env demo_guessed \<and> active (session_of demo_guessed 1) \<and>
   secret_hand (session_of demo_guessed 1) \<noteq> None \<and>
   \<not> active (session_of demo_guessed 2) \<and> attempts (session_of demo_guessed 2) = (\<lambda>_. 0)"
proof -
  have "run demo_env demo_start guess_trace \<noteq> None" by code_simp
  then have r: "reachable demo_env demo_guessed"
    unfolding demo_guessed_def by (rule run_demo_reachable)
  have a: "active (session_of demo_guessed 1)" "\<not> active (session_of demo_guessed 2)" by code_simp+
  show ?thesis
    using r a reachable_session_shape [OF r, of 1] reachable_session_shape [OF r, of 2] by blast
qed

text \<open>
  C17: every timeout of the process is registered under the one name
  \<open>HandGuessGame\<close> (\<open>timer_name\<close>), whatever the group: in every reachable world
  the registry holds at most one pending timeout, so at most one running game can time out.
\<close>

theorem reachable_single_timer:
  assumes "reachable E w" "timers w n = Some t"
  shows "n = timer_name"
  using reachable_timers_ok [OF assms(1)] assms(2) by (auto simp: timers_ok_def)

theorem reachable_single_timer_witness:
  "reachable demo_env demo_guessed \<and>
   timers demo_guessed timer_name = Some \<lparr>deadline = TIMEOUT, callback = demo_player\<rparr> \<and>
   timer_name = ''HandGuessGame''"
proof -
  have "run demo_env demo_start guess_trace \<noteq> None" by code_simp
  then have r: "reachable demo_env demo_guessed"
    unfolding demo_guessed_def by (rule run_demo_reachable)
  have t: "timers demo_guessed timer_name = Some \<lparr>deadline = TIMEOUT, callback = demo_player\<rparr>"
    by code_simp
  show ?thesis using r t reachable_single_timer [OF r t] by (simp add: timer_name_def)
qed



text \<open>
  C18: the remaining-guesses count of a shown reply is what the player has left after
  this guess, \<open>MAX_GUESS\<close> minus the guesses counted before it minus one, and in a
  reachable world it is never negative.
\<close>

theorem reachable_remaining:
  assumes "reachable E w" "guesses_handler calc self msg w = (Inr (Shown v m), w')"
  shows "remaining v = MAX_GUESS - attempts (session_of w (group self)) (qq self) - 1 \<and>
         0 \<le> remaining v"
  using guesses_handler_shown [OF assms(2)] by simp

theorem reachable_remaining_witness:
  "reachable demo_env demo_guessed \<and>
   guesses_handler demo_calc demo_player (py ''123456789m1119p3p'') demo_guessed =
     (Inr (Shown \<lparr>hand_tags = replicate 12 Correct @ [Absent], win_tag = Correct, tip = [],
        status_han = Some 1, status_fu = Some 30, status_cost = 1300, tsumo_tip = False,
        remaining = 4, shown_tiles = [0, 4, 8, 12, 16, 20, 24, 28, 32, 36, 37, 38, 68],
        shown_win_tile = 44\<rparr> None),
      snd (guesses_handler demo_calc demo_player (py ''123456789m1119p3p'') demo_guessed)) \<and>
   attempts (session_of demo_guessed 1) 7 = 1"
proof -
  have "run demo_env demo_start guess_trace \<noteq> None" by code_simp
  then have r: "reachable demo_env demo_guessed"
    unfolding demo_guessed_def by (rule run_demo_reachable)
  have "fst (guesses_handler demo_calc demo_player (py ''123456789m1119p3p'') demo_guessed) =
     Inr (Shown \<lparr>hand_tags = replicate 12 Correct @ [Absent], win_tag = Correct, tip = [],
        status_han = Some 1, status_fu = Some 30, status_cost = 1300, tsumo_tip = False,
        remaining = 4, shown_tiles = [0, 4, 8, 12, 16, 20, 24, 28, 32, 36, 37, 38, 68],
        shown_win_tile = 44\<rparr> None)"
    by code_simp
  then have g: "guesses_handler demo_calc demo_player (py ''123456789m1119p3p'') demo_guessed =
     (Inr (Shown \<lparr>hand_tags = replicate 12 Correct @ [Absent], win_tag = Correct, tip = [],
        status_han = Some 1, status_fu = Some 30, status_cost = 1300, tsumo_tip = False,
        remaining = 4, shown_tiles = [0, 4, 8, 12, 16, 20, 24, 28, 32, 36, 37, 38, 68],
        shown_win_tile = 44\<rparr> None),
      snd (guesses_handler demo_calc demo_player (py ''123456789m1119p3p'') demo_guessed))"
    by (metis prod.collapse)
  have a: "attempts (session_of demo_guessed 1) 7 = 1" by code_simp
  show ?thesis using r g a reachable_remaining [OF r g] by simp
qed

section \<open>Guesses in reachable worlds\<close>

text \<open>
  C20: in a running game, a legal guess from a player with guesses left whose normalised
  form parses to a number of tiles other than fourteen is refused with the
  not-fourteen reply, whatever the scorer.
\<close>

theorem guesses_handler_not_fourteen:
  assumes "reachable E w" "active (session_of w (group self))"
    and "attempts (session_of w (group self)) (qq self) < MAX_GUESS" "\<not> illegal_msg msg"
    and "format_hand_msg msg = Inr mh" "one_line_string_to_136_array mh = Inr ts" "length ts \<noteq> 14"
  shows "fst (guesses_handler calc self msg w) = Inr (Rejected NotFourteen)"
proof -
  obtain u w1 where ui: "user_info self w = (Inr u, w1)"
    using user_info_active [OF reachable_wf [OF assms(1)] assms(2)] by blast
  have "hit_count u < MAX_GUESS"
    using user_info_view(2) [OF ui] assms(3) by simp
  moreover have "\<And>gs. guess_evaluate calc gs msg = Inr (Inl NotFourteen)"
    using assms(5-7) by (simp add: guess_evaluate_def Let_def)
  ultimately show ?thesis
    using assms(4) ui by (simp add: guesses_handler_def split: prod.split)
qed

theorem guesses_handler_not_fourteen_witness:
  "reachable demo_env demo_guessed \<and> active (session_of demo_guessed (group demo_player)) \<and>
   attempts (session_of demo_guessed (group demo_player)) (qq demo_player) < MAX_GUESS \<and>
   \<not> illegal_msg (py ''123456789m11129p3p'') \<and> format_hand_msg (py ''123456789m11129p3p'') = Inr (py ''123456789m11129p3p'') \<and>
   one_line_string_to_136_array (py ''123456789m11129p3p'') = Inr [0, 4, 8, 12, 16, 20, 24, 28, 32, 36, 37, 38, 40, 68, 44] \<and>
   length [0, 4, 8, 12, 16, 20, 24, 28, 32, 36, 37, 38, 40, 68, 44 :: int] \<noteq> 14 \<and>
   fst (guesses_handler demo_calc demo_player (py ''123456789m11129p3p'') demo_guessed) = Inr (Rejected NotFourteen)"
proof -
  have "run demo_env demo_start guess_trace \<noteq> None" by code_simp
  then have r: "reachable demo_env demo_guessed"
    unfolding demo_guessed_def by (rule run_demo_reachable)
  have a: "active (session_of demo_guessed (group demo_player))" by code_simp
  have b: "attempts (session_of demo_guessed (group demo_player)) (qq demo_player) < MAX_GUESS"
    by code_simp
  have c: "\<not> illegal_msg (py ''123456789m11129p3p'')" by code_simp
  have d: "format_hand_msg (py ''123456789m11129p3p'') = Inr (py ''123456789m11129p3p'')" by code_simp
  have e: "one_line_string_to_136_array (py ''123456789m11129p3p'') = Inr [0, 4, 8, 12, 16, 20, 24, 28, 32, 36, 37, 38, 40, 68, 44]"
    by code_simp
  have f: "length [0, 4, 8, 12, 16, 20, 24, 28, 32, 36, 37, 38, 40, 68, 44 :: int] \<noteq> 14" by simp
  show ?thesis
    using r a b c d e f guesses_handler_not_fourteen [OF r a b c d e f, of demo_calc] by blast
qed

text \<open>
  C21: a legal guess in a group without a running game is not answered: the plain empty
  dictionary of an idle group raises KeyError on \<open>users[qq]\<close>, and nothing the design
  can see changes.  The design asks for a reply that no game is running.
\<close>

theorem guesses_handler_no_game:
  assumes "reachable E w" "\<not> active (session_of w (group self))" "\<not> illegal_msg msg"
  shows "fst (guesses_handler calc self msg w) = Inl KeyError \<and>
         world_view (snd (guesses_handler calc self msg w)) = world_view w"
  using guesses_handler_idle [OF reachable_wf [OF assms(1)] assms(2,3)] .

theorem guesses_handler_no_game_witness:
  "reachable demo_env demo_guessed \<and> \<not> active (session_of demo_guessed (group other_player)) \<and>
   \<not> illegal_msg (py ''123456789m1112p3p'') \<and>
   fst (guesses_handler demo_calc other_player (py ''123456789m1112p3p'') demo_guessed) = Inl KeyError"
proof -
  have "run demo_env demo_start guess_trace \<noteq> None" by code_simp
  then have r: "reachable demo_env demo_guessed"
    unfolding demo_guessed_def by (rule run_demo_reachable)
  have a: "\<not> active (session_of demo_guessed (group other_player))" by code_simp
  have c: "\<not> illegal_msg (py ''123456789m1112p3p'')" by code_simp
  show ?thesis
    using r a c guesses_handler_no_game [OF r a c, of demo_calc] by blast
qed

section \<open>Time alone ends a game that owns the pending timeout\<close>

text \<open>
  C11: the timeout always ends the game it belongs to: from a reachable world whose
  registry holds the timeout of a group, letting the clock reach the deadline, running the
  due timer and letting its callback resume after a delivered message makes that group
  idle, with no other event needed.
\<close>

theorem timeout_ends_game:
  assumes "reachable E w" "timers w timer_name = Some t"
  shows "\<exists>w'. run E w [Advance (deadline t - clock w), Fire timer_name,
                          Resume (length (sending w)) True] = Some w' \<and>
              reachable E w' \<and> \<not> active (session_of w' (group (callback t)))"
proof -
  define w1 where "w1 = w\<lparr>clock := clock w + (deadline t - clock w)\<rparr>"
  define w2 where "w2 = w1\<lparr>timers := (timers w1)(timer_name := None), sending := sending w1 @ [callback t]\<rparr>"
  define w3 where "w3 = timeout_resume (callback t) True (w2\<lparr>sending := remove_at (length (sending w)) (sending w2)\<rparr>)"
  have r: "run E w [Advance (deadline t - clock w), Fire timer_name, Resume (length (sending w)) True] = Some w3"
    using assms(2) by (simp add: w1_def w2_def w3_def nth_append)
  moreover have "\<not> active (session_of w3 (group (callback t)))"
    by (simp add: w3_def timeout_resume_def reset_game_def session_of_def session_of_group_def
        idle_group_def)
  ultimately show ?thesis
    using run_reachable [OF assms(1) r] by blast
qed

theorem timeout_ends_game_witness:
  "reachable demo_env demo_guessed \<and>
   timers demo_guessed timer_name = Some \<lparr>deadline = TIMEOUT, callback = demo_player\<rparr> \<and>
   active (session_of demo_guessed 1) \<and>
   (\<exists>w'. run demo_env demo_guessed [Advance (TIMEOUT - clock demo_guessed), Fire timer_name,
            Resume (length (sending demo_guessed)) True] = Some w' \<and>
         reachable demo_env w' \<and> \<not> active (session_of w' 1))"
proof -
  have "run demo_env demo_start guess_trace \<noteq> None" by code_simp
  then have r: "reachable demo_env demo_guessed"
    unfolding demo_guessed_def by (rule run_demo_reachable)
  have t: "timers demo_guessed timer_name = Some \<lparr>deadline = TIMEOUT, callback = demo_player\<rparr>"
    by code_simp
  have a: "active (session_of demo_guessed 1)" by code_simp
  show ?thesis
    using r t a timeout_ends_game [OF r t] by (simp add: demo_player_def)
qed

section \<open>The representation of the counters\<close>

text \<open>
  C33: in every reachable world the Python type of a group's \<open>users\<close> is fixed by its
  state: a running game holds a \<open>defaultdict\<close> (so \<open>users[qq]\<close> inserts a zero
  counter), an idle group the plain empty \<open>dict\<close> and no hand (so \<open>users[qq]\<close> raises
  KeyError).
\<close>

theorem reachable_users_type:
  assumes "reachable E w" "process w g = Some gs"
  shows "(start gs \<longrightarrow> hand gs \<noteq> None \<and> (\<exists>m. users gs = DefaultDict m)) \<and>
         (\<not> start gs \<longrightarrow> hand gs = None \<and> users gs = Plain Map.empty)"
proof -
  have "wf_group gs" using reachable_wf [OF assms(1)] assms(2) by (simp add: wf_world_def)
  then show ?thesis by (auto simp: wf_group_def split: if_splits)
qed

theorem reachable_users_type_witness:
  "reachable demo_env demo_guessed \<and>
   process demo_guessed 1 = Some (the (process demo_guessed 1)) \<and>
   start (the (process demo_guessed 1)) \<and>
   (\<exists>m. users (the (process demo_guessed 1)) = DefaultDict m)"
proof -
  have "run demo_env demo_start guess_trace \<noteq> None" by code_simp
  then have r: "reachable demo_env demo_guessed"
    unfolding demo_guessed_def by (rule run_demo_reachable)
  have "process demo_guessed 1 \<noteq> None" by code_simp
  then have p: "process demo_guessed 1 = Some (the (process demo_guessed 1))" by simp
  have s: "start (the (process demo_guessed 1))" by code_simp
  show ?thesis using r p s reachable_users_type [OF r p] by blast
qed

section \<open>A win is counted once\<close>



end
