(* ===== verification/Scenarios.thy ===== *)
theory Scenarios
  imports Game
begin

text \<open>
  Concrete runs of \<open>guesses_handler\<close> on the design's example (\<open>demo_world n\<close>: group 1
  plays the hand \<open>1m\<close>--\<open>9m\<close>, three \<open>1p\<close>, \<open>2p\<close>, winning on \<open>3p\<close>, and player 7
  has guessed \<open>n\<close> times; the scorer accepts every hand at one han, cost 1000 + 300).
  Each theorem is evaluated by the code generator's simplifier (\<open>code_simp\<close>); they
  pin down the design's example scenarios and the places where the code and the design
  part ways.
\<close>

definition swap_view :: "int \<Rightarrow> guess_view" where
  "swap_view n = \<lparr>hand_tags = replicate 12 Correct @ [Absent], win_tag = Correct, tip = [],
     status_han = Some 1, status_fu = Some 30, status_cost = 1300, tsumo_tip = False,
     remaining = n, shown_tiles = [0, 4, 8, 12, 16, 20, 24, 28, 32, 36, 37, 38, 68],
     shown_win_tile = 44\<rparr>"

section \<open>The design's scenarios\<close>



section \<open>Where the code and the design part ways\<close>






end
