(* ===== verification/Tile_Print.thy ===== *)
theory Tile_Print
  imports Tiles
begin

text \<open>
  The converter's printer \<open>TilesConverter.to_one_line_string\<close>, which the handler uses
  to log the secret hand (line 102) and to name the face of each tile picture (lines 177
  and 192), and the round trip with the parser: a sorted hand numbered as the parser
  numbers copies (\<open>canonical_tiles\<close>) is printed to a string the parser reads back as
  the same hand.
\<close>

section \<open>Printing\<close>

text \<open>
  \<open>TilesConverter.to_one_line_string(tiles)\<close> (with \<open>print_aka_dora\<close> off): the
  sorted ids split into the four suits, each suit written as the digits
  \<open>str(i // 4 + 1)\<close> of its ids relative to the suit's base, then the suit letter;
  an empty suit is left out.
\<close>

definition suit_words :: "int list \<Rightarrow> string \<Rightarrow> pystr" where
  "suit_words xs suffix =
     (if xs = [] then [] else concat (map (\<lambda>i. py_str_int (i div 4 + 1)) xs) @ py suffix)"

definition to_one_line_string :: "int list \<Rightarrow> pystr" where
  "to_one_line_string tiles0 =
     (let ts = sort tiles0;
          man = filter (\<lambda>t. t < 36) ts;
          pin = map (\<lambda>t. t - 36) (filter (\<lambda>t. 36 \<le> t \<and> t < 72) ts);
          sou = map (\<lambda>t. t - 72) (filter (\<lambda>t. 72 \<le> t \<and> t < 108) ts);
          honors = map (\<lambda>t. t - 108) (filter (\<lambda>t. 108 \<le> t) ts)
      in suit_words man ''m'' @ suit_words pin ''p'' @ suit_words sou ''s'' @
         suit_words honors ''z'')"

text \<open>
  A hand the parser could have produced from a sorted string: ascending 136-ids, each a
  valid id, each the base of its kind plus the number of earlier tiles of that kind.
\<close>

definition canonical_tiles :: "int list \<Rightarrow> bool" where
  "canonical_tiles ts \<longleftrightarrow> sorted ts \<and> list_all (\<lambda>t. 0 \<le> t \<and> t < 136) ts \<and>
     ts = assign_copies (map (\<lambda>t. 4 * (t div 4)) ts) []"

text \<open>The digits the printer writes for the ids of one suit, relative to its base.\<close>

definition digit_syms :: "int list \<Rightarrow> pystr" where
  "digit_syms xs = map (\<lambda>i. Asc (char_of (48 + nat (i div 4 + 1)))) xs"

section \<open>Lemmas\<close>

lemma digit_not_letter:
  "(k :: nat) \<le> 9 \<Longrightarrow> letter_suit (Asc (char_of (48 + k))) = None"
  by (auto dest!: arg_cong [where f = "of_char :: char \<Rightarrow> nat"] simp: of_char_of)

lemma label_parse:
  assumes "letter_suit l = Some s" "0 \<le> j" "j \<le> 8"
  shows "one_line_string_to_136_array [Asc (char_of (48 + nat (j + 1))), l] = Inr [suit_offset s + 4 * j]"
proof -
  have "py_int_char (Asc (char_of (48 + nat (j + 1)))) = Inr (j + 1)"
    using assms(2,3) py_int_char_of_digit [of "nat (j + 1)"] by simp
  moreover have "letter_suit (Asc (char_of (48 + nat (j + 1)))) = None"
    using assms(2,3) by (intro digit_not_letter) simp
  ultimately show ?thesis using assms(1)
    by (cases s) (simp_all add: one_line_string_ref ref_convert_def suit_offset_def)
qed

lemma tile_digit_bound:
  assumes "0 \<le> i" "i < 36"
  shows "nat (i div 4 + 1) \<le> 9 \<and> 1 \<le> i div 4 + 1 \<and> i div 4 + 1 \<le> 9"
proof -
  have "i div 4 \<le> 35 div 4" by (rule zdiv_mono1) (use assms in simp_all)
  moreover have "0 \<le> i div 4" using assms(1) by simp
  ultimately show ?thesis by simp
qed

lemma digit_sym_no_letter:
  "0 \<le> i \<Longrightarrow> i < 36 \<Longrightarrow> letter_suit (Asc (char_of (48 + nat (i div 4 + 1)))) = None"
  using digit_not_letter [of "nat (i div 4 + 1)"] tile_digit_bound [of i] by simp

lemma concat_py_str_int:
  "list_all (\<lambda>i. 0 \<le> i \<and> i < 36) xs \<Longrightarrow>
   concat (map (\<lambda>i. py_str_int (i div 4 + 1)) xs) = digit_syms xs"
  by (induction xs) (auto simp: digit_syms_def py_str_int_digit tile_digit_bound)

lemma digit_syms_no_letter:
  "list_all (\<lambda>i. 0 \<le> i \<and> i < 36) xs \<Longrightarrow> list_all (\<lambda>c. letter_suit c = None) (digit_syms xs)"
  by (induction xs) (simp_all add: digit_syms_def digit_sym_no_letter del: letter_suit.simps)

lemma tile_bases_digit_syms:
  "list_all (\<lambda>i. 0 \<le> i \<and> i < 36) xs \<Longrightarrow>
   tile_bases off (digit_syms xs) = Inr (map (\<lambda>i. off + 4 * (i div 4)) xs)"
proof (induction xs)
  case (Cons i xs)
  have "py_int_char (Asc (char_of (48 + nat (i div 4 + 1)))) = Inr (i div 4 + 1)"
    using Cons.prems py_int_char_of_digit [of "nat (i div 4 + 1)"] tile_digit_bound [of i] by simp
  with Cons show ?case by (simp add: digit_syms_def)
qed (simp add: digit_syms_def)

lemma assign_copies_cong:
  "(\<forall>b \<in> set ys. count_list s1 b = count_list s2 b) \<Longrightarrow> assign_copies ys s1 = assign_copies ys s2"
  by (induction ys arbitrary: s1 s2) auto

lemma assign_copies_append:
  "assign_copies (xs @ ys) seen = assign_copies xs seen @ assign_copies ys (seen @ xs)"
  by (induction xs arbitrary: seen) auto

lemma assign_copies_disjoint:
  "set xs \<inter> set ys = {} \<Longrightarrow> assign_copies (xs @ ys) [] = assign_copies xs [] @ assign_copies ys []"
  unfolding assign_copies_append
  by (auto intro!: assign_copies_cong simp: count_list_0_iff)

lemma sorted_filter_split:
  "sorted xs \<Longrightarrow> filter (\<lambda>t. t < a) xs @ filter (\<lambda>t. a \<le> t) xs = xs"
proof (induction xs)
  case (Cons x xs)
  show ?case
  proof (cases "x < a")
    case True
    with Cons show ?thesis by simp
  next
    case False
    with Cons.prems have "\<forall>y \<in> set xs. a \<le> y" by auto
    then have "filter (\<lambda>t. t < a) xs = []" "filter (\<lambda>t. a \<le> t) xs = xs"
      by (auto simp: filter_empty_conv filter_id_conv)
    with False show ?thesis by simp
  qed
qed simp

lemma suit_words_digits:
  "list_all (\<lambda>i. 0 \<le> i \<and> i < 36) xs \<Longrightarrow>
   suit_words xs l = (if xs = [] then [] else digit_syms xs @ py l)"
  by (simp add: suit_words_def concat_py_str_int)

lemma scan_words:
  assumes "list_all (\<lambda>i. 0 \<le> i \<and> i < 36) xs" "letter_suit (Asc c) = Some su"
  shows "scan [] (suit_words xs [c] @ rest) q = scan [] rest (q(su := q su @ digit_syms xs))"
proof (cases "xs = []")
  case True
  then show ?thesis by (simp add: suit_words_def digit_syms_def fun_upd_idem)
next
  case False
  have "scan [] (digit_syms xs) q = (digit_syms xs, q)"
    using scan_no_letter [OF digit_syms_no_letter [OF assms(1)]] by simp
  with False assms show ?thesis
    by (simp add: suit_words_digits scan_append)
qed

lemma base_shift:
  "36 + 4 * ((t - 36) div 4) = 4 * (t div 4)" "72 + 4 * ((t - 72) div 4) = 4 * (t div 4)"
  "108 + 4 * ((t - 108) div 4) = 4 * (t div 4)" "(0::int) + 4 * (t div 4) = 4 * (t div 4)"
  by presburger+

lemma base_range:
  "t < 36 \<Longrightarrow> 4 * (t div 4) < 36" "36 \<le> t \<Longrightarrow> 36 \<le> 4 * (t div 4)"
  "t < 72 \<Longrightarrow> 4 * (t div 4) < 72" "72 \<le> t \<Longrightarrow> 72 \<le> 4 * (t div 4)"
  "t < 108 \<Longrightarrow> 4 * (t div 4) < 108" "108 \<le> t \<Longrightarrow> 108 \<le> 4 * (t div 4)"
  for t :: int
  by presburger+

lemma to_one_line_string_roundtrip:
  assumes "canonical_tiles ts"
  shows "one_line_string_to_136_array (to_one_line_string ts) = Inr ts"
proof -
  let ?B = "map (\<lambda>t::int. 4 * (t div 4))"
  have so: "sorted ts" and rng: "\<forall>t \<in> set ts. 0 \<le> t \<and> t < 136"
    and can: "ts = assign_copies (?B ts) []"
    using assms by (auto simp: canonical_tiles_def list_all_iff)
  define M where "M = filter (\<lambda>t. t < 36) ts"
  define P where "P = filter (\<lambda>t. 36 \<le> t \<and> t < 72) ts"
  define S where "S = filter (\<lambda>t. 72 \<le> t \<and> t < 108) ts"
  define H where "H = filter (\<lambda>t. 108 \<le> t) ts"
  have split: "M @ P @ S @ H = ts"
  proof -
    have s1: "sorted (filter (\<lambda>t. 36 \<le> t) ts)" "sorted (filter (\<lambda>t. 72 \<le> t) ts)"
      using so by (simp_all add: sorted_wrt_filter)
    have "filter (\<lambda>t. t < 108) (filter (\<lambda>t. 72 \<le> t) ts) @ filter (\<lambda>t. 108 \<le> t) (filter (\<lambda>t. 72 \<le> t) ts)
        = filter (\<lambda>t. 72 \<le> t) ts"
      by (rule sorted_filter_split [OF s1(2)])
    moreover have "filter (\<lambda>t. t < 108) (filter (\<lambda>t. 72 \<le> t) ts) = S"
      by (simp add: S_def conj_commute)
    moreover have "filter (\<lambda>t. 108 \<le> t) (filter (\<lambda>t. 72 \<le> t) ts) = H"
      unfolding H_def filter_filter by (rule filter_cong) auto
    ultimately have a: "S @ H = filter (\<lambda>t. 72 \<le> t) ts" by simp
    have "filter (\<lambda>t. t < 72) (filter (\<lambda>t. 36 \<le> t) ts) @ filter (\<lambda>t. 72 \<le> t) (filter (\<lambda>t. 36 \<le> t) ts)
        = filter (\<lambda>t. 36 \<le> t) ts"
      by (rule sorted_filter_split [OF s1(1)])
    moreover have "filter (\<lambda>t. t < 72) (filter (\<lambda>t. 36 \<le> t) ts) = P"
      by (simp add: P_def conj_commute)
    moreover have "filter (\<lambda>t. 72 \<le> t) (filter (\<lambda>t. 36 \<le> t) ts) = filter (\<lambda>t. 72 \<le> t) ts"
      unfolding filter_filter by (rule filter_cong) auto
    ultimately have b: "P @ S @ H = filter (\<lambda>t. 36 \<le> t) ts" using a by simp
    show ?thesis
      unfolding b M_def by (rule sorted_filter_split [OF so])
  qed
  define P' where "P' = map (\<lambda>t. t - 36) P"
  define S' where "S' = map (\<lambda>t. t - 72) S"
  define H' where "H' = map (\<lambda>t. t - 108) H"
  have rM: "list_all (\<lambda>i. 0 \<le> i \<and> i < 36) M" using rng by (auto simp: M_def list_all_iff)
  have rP: "list_all (\<lambda>i. 0 \<le> i \<and> i < 36) P'" using rng by (auto simp: P'_def P_def list_all_iff)
  have rS: "list_all (\<lambda>i. 0 \<le> i \<and> i < 36) S'" using rng by (auto simp: S'_def S_def list_all_iff)
  have rH: "list_all (\<lambda>i. 0 \<le> i \<and> i < 36) H'" using rng by (fastforce simp: H'_def H_def list_all_iff)
  have str: "to_one_line_string ts =
      suit_words M ''m'' @ suit_words P' ''p'' @ suit_words S' ''s'' @ suit_words H' ''z''"
    using so by (simp add: to_one_line_string_def sorted_sort_id M_def P_def S_def H_def P'_def S'_def H'_def)
  have q: "snd (scan [] (to_one_line_string ts) (\<lambda>_. [])) =
      (\<lambda>_. [])(Man := digit_syms M, Pin := digit_syms P', Sou := digit_syms S', Honors := digit_syms H')"
    unfolding str
    using scan_words [OF rM, of "CHR ''m''" Man] scan_words [OF rP, of "CHR ''p''" Pin]
      scan_words [OF rS, of "CHR ''s''" Sou] scan_words [OF rH, of "CHR ''z''" Honors, where rest = "[]"]
    by simp
  have bP: "map (\<lambda>i. 36 + 4 * (i div 4)) P' = ?B P" by (simp add: P'_def base_shift)
  have bS: "map (\<lambda>i. 72 + 4 * (i div 4)) S' = ?B S" by (simp add: S'_def base_shift)
  have bH: "map (\<lambda>i. 108 + 4 * (i div 4)) H' = ?B H" by (simp add: H'_def base_shift)
  have conv: "one_line_string_to_136_array (to_one_line_string ts) =
      Inr (assign_copies (?B M) [] @ assign_copies (?B P) [] @ assign_copies (?B S) [] @ assign_copies (?B H) [])"
    unfolding one_line_string_ref ref_convert_def q
    using tile_bases_digit_syms [OF rM, of 0] tile_bases_digit_syms [OF rP, of 36]
      tile_bases_digit_syms [OF rS, of 72] tile_bases_digit_syms [OF rH, of 108] bP bS bH
    by (simp add: suit_offset_def)
  have d1: "set (?B M) \<inter> set (?B P @ ?B S @ ?B H) = {}"
    using base_range by (fastforce simp: M_def P_def S_def H_def)
  have d2: "set (?B P) \<inter> set (?B S @ ?B H) = {}"
    using base_range by (fastforce simp: P_def S_def H_def)
  have d3: "set (?B S) \<inter> set (?B H) = {}"
    using base_range by (fastforce simp: S_def H_def)
  have "assign_copies (?B ts) [] =
      assign_copies (?B M) [] @ assign_copies (?B P) [] @ assign_copies (?B S) [] @ assign_copies (?B H) []"
    unfolding split [symmetric] map_append
    by (simp only: assign_copies_disjoint [OF d1] assign_copies_disjoint [OF d2]
        assign_copies_disjoint [OF d3])
  with conv can show ?thesis by simp
qed

lemma closed_append: "closed xs \<Longrightarrow> closed ys \<Longrightarrow> closed (xs @ ys)"
  by (cases "ys = []") (auto simp: closed_def)

lemma closed_suit_words: "letter_suit (Asc c) \<noteq> None \<Longrightarrow> closed (suit_words xs [c])"
  by (simp add: suit_words_def closed_def)

lemma to_one_line_string_closed: "closed (to_one_line_string ts)"
  by (simp add: to_one_line_string_def Let_def closed_append closed_suit_words)

lemma to_one_line_string_nonempty: "ts \<noteq> [] \<Longrightarrow> to_one_line_string ts \<noteq> []"
proof -
  assume "ts \<noteq> []"
  then obtain t where "t \<in> set (sort ts)" by (metis list.set_sel(1) set_sort)
  then show ?thesis
    by (cases "t < 36"; cases "t < 72"; cases "t < 108")
       (auto simp: to_one_line_string_def Let_def suit_words_def filter_empty_conv intro: bexI [of _ t])
qed

end
