(* ===== verification/Render.thy ===== *)
theory Render
  imports Guess Tile_Print
begin

text \<open>
  The data of the reply image of \<open>guesses_handler\<close> (lines 166--237): the hand image
  (\<open>80 * 13\<close> by 130 pixels) gets one tile picture per guessed hand tile, the
  \<open>index\<close>-th at \<open>(index * 80, 0)\<close>, with the tile back of its colour and the face
  named by \<open>TC.to_one_line_string([tile])\<close>; the winning-tile image gets one picture at
  \<open>(0, 0)\<close>; both are pasted on the background at \<open>(30, 226)\<close> and
  \<open>(13 * 80 + 50, 226)\<close>.  PIL itself is not modelled: an image is the list of its
  pastes.  The theory shows that a guess which reaches the colouring always has exactly
  thirteen hand tiles, so that the colouring raises nothing and every picture lies inside
  its image, and that the name of each picture reads back as the tile's kind.
\<close>

definition HAND_IMG_SIZE :: "int \<times> int" where
  "HAND_IMG_SIZE = (80 * 13, 130)"

definition BACKGROUND_SIZE :: "int \<times> int" where
  "BACKGROUND_SIZE = (1200, 400)"

text \<open>\<open>ascii_tile = TC.to_one_line_string([tile])\<close> (lines 177 and 192).\<close>

definition tile_label :: "int \<Rightarrow> pystr" where
  "tile_label t = to_one_line_string [t]"

text \<open>The pastes of the hand loop (lines 174--187): position, colour, face.\<close>

definition hand_pastes :: "int list \<Rightarrow> tag list \<Rightarrow> ((int \<times> int) \<times> tag \<times> pystr) list" where
  "hand_pastes current_tiles tags =
     map (\<lambda>index. ((int index * 80, 0), tags ! index, tile_label (current_tiles ! index)))
       [0..<length current_tiles]"

record reply_image =
  hand_tiles :: "((int \<times> int) \<times> tag \<times> pystr) list"
  wind_tile :: "(int \<times> int) \<times> tag \<times> pystr"
  hand_at :: "int \<times> int"
  wind_at :: "int \<times> int"

text \<open>The two images and where they go on the background (lines 189--200, 236--237).\<close>

definition reply_image_of :: "int list \<times> tag list \<times> tag \<Rightarrow> int \<Rightarrow> reply_image" where
  "reply_image_of fb win_tile0 =
     \<lparr>hand_tiles = hand_pastes (fst fb) (fst (snd fb)),
      wind_tile = ((0, 0), snd (snd fb), tile_label win_tile0),
      hand_at = (30, 226), wind_at = (13 * 80 + 50, 226)\<rparr>"

section \<open>Lemmas\<close>

lemma hand_pastes_nth:
  "i < length cur \<Longrightarrow> hand_pastes cur tags ! i = ((int i * 80, 0), tags ! i, tile_label (cur ! i))"
  by (simp add: hand_pastes_def)

lemma guess_feedback_13:
  assumes "\<not> illegal_msg msg" "guess_evaluate calc gs msg = Inr (Inr ev)"
    and "13 \<le> length (tiles (secret ev))"
  shows "\<exists>cur wtag. guess_feedback ev =
            Inr (cur, map (\<lambda>i. tile_tag (cur ! i) (tiles (secret ev) ! i) (tiles (secret ev))) [0..<13],
                 wtag) \<and> length cur = 13"
proof -
  obtain cs where cs: "one_line_string_to_136_array (py_slice (msg_hand ev) 0 (-2)) = Inr cs"
      "length cs = 13"
    using guess_evaluate_current [OF assms(1,2)] by blast
  have hf: "hand_feedback cs (tiles (secret ev)) =
      Inr (map (\<lambda>i. tile_tag (cs ! i) (tiles (secret ev) ! i) (tiles (secret ev))) [0..<13])"
    using hand_feedback_Inr [of cs "tiles (secret ev)"] cs(2) assms(3) by simp
  have "\<exists>wt. win_feedback (msg_win_tile ev) (win_tile (secret ev)) cs (tiles (secret ev)) = Inr wt"
    using cs(2) by (cases cs) (auto simp: win_feedback_def)
  then obtain wt where "win_feedback (msg_win_tile ev) (win_tile (secret ev)) cs (tiles (secret ev)) = Inr wt"
    by blast
  with cs hf show ?thesis by (auto simp: guess_feedback_def)
qed

section \<open>The colouring of a guess\<close>

text \<open>
  C10: a guess that passes the checks of \<open>guesses_handler\<close>, played against a secret hand
  of at least thirteen tiles, is coloured without an exception: \<open>msg_hand[:-2]\<close>
  parses to exactly thirteen tiles (the fourteen less the winning tile the format
  guarantees at the end), and each gets the colour of its position.
\<close>

theorem guess_feedback_thirteen:
  assumes "\<not> illegal_msg msg" "guess_evaluate calc gs msg = Inr (Inr ev)"
    and "13 \<le> length (tiles (secret ev))"
  shows "\<exists>cur wtag. guess_feedback ev =
            Inr (cur, map (\<lambda>i. tile_tag (cur ! i) (tiles (secret ev) ! i) (tiles (secret ev))) [0..<13],
                 wtag) \<and> length cur = 13"
  using guess_feedback_13 [OF assms] .

theorem guess_feedback_thirteen_witness:
  "\<exists>ev. \<not> illegal_msg (py ''123456789m1112p3p'') \<and> guess_evaluate demo_calc \<lparr>start = True, hand = Some demo_hand, users = DefaultDict Map.empty\<rparr> (py ''123456789m1112p3p'') = Inr (Inr ev) \<and>
     13 \<le> length (tiles (secret ev)) \<and>
     (\<exists>cur wtag. guess_feedback ev =
        Inr (cur, map (\<lambda>i. tile_tag (cur ! i) (tiles (secret ev) ! i) (tiles (secret ev))) [0..<13],
             wtag) \<and> length cur = 13)"
proof -
  have "case guess_evaluate demo_calc \<lparr>start = True, hand = Some demo_hand, users = DefaultDict Map.empty\<rparr> (py ''123456789m1112p3p'') of Inr (Inr ev) \<Rightarrow> True | _ \<Rightarrow> False"
    by code_simp
  then obtain ev where e: "guess_evaluate demo_calc \<lparr>start = True, hand = Some demo_hand, users = DefaultDict Map.empty\<rparr> (py ''123456789m1112p3p'') = Inr (Inr ev)"
    by (auto split: sum.splits)
  have i: "\<not> illegal_msg (py ''123456789m1112p3p'')" by code_simp
  have "secret ev = demo_hand"
    using guess_evaluate_secret [OF e] by simp
  then have l: "13 \<le> length (tiles (secret ev))" by (simp add: demo_hand_def)
  show ?thesis using i e l guess_feedback_thirteen [OF i e l] by blast
qed

text \<open>
  C31: the reply image of such a guess has thirteen hand pictures, the \<open>i\<close>-th at
  \<open>(80 i, 0)\<close>, each inside the \<open>80 * 13\<close> pixel wide hand image, and the hand image
  and the winning-tile image lie side by side inside the 1200 pixel wide background.
\<close>

theorem reply_image_fits:
  assumes "\<not> illegal_msg msg" "guess_evaluate calc gs msg = Inr (Inr ev)"
    and "13 \<le> length (tiles (secret ev))"
  shows "\<exists>fb. guess_feedback ev = Inr fb \<and>
           length (hand_tiles (reply_image_of fb (guess_win_tile ev))) = 13 \<and>
           (\<forall>i < 13. fst (hand_tiles (reply_image_of fb (guess_win_tile ev)) ! i) = (80 * int i, 0)) \<and>
           (\<forall>p \<in> set (hand_tiles (reply_image_of fb (guess_win_tile ev))).
              0 \<le> fst (fst p) \<and> fst (fst p) + 80 \<le> fst HAND_IMG_SIZE) \<and>
           fst (hand_at (reply_image_of fb (guess_win_tile ev))) + fst HAND_IMG_SIZE
             \<le> fst (wind_at (reply_image_of fb (guess_win_tile ev))) \<and>
           fst (wind_at (reply_image_of fb (guess_win_tile ev))) + 80 \<le> fst BACKGROUND_SIZE"
proof -
  obtain cur wtag where fb: "guess_feedback ev =
      Inr (cur, map (\<lambda>i. tile_tag (cur ! i) (tiles (secret ev) ! i) (tiles (secret ev))) [0..<13], wtag)"
      and len: "length cur = 13"
    using guess_feedback_13 [OF assms] by blast
  have "\<forall>p \<in> set (hand_pastes cur tags). 0 \<le> fst (fst p) \<and> fst (fst p) + 80 \<le> 80 * 13" for tags
    using len by (auto simp: hand_pastes_def)
  with fb len show ?thesis
    by (auto simp: reply_image_of_def hand_pastes_nth HAND_IMG_SIZE_def BACKGROUND_SIZE_def
        hand_pastes_def)
qed

theorem reply_image_fits_witness:
  "\<exists>ev. \<not> illegal_msg (py ''123456789m1112p3p'') \<and> guess_evaluate demo_calc \<lparr>start = True, hand = Some demo_hand, users = DefaultDict Map.empty\<rparr> (py ''123456789m1112p3p'') = Inr (Inr ev) \<and>
     13 \<le> length (tiles (secret ev)) \<and>
     (\<exists>fb. guess_feedback ev = Inr fb \<and>
        length (hand_tiles (reply_image_of fb (guess_win_tile ev))) = 13 \<and>
        (\<forall>p \<in> set (hand_tiles (reply_image_of fb (guess_win_tile ev))).
           0 \<le> fst (fst p) \<and> fst (fst p) + 80 \<le> fst HAND_IMG_SIZE))"
proof -
  have "case guess_evaluate demo_calc \<lparr>start = True, hand = Some demo_hand, users = DefaultDict Map.empty\<rparr> (py ''123456789m1112p3p'') of Inr (Inr ev) \<Rightarrow> True | _ \<Rightarrow> False"
    by code_simp
  then obtain ev where e: "guess_evaluate demo_calc \<lparr>start = True, hand = Some demo_hand, users = DefaultDict Map.empty\<rparr> (py ''123456789m1112p3p'') = Inr (Inr ev)"
    by (auto split: sum.splits)
  have i: "\<not> illegal_msg (py ''123456789m1112p3p'')" by code_simp
  have "secret ev = demo_hand"
    using guess_evaluate_secret [OF e] by simp
  then have l: "13 \<le> length (tiles (secret ev))" by (simp add: demo_hand_def)
  show ?thesis using i e l reply_image_fits [OF i e l] by blast
qed

section \<open>The faces of the pictures\<close>

text \<open>
  C32: the face name of a picture reads back as the tile's kind: for every 136-id
  \<open>t\<close>, \<open>TC.to_one_line_string([t])\<close> is a digit and a suit letter that the converter
  parses to the first copy \<open>4 (t div 4)\<close> of the kind of \<open>t\<close>.
\<close>

theorem tile_label_roundtrip:
  assumes "0 \<le> t" "t < 136"
  shows "one_line_string_to_136_array (tile_label t) = Inr [4 * (t div 4)]"
proof -
  consider "t < 36" | "36 \<le> t" "t < 72" | "72 \<le> t" "t < 108" | "108 \<le> t" by linarith
  then show ?thesis
  proof cases
    case 1
    then have "tile_label t = [Asc (char_of (48 + nat (t div 4 + 1))), Asc CHR ''m'']"
      using assms by (simp add: tile_label_def to_one_line_string_def suit_words_def py_str_int_digit)
    then show ?thesis using label_parse [of "Asc CHR ''m''" Man "t div 4"] assms 1
      by (simp add: suit_offset_def)
  next
    case 2
    then have "tile_label t = [Asc (char_of (48 + nat ((t - 36) div 4 + 1))), Asc CHR ''p'']"
      using assms by (simp add: tile_label_def to_one_line_string_def suit_words_def py_str_int_digit)
    then show ?thesis using label_parse [of "Asc CHR ''p''" Pin "(t - 36) div 4"] assms 2
      by (simp add: suit_offset_def) presburger
  next
    case 3
    then have "tile_label t = [Asc (char_of (48 + nat ((t - 72) div 4 + 1))), Asc CHR ''s'']"
      using assms by (simp add: tile_label_def to_one_line_string_def suit_words_def py_str_int_digit)
    then show ?thesis using label_parse [of "Asc CHR ''s''" Sou "(t - 72) div 4"] assms 3
      by (simp add: suit_offset_def) presburger
  next
    case 4
    then have "tile_label t = [Asc (char_of (48 + nat ((t - 108) div 4 + 1))), Asc CHR ''z'']"
      using assms by (simp add: tile_label_def to_one_line_string_def suit_words_def py_str_int_digit)
    then show ?thesis using label_parse [of "Asc CHR ''z''" Honors "(t - 108) div 4"] assms 4
      by (simp add: suit_offset_def) presburger
  qed
qed

theorem tile_label_roundtrip_witness:
  "0 \<le> (41 :: int) \<and> (41 :: int) < 136 \<and> tile_label 41 = py ''2p'' \<and>
   one_line_string_to_136_array (tile_label 41) = Inr [40]"
proof -
  have a: "0 \<le> (41 :: int)" "(41 :: int) < 136" by simp_all
  have "tile_label 41 = py ''2p''" by code_simp
  with tile_label_roundtrip [OF a] show ?thesis by simp
qed

end
