(* ===== verification/Answer.thy ===== *)
theory Answer
  imports Game Tile_Print
begin

text \<open>
  The answer \<open>start\<close> logs (line 102: \<open>print(TC.to_one_line_string(hand_res.tiles) +
  hand_res.win_tile)\<close>) is a winning guess: sent back as a message it passes the
  character check, is left alone by \<open>format_hand_msg\<close>, parses to fourteen tiles, its
  first thirteen parse back to the secret tiles (the printer/parser round trip of
  \<open>Tile_Print\<close>), every position is coloured correct, and \<open>is_win\<close> holds.  This is
  the design's first scenario ("the same 14 tiles in the same order win") for every
  secret hand the corpus can hold in sorted form.
\<close>

definition start_log :: "hand_result \<Rightarrow> pystr" where
  "start_log h = to_one_line_string (tiles h) @ win_tile h"

section \<open>The logged answer as a message\<close>

lemma digit_syms_tile_sym:
  "list_all (\<lambda>i. 0 \<le> i \<and> i < 36) xs \<Longrightarrow> list_all tile_sym (digit_syms xs)"
proof (induction xs)
  case (Cons i xs)
  then have "nat (i div 4 + 1) \<le> 9" using tile_digit_bound by simp
  with Cons show ?case by (simp add: digit_syms_def ascii_digit_def)
qed (simp add: digit_syms_def)

lemma suit_words_tile_sym:
  "list_all (\<lambda>i. 0 \<le> i \<and> i < 36) xs \<Longrightarrow> c \<in> set ''mpsz'' \<Longrightarrow> list_all tile_sym (suit_words xs [c])"
  by (auto simp: suit_words_digits digit_syms_tile_sym)

lemma to_one_line_string_tile_sym:
  "list_all (\<lambda>t. 0 \<le> t \<and> t < 136) ts \<Longrightarrow> list_all tile_sym (to_one_line_string ts)"
  unfolding to_one_line_string_def Let_def
  by (intro list_all_append[THEN iffD2] conjI suit_words_tile_sym)
     (auto simp: list_all_iff)

lemma printed_message:
  assumes "canonical_tiles (tiles h)" "length (tiles h) = 13"
    and "length (win_tile h) = 2" "list_all tile_sym (win_tile h)"
    and "one_line_string_to_136_array (win_tile h) = Inr [wt]"
    and "one_line_string_to_136_array (start_log h) = Inr mts"
  shows "\<not> illegal_msg (start_log h)" "format_hand_msg (start_log h) = Inr (start_log h)"
    and "py_slice (start_log h) (-2) (int (length (start_log h))) = win_tile h"
    and "py_slice (start_log h) 0 (-2) = to_one_line_string (tiles h)"
    and "length mts = 14"
proof -
  define S where "S = to_one_line_string (tiles h)"
  obtain a b where ab: "win_tile h = [a, b]"
    using assms(3) by (auto simp: numeral_2_eq_2 length_Suc_conv)
  have msg: "start_log h = S @ [a, b]" by (simp add: start_log_def S_def ab)
  have rt: "one_line_string_to_136_array S = Inr (tiles h)"
    unfolding S_def by (rule to_one_line_string_roundtrip [OF assms(1)])
  have syms: "list_all tile_sym (start_log h)"
    using assms(1,4) to_one_line_string_tile_sym
    by (simp add: start_log_def canonical_tiles_def)
  have "tiles h \<noteq> []" using assms(2) by auto
  then have ne: "S \<noteq> []" unfolding S_def by (rule to_one_line_string_nonempty)
  have cl: "closed S" by (simp add: S_def to_one_line_string_closed)
  then have last: "letter_suit (last S) \<noteq> None" using ne by (simp add: closed_def)
  have a: "letter_suit a = None" and b: "\<exists>s. letter_suit b = Some s"
    using one_line_two_Cons [of a b wt "[]"] assms(5) ab by auto
  show "\<not> illegal_msg (start_log h)"
    using syms by (auto simp: illegal_msg_def list_ex_iff list_all_iff tile_sym_allowed)
  have "msg ! (length msg - 3) = last S" if "msg = S @ [a, b]" for msg
    using ne that by (simp add: nth_append last_conv_nth)
  then have "\<not> py_isdigit (start_log h ! (length (start_log h) - 3))"
    using last msg isdigit_not_letter by auto
  moreover have "2 < length (start_log h)" using ne msg by (cases S) auto
  ultimately show "format_hand_msg (start_log h) = Inr (start_log h)"
    using format_hand_msg_plain format_loop_tile_syms [OF syms] by blast
  show "py_slice (start_log h) (-2) (int (length (start_log h))) = win_tile h"
    unfolding msg py_slice_last2 by (simp add: ab)
  show "py_slice (start_log h) 0 (-2) = to_one_line_string (tiles h)"
    by (simp add: py_simps msg S_def)
  obtain cs where "one_line_string_to_136_array S = Inr cs" "length mts = Suc (length cs)"
    using one_line_append_tile [OF cl a] b assms(6) msg by metis
  with rt assms(2) show "length mts = 14" by simp
qed

lemma printed_answer_evaluates:
  assumes "canonical_tiles (tiles h)" "length (tiles h) = 13"
    and "length (win_tile h) = 2" "list_all tile_sym (win_tile h)"
    and "one_line_string_to_136_array (win_tile h) = Inr [wt]"
    and "one_line_string_to_136_array (start_log h) = Inr mts"
    and "han (calc mts wt \<lparr>is_riichi = True, is_tsumo = tsumo h\<rparr>) \<notin> {None, Some 0}"
    and "yaku (result h) \<noteq> None" "cost (result h) \<noteq> None" "hand gs = Some h"
  shows "\<exists>ev v. guess_evaluate calc gs (start_log h) = Inr (Inr ev) \<and> guess_win_tile ev = wt \<and>
           guess_feedback ev = Inr (tiles h, replicate 13 Correct, Correct) \<and>
           guess_view_of ev (tiles h, replicate 13 Correct, Correct) n = Inr v \<and>
           hand_tags v = replicate 13 Correct \<and> win_tag v = Correct"
proof -
  note m = printed_message [OF assms(1-6)]
  define ev where "ev = \<lparr>msg_hand = start_log h, msg_win_tile = win_tile h, msg_tiles = mts,
      guess_win_tile = wt, guess_result = calc mts wt \<lparr>is_riichi = True, is_tsumo = tsumo h\<rparr>,
      secret = h\<rparr>"
  have e: "guess_evaluate calc gs (start_log h) = Inr (Inr ev)"
    using m assms(5-7,10) by (simp add: guess_evaluate_def ev_def py_index_def Let_def)
  have "map (\<lambda>i. tile_tag (tiles h ! i) (tiles h ! i) (tiles h)) [0..<13] = replicate 13 Correct"
    by (simp add: tile_tag_def map_replicate_const)
  then have f: "guess_feedback ev = Inr (tiles h, replicate 13 Correct, Correct)"
    using m(4) assms(1,2) hand_feedback_Inr [of "tiles h" "tiles h"]
    by (simp add: guess_feedback_def ev_def to_one_line_string_roundtrip win_feedback_def)
  obtain v where "guess_view_of ev (tiles h, replicate 13 Correct, Correct) n = Inr v"
    "hand_tags v = replicate 13 Correct" "win_tag v = Correct"
    using assms(8,9)
    by (auto simp: guess_view_of_def yaku_hint_def status_cost_of_def ev_def Let_def
        split: option.splits)
  with e f show ?thesis by (auto simp: ev_def)
qed

section \<open>The logged answer wins\<close>

text \<open>
  C35: in a reachable world, a player with guesses left who sends the answer the start
  logged wins: the reply is a win with every position and the winning tile coloured
  correct, and the game ends.  The secret hand must be one the parser can print back
  (sorted, copies numbered in order, thirteen valid ids, an ASCII winning tile), and the
  scorer must accept the fourteen tiles.
\<close>

theorem printed_answer_wins:
  assumes "reachable E w" "secret_hand (session_of w (group self)) = Some h"
    and "attempts (session_of w (group self)) (qq self) < MAX_GUESS"
    and "canonical_tiles (tiles h)" "length (tiles h) = 13"
    and "length (win_tile h) = 2" "list_all tile_sym (win_tile h)"
    and "one_line_string_to_136_array (win_tile h) = Inr [wt]"
    and "one_line_string_to_136_array (start_log h) = Inr mts"
    and "han (calc mts wt \<lparr>is_riichi = True, is_tsumo = tsumo h\<rparr>) \<notin> {None, Some 0}"
    and "yaku (result h) \<noteq> None" "cost (result h) \<noteq> None"
  shows "\<exists>v p tot. fst (guesses_handler calc self (start_log h) w) = Inr (Shown v (Some (p, tot))) \<and>
           hand_tags v = replicate 13 Correct \<and> win_tag v = Correct \<and>
           \<not> active (session_of (snd (guesses_handler calc self (start_log h) w)) (group self))"
proof -
  have wf: "wf_world w" by (rule reachable_wf [OF assms(1)])
  have act: "active (session_of w (group self))"
    using wf_world_session(2) [OF wf] assms(2) by blast
  obtain u w1 where ui: "user_info self w = (Inr u, w1)"
    using user_info_active [OF wf act] by blast
  have hc: "\<not> MAX_GUESS \<le> hit_count u"
    using user_info_view(2) [OF ui] assms(3) by simp
  have s1: "session_of w1 = session_of w"
    using user_info_view(1) [OF ui] by (simp add: world_view_def)
  obtain gs1 w2 where st: "status self w1 = (gs1, w2)" by fastforce
  have h1: "hand gs1 = Some h"
    using status_hand [OF st] s1 assms(2) by simp
  obtain ev v where ev: "guess_evaluate calc gs1 (start_log h) = Inr (Inr ev)" "guess_win_tile ev = wt"
      "guess_feedback ev = Inr (tiles h, replicate 13 Correct, Correct)"
      "guess_view_of ev (tiles h, replicate 13 Correct, Correct) (hit_count u) = Inr v"
      "hand_tags v = replicate 13 Correct" "win_tag v = Correct"
    using printed_answer_evaluates [where calc = calc and n = "hit_count u", OF assms(4-12) h1] by blast
  obtain gs2 w3 where st2: "status self w2 = (gs2, w3)" by fastforce
  have h2: "hand gs2 = Some h"
    using status_hand [OF st2] status_frame(1) [OF st] s1 assms(2) by simp
  have iw: "is_win self (tiles h @ [wt]) w2 = (Inr True, w3)"
    using st2 h2 assms(8) by (simp add: is_win_def)
  obtain m w4 where wg: "win_game self (status_cost v) w3 = (m, w4)" by fastforce
  have g: "guesses_handler calc self (start_log h) w = (Inr (Shown v (Some m)), w4)"
    using printed_message(1) [OF assms(4-9)] ui hc st ev iw wg
    by (simp add: guesses_handler_def guess_finish_def)
  have "guess_effect self (Inr (Shown v (Some m))) w w4"
    by (rule guesses_handler_effect [OF g])
  then have "\<not> active (session_of w4 (group self))"
    by (auto simp: guess_effect_def abs_guess_effect_def idle_session_def
        dest: fun_cong [where x = "group self"])
  with g ev(5,6) show ?thesis by (cases m) auto
qed

theorem printed_answer_wins_witness:
  "reachable demo_env demo_guessed \<and> secret_hand (session_of demo_guessed (group demo_player)) = Some demo_hand \<and>
   start_log demo_hand = py ''123456789m1112p3p'' \<and>
   (\<exists>v p tot. fst (guesses_handler demo_calc demo_player (start_log demo_hand) demo_guessed) =
      Inr (Shown v (Some (p, tot))) \<and> hand_tags v = replicate 13 Correct \<and> win_tag v = Correct \<and>
      \<not> active (session_of (snd (guesses_handler demo_calc demo_player (start_log demo_hand) demo_guessed))
        (group demo_player)))"
proof -
  have "run demo_env demo_start guess_trace \<noteq> None" by code_simp
  then have r: "reachable demo_env demo_guessed"
    unfolding demo_guessed_def by (rule run_demo_reachable)
  have s: "secret_hand (session_of demo_guessed (group demo_player)) = Some demo_hand" by code_simp
  have a: "attempts (session_of demo_guessed (group demo_player)) (qq demo_player) < MAX_GUESS" by code_simp
  have c: "canonical_tiles (tiles demo_hand)" "length (tiles demo_hand) = 13"
    "length (win_tile demo_hand) = 2" "list_all tile_sym (win_tile demo_hand)"
    "one_line_string_to_136_array (win_tile demo_hand) = Inr [44]"
    "one_line_string_to_136_array (start_log demo_hand) = Inr [0, 4, 8, 12, 16, 20, 24, 28, 32, 36, 37, 38, 40, 44]"
    by code_simp+
  have d: "han (demo_calc [0, 4, 8, 12, 16, 20, 24, 28, 32, 36, 37, 38, 40, 44] 44
      \<lparr>is_riichi = True, is_tsumo = tsumo demo_hand\<rparr>) \<notin> {None, Some 0}"
    "yaku (result demo_hand) \<noteq> None" "cost (result demo_hand) \<noteq> None"
    by code_simp+
  have l: "start_log demo_hand = py ''123456789m1112p3p''" by code_simp
  show ?thesis using r s l printed_answer_wins [where calc = demo_calc, OF r s a c d] by blast
qed

end
