(* ===== verification/Budget.thy ===== *)
theory Budget
  imports Game
begin

text \<open>
  The guessing phase of a game ends.  Between two starts, the guesses of a group can
  only be shown (coloured and counted) as long as some player of the group has a guess
  left: every shown non-winning guess spends one of the player's \<open>MAX_GUESS\<close> guesses and
  a win or a timeout ends the game.  \<open>guess_budget P s\<close> is the variant: one more than the
  guesses the players \<open>P\<close> have left in a running session, zero in an idle one.  No event
  other than a start raises it, and every shown reply lowers it, so a run without a start
  shows at most \<open>guess_budget\<close> replies in the group, whatever its length.
\<close>

definition guess_budget :: "int set \<Rightarrow> session \<Rightarrow> nat" where
  "guess_budget P s =
     (if active s then Suc (\<Sum>q\<in>P. nat (MAX_GUESS - attempts s q)) else 0)"

definition reply_shown :: "exc + guess_reply \<Rightarrow> bool" where
  "reply_shown r = (case r of Inr (Shown v m) \<Rightarrow> True | _ \<Rightarrow> False)"

text \<open>The replies of a run that group \<open>g\<close> is shown.\<close>

fun shown_replies :: "env \<Rightarrow> int \<Rightarrow> world \<Rightarrow> event list \<Rightarrow> nat" where
  "shown_replies E g w [] = 0"
| "shown_replies E g w (Guess self msg # es) =
     (case guesses_handler (scorer E) self msg w of
        (r, w') \<Rightarrow> (if group self = g \<and> reply_shown r then 1 else 0) + shown_replies E g w' es)"
| "shown_replies E g w (e # es) =
     (case world_step E w e of None \<Rightarrow> 0 | Some w' \<Rightarrow> shown_replies E g w' es)"

text \<open>No start, and every guess in group \<open>g\<close> comes from a player of \<open>P\<close>.\<close>

fun guess_from :: "int set \<Rightarrow> int \<Rightarrow> event \<Rightarrow> bool" where
  "guess_from P g (Start self r) = False"
| "guess_from P g (Guess self msg) = (group self \<noteq> g \<or> qq self \<in> P)"
| "guess_from P g e = True"

text \<open>
  After the wrong guess of \<open>guess_trace\<close>: a second wrong guess, a clock tick, a guess
  in another group, the winning guess and a guess after the win.
\<close>

definition budget_trace :: "event list" where
  "budget_trace = [Guess demo_player (py ''123456789m1119p3p''), Advance 1,
     Guess other_player (py ''123456789m1119p3p''), Guess demo_player (py ''123456789m1112p3p''),
     Guess demo_player (py ''123456789m1112p3p'')]"

section \<open>Lemmas\<close>

lemma guess_budget_idle [simp]: "guess_budget P idle_session = 0"
  by (simp add: guess_budget_def idle_session_def)

lemma guess_budget_inc:
  assumes "finite P" "q \<in> P" "active s" "attempts s q < MAX_GUESS"
  shows "Suc (guess_budget P (abs_inc s q)) = guess_budget P s"
proof -
  let ?f = "\<lambda>s q. nat (MAX_GUESS - attempts s q)"
  have rest: "(\<Sum>p\<in>P - {q}. ?f (abs_inc s q) p) = (\<Sum>p\<in>P - {q}. ?f s p)"
    by (rule sum.cong) (auto simp: abs_inc_def)
  have "Suc (?f (abs_inc s q) q) = ?f s q"
    using assms(4) by (simp add: abs_inc_def)
  then show ?thesis
    using assms(1-3) rest by (simp add: guess_budget_def sum.remove abs_inc_def)
qed

lemma guesses_handler_budget:
  assumes "wf_world w" "finite P" "guesses_handler calc self msg w = (r, w')"
    and "group self \<noteq> g \<or> qq self \<in> P"
  shows "guess_budget P (session_of w' g) + (if group self = g \<and> reply_shown r then 1 else 0)
           \<le> guess_budget P (session_of w g)"
  using assms(3)
proof (cases rule: guesses_handler_cases)
  case unchanged
  then show ?thesis
    by (auto simp: world_view_def reply_shown_def split: sum.split guess_reply.split)
next
  case (finish ev fb v gs w2)
  let ?s = "session_of w (group self)"
  have "secret_hand ?s = hand gs"
    unfolding finish(4) [symmetric] by (simp add: session_of_group_def)
  then have "secret_hand ?s \<noteq> None"
    using guess_evaluate_secret [OF finish(6)] by simp
  then have act: "active ?s" using wf_world_session(2) [OF assms(1)] by blast
  have eff: "guess_effect self r w w'" using guesses_handler_effect [OF assms(3)] .
  show ?thesis
  proof (cases "group self = g")
    case False
    with eff show ?thesis by (simp add: guess_effect_def)
  next
    case True
    then have q: "qq self \<in> P" using assms(4) by blast
    have ses: "session_of w' g = abs_guess_effect self r ?s"
      using eff True by (simp add: guess_effect_def)
    show ?thesis
    proof (cases "\<exists>v m. r = Inr (Shown v m)")
      case False
      then have "abs_guess_effect self r ?s = ?s" "\<not> reply_shown r"
        by (auto simp: abs_guess_effect_def reply_shown_def split: sum.split guess_reply.split)
      with ses True show ?thesis by simp
    next
      case True
      then obtain v' m where r: "r = Inr (Shown v' m)" by blast
      show ?thesis
      proof (cases m)
        case None
        have "Suc (guess_budget P (abs_inc ?s (qq self))) = guess_budget P ?s"
          using guess_budget_inc [OF assms(2) q act finish(3)] .
        with ses r None \<open>group self = g\<close> show ?thesis
          by (simp add: abs_guess_effect_def reply_shown_def)
      next
        case (Some a)
        with ses r act \<open>group self = g\<close> show ?thesis
          by (simp add: abs_guess_effect_def reply_shown_def guess_budget_def idle_session_def)
      qed
    qed
  qed
qed

lemma world_step_budget:
  assumes "world_step E w e = Some w'" "\<And>self msg. e \<noteq> Guess self msg" "guess_from P g e"
  shows "guess_budget P (session_of w' g) \<le> guess_budget P (session_of w g)"
proof (cases e)
  case (Fire name)
  with assms(1) have "process w' = process w"
    by (auto split: option.splits if_splits)
  then show ?thesis by (simp add: session_of_def)
next
  case (Resume i b)
  with assms(1) obtain self where
    w': "w' = timeout_resume self b (w\<lparr>sending := remove_at i (sending w)\<rparr>)"
    by (auto split: if_splits)
  have "session_of (w\<lparr>sending := remove_at i (sending w)\<rparr>) = session_of w"
    by (simp add: session_of_def fun_eq_iff)
  then show ?thesis
    unfolding w' timeout_resume_def by (simp add: reset_game_session)
qed (use assms in \<open>auto simp: session_of_def\<close>)

lemma shown_replies_budget:
  assumes "wf_world w" "finite P" "list_all (guess_from P g) es"
  shows "shown_replies E g w es \<le> guess_budget P (session_of w g)"
  using assms(1,3)
proof (induction es arbitrary: w)
  case Nil
  then show ?case by simp
next
  case (Cons e es)
  have es: "list_all (guess_from P g) es" and ge: "guess_from P g e"
    using Cons.prems(2) by simp_all
  show ?case
  proof (cases "\<exists>self msg. e = Guess self msg")
    case True
    then obtain self msg where e: "e = Guess self msg" by blast
    obtain r w' where h: "guesses_handler (scorer E) self msg w = (r, w')" by fastforce
    have "wf_world w'"
      using world_step_wf [OF Cons.prems(1), of E e w'] h e by simp
    then have "shown_replies E g w' es \<le> guess_budget P (session_of w' g)"
      using Cons.IH es by blast
    moreover have "guess_budget P (session_of w' g) + (if group self = g \<and> reply_shown r then 1 else 0)
        \<le> guess_budget P (session_of w g)"
      using guesses_handler_budget [OF Cons.prems(1) assms(2) h] ge e by simp
    ultimately show ?thesis using h e by simp
  next
    case False
    then have ne: "\<And>self msg. e \<noteq> Guess self msg" by blast
    have sr: "shown_replies E g w (e # es) =
        (case world_step E w e of None \<Rightarrow> 0 | Some w' \<Rightarrow> shown_replies E g w' es)"
      using ne ge by (cases e) auto
    show ?thesis
    proof (cases "world_step E w e")
      case None
      with sr show ?thesis by simp
    next
      case (Some w')
      have "wf_world w'" using world_step_wf [OF Cons.prems(1) Some] .
      then have "shown_replies E g w' es \<le> guess_budget P (session_of w' g)"
        using Cons.IH es by blast
      with sr Some world_step_budget [OF Some ne ge] show ?thesis by simp
    qed
  qed
qed

lemma guess_budget_bound:
  assumes "wf_world w" "finite P"
  shows "guess_budget P (session_of w g) \<le> 1 + nat MAX_GUESS * card P"
proof -
  have "(\<Sum>q\<in>P. nat (MAX_GUESS - attempts (session_of w g) q)) \<le> (\<Sum>q\<in>P. nat MAX_GUESS)"
    using wf_world_session(1) [OF assms(1), of g] by (intro sum_mono) (simp add: nat_mono)
  then show ?thesis by (simp add: guess_budget_def mult.commute)
qed

section \<open>The guessing phase ends\<close>

text \<open>
  C37: termination of the guessing phase.  From any reachable world, a run of events
  without a start, in which the guesses in group \<open>g\<close> come from the players \<open>P\<close>,
  shows group \<open>g\<close> at most \<open>1 + MAX_GUESS * card P\<close> coloured replies, however long the
  run: each shown wrong guess spends one of a player's six guesses, and a win or a timeout
  ends the game.
\<close>

theorem guessing_phase_terminates:
  assumes "reachable E w" "finite P" "list_all (guess_from P g) es"
  shows "shown_replies E g w es \<le> 1 + nat MAX_GUESS * card P"
  using shown_replies_budget [OF reachable_wf [OF assms(1)] assms(2,3)]
    guess_budget_bound [OF reachable_wf [OF assms(1)] assms(2)] by (rule le_trans)

theorem guessing_phase_terminates_witness:
  "reachable demo_env demo_guessed \<and> finite {7::int} \<and> list_all (guess_from {7} 1) budget_trace \<and>
   shown_replies demo_env 1 demo_guessed budget_trace = 2 \<and>
   shown_replies demo_env 1 demo_guessed budget_trace \<le> 1 + nat MAX_GUESS * card {7::int}"
proof -
  have "run demo_env demo_start guess_trace \<noteq> None" by code_simp
  then have r: "reachable demo_env demo_guessed"
    unfolding demo_guessed_def by (rule run_demo_reachable)
  have l: "list_all (guess_from {7} 1) budget_trace"
    by (simp add: budget_trace_def demo_player_def other_player_def)
  have "shown_replies demo_env 1 demo_guessed budget_trace = 2" by code_simp
  with r l guessing_phase_terminates [OF r _ l] show ?thesis by simp
qed

end
