(* ===== verification/Reply.thy ===== *)
theory Reply
  imports Render Scenarios Complex_Main
begin

text \<open>
  The dictionaries the two commands return (\<open>src/handler.py\<close>): \<open>start\<close> answers
  \<open>dict(error=True, msg="\u5f53\u524d\u6e38\u620f\u5df2\u7ecf\u5f00\u59cb")\<close> or \<open>dict(error=False)\<close>, and
  \<open>guesses_handler\<close> answers \<open>dict(error=True, msg=...)\<close> on a rejection and
  \<open>dict(error=False, img=..., msg=ret_msg)\<close> on a shown guess (line 245).  The image is the
  background of lines 217--237: the hand and winning-tile images of \<open>Render\<close> and three
  lines of text drawn by \<open>draw_text_by_line\<close> (the guesses left, the yaku hint, the
  han/fu/cost summary); the message of a win is the f-string of \<open>win_game\<close> (line 135).
  Python strings are code-point sequences: the CJK characters of the literals are
  \<open>Uni\<close> symbols with their code points, the ASCII ones \<open>Asc\<close> symbols; \<open>f"{x}"\<close> of an
  integer is \<open>py_str_int\<close> and of \<open>None\<close> the word \<open>None\<close>.  The PNG encoding
  (\<open>pil2b64\<close>) and the fonts are not modelled: the image is the data it is drawn from.
\<close>

abbreviation cjk :: "nat list \<Rightarrow> pystr" where
  "cjk ns \<equiv> map Uni ns"

text \<open>\<open>sep.join(xs)\<close>.\<close>

fun py_join :: "pystr \<Rightarrow> pystr list \<Rightarrow> pystr" where
  "py_join sep [] = []"
| "py_join sep [x] = x"
| "py_join sep (x # y # xs) = x @ sep @ py_join sep (y # xs)"

text \<open>\<open>f"{x}"\<close> for a value that is an integer or \<open>None\<close>.\<close>

definition py_format_opt :: "int option \<Rightarrow> pystr" where
  "py_format_opt x = (case x of None \<Rightarrow> py ''None'' | Some i \<Rightarrow> py_str_int i)"

text \<open>Line 135: \<open>f"\u606d\u559c\u4f60, \u731c\u5bf9\u4e86, \u79ef\u5206\u589e\u52a0 {points} \u70b9, \u5f53\u524d\u79ef\u5206 {user.points}"\<close>.\<close>

definition win_message :: "int \<times> int \<Rightarrow> pystr" where
  "win_message pt =
     (case pt of (pts, balance) \<Rightarrow>
        cjk [0x606d, 0x559c, 0x4f60] @ py '', '' @ cjk [0x731c, 0x5bf9, 0x4e86] @ py '', '' @
        cjk [0x79ef, 0x5206, 0x589e, 0x52a0] @ py '' '' @ py_str_int pts @ py '' '' @
        cjk [0x70b9] @ py '', '' @ cjk [0x5f53, 0x524d, 0x79ef, 0x5206] @ py '' '' @
        py_str_int balance)"

text \<open>The messages of the rejections (lines 140, 143, 150, 162, 164).\<close>

definition reject_message :: "guess_error \<Rightarrow> pystr" where
  "reject_message err =
     (case err of
        Illegal \<Rightarrow> []
      | NoChances \<Rightarrow> cjk [0x4f60, 0x5df2, 0x7ecf, 0x6ca1, 0x6709, 0x6b21, 0x6570, 0x4e86] @ py ''!''
      | NotFourteen \<Rightarrow> cjk [0x4e0d, 0x662f] @ py '', '' @ cjk [0x8bf4, 0x597d, 0x7684] @ py ''14'' @
                       cjk [0x5f20, 0x724c, 0x5462]
      | NoWinShape \<Rightarrow> cjk [0x4f60, 0x8fd9, 0x724c, 0x90fd, 0x6ca1, 0x80e1, 0x554a]
      | NoYaku \<Rightarrow> cjk [0x4f60, 0x65e0, 0x5f79, 0x4e86])"

text \<open>Line 205: \<open>tip = "\u63d0\u793a: " + " ".join([x.japanese for x in yaku])\<close>.\<close>

definition tip_text :: "pystr list \<Rightarrow> pystr" where
  "tip_text names = cjk [0x63d0, 0x793a] @ py '': '' @ py_join (py '' '') names"

text \<open>Lines 214--215: \<open>tsumo_tip = ("", ",\u81ea\u6478")[tsumo]\<close> and
  \<open>han_tip = f"{status_han}\u756a{status_fu}\u7b26 {status_cost}\u70b9 (\u5305\u62ec\u7acb\u76f4{tsumo_tip})"\<close>.\<close>

definition tsumo_tip_text :: "bool \<Rightarrow> pystr" where
  "tsumo_tip_text b = (if b then py '','' @ cjk [0x81ea, 0x6478] else [])"

definition han_tip_text :: "guess_view \<Rightarrow> pystr" where
  "han_tip_text v =
     py_format_opt (status_han v) @ cjk [0x756a] @ py_format_opt (status_fu v) @ cjk [0x7b26] @
     py '' '' @ py_str_int (status_cost v) @ cjk [0x70b9] @ py '' ('' @
     cjk [0x5305, 0x62ec, 0x7acb, 0x76f4] @ tsumo_tip_text (tsumo_tip v) @ py '')''"

text \<open>Line 221: \<open>f"\u5269\u4f59{last}\u56de"\<close>.\<close>

definition remaining_text :: "int \<Rightarrow> pystr" where
  "remaining_text left = cjk [0x5269, 0x4f59] @ py_str_int left @ cjk [0x56de]"

text \<open>One call \<open>draw_text_by_line(background, pos, text, get_font(size), colour, width[, True])\<close>.\<close>

record text_line =
  line_at :: "real \<times> real"
  line_text :: pystr
  line_font :: nat
  line_colour :: string
  line_width :: int
  line_flag :: bool

text \<open>Lines 220--233.\<close>

definition reply_lines :: "guess_view \<Rightarrow> text_line list" where
  "reply_lines v =
     [\<lparr>line_at = (26.5, 25), line_text = remaining_text (remaining v), line_font = 40,
       line_colour = ''#475463'', line_width = 255, line_flag = False\<rparr>,
      \<lparr>line_at = (403.5, 25), line_text = tip_text (tip v), line_font = 40,
       line_colour = ''#475463'', line_width = 800, line_flag = True\<rparr>,
      \<lparr>line_at = (194.5, 122), line_text = han_tip_text v, line_font = 40,
       line_colour = ''#475463'', line_width = 1200, line_flag = True\<rparr>]"

record background =
  bg_size :: "int \<times> int"
  bg_pastes :: reply_image
  bg_lines :: "text_line list"

text \<open>Lines 166--237: the background with its pastes and its texts.\<close>

definition background_of :: "guess_view \<Rightarrow> background" where
  "background_of v =
     \<lparr>bg_size = BACKGROUND_SIZE,
      bg_pastes = reply_image_of (shown_tiles v, hand_tags v, win_tag v) (shown_win_tile v),
      bg_lines = reply_lines v\<rparr>"

text \<open>A returned \<open>dict\<close>: \<open>error\<close>, and \<open>img\<close> and \<open>msg\<close> where the dict has them.\<close>

record reply_dict =
  dict_error :: bool
  dict_img :: "background option"
  dict_msg :: "pystr option"

text \<open>The returns of \<open>guesses_handler\<close> (lines 140, 143, 150, 162, 164, 245).\<close>

definition guess_dict :: "exc + guess_reply \<Rightarrow> exc + reply_dict" where
  "guess_dict r =
     (case r of
        Inl e \<Rightarrow> Inl e
      | Inr (Rejected err) \<Rightarrow>
          Inr \<lparr>dict_error = True, dict_img = None, dict_msg = Some (reject_message err)\<rparr>
      | Inr (Shown v m) \<Rightarrow>
          Inr \<lparr>dict_error = False, dict_img = Some (background_of v),
               dict_msg = Some (case m of None \<Rightarrow> [] | Some pt \<Rightarrow> win_message pt)\<rparr>)"

definition guesses_handler_dict ::
  "estimator \<Rightarrow> hand_guess \<Rightarrow> pystr \<Rightarrow> world \<Rightarrow> (exc + reply_dict) \<times> world" where
  "guesses_handler_dict calc self msg w =
     (case guesses_handler calc self msg w of (r, w') \<Rightarrow> (guess_dict r, w'))"

text \<open>The returns of \<open>start\<close> (lines 95 and 105).\<close>

definition start_dict :: "exc + start_reply \<Rightarrow> exc + reply_dict" where
  "start_dict r =
     (case r of
        Inl e \<Rightarrow> Inl e
      | Inr AlreadyStarted \<Rightarrow>
          Inr \<lparr>dict_error = True, dict_img = None,
               dict_msg = Some (cjk [0x5f53, 0x524d, 0x6e38, 0x620f, 0x5df2, 0x7ecf, 0x5f00, 0x59cb])\<rparr>
      | Inr Started \<Rightarrow> Inr \<lparr>dict_error = False, dict_img = None, dict_msg = None\<rparr>)"

text \<open>The view of the winning guess of the design's example hand (\<open>demo_hand\<close>).\<close>

definition demo_win_view :: guess_view where
  "demo_win_view = \<lparr>hand_tags = replicate 13 Correct, win_tag = Correct, tip = [], status_han = Some 1,
     status_fu = Some 30, status_cost = 1300, tsumo_tip = False, remaining = 5,
     shown_tiles = [0, 4, 8, 12, 16, 20, 24, 28, 32, 36, 37, 38, 40], shown_win_tile = 44\<rparr>"

section \<open>Lemmas\<close>

lemma guess_dict_img:
  "guess_dict r = Inr d \<Longrightarrow> dict_img d = Some bg \<Longrightarrow> \<exists>v m. r = Inr (Shown v m) \<and> bg = background_of v"
  by (auto simp: guess_dict_def split: sum.splits guess_reply.splits)

lemma py_str_int_small:
  assumes "0 \<le> i" "i < 10"
  shows "py_str_int i = [Asc (char_of (48 + nat i))]"
  using assms by (simp add: py_str_int_def)

lemma guess_dict_shown:
  "guess_dict r = Inr d \<Longrightarrow> \<not> dict_error d \<Longrightarrow>
     \<exists>v m. r = Inr (Shown v m) \<and> dict_msg d = Some (case m of None \<Rightarrow> [] | Some pt \<Rightarrow> win_message pt)"
  by (auto simp: guess_dict_def split: sum.splits guess_reply.splits)

lemma win_message_nonempty: "win_message pt \<noteq> []"
  by (simp add: win_message_def split: prod.split)

lemma guesses_handler_dict_reply:
  "fst (guesses_handler calc self msg w) = r \<Longrightarrow>
   guesses_handler_dict calc self msg w = (guess_dict r, snd (guesses_handler calc self msg w))"
  by (cases "guesses_handler calc self msg w") (simp add: guesses_handler_dict_def)

lemma guesses_handler_dict_Inr:
  assumes "guesses_handler_dict calc self msg w = (Inr d, w')"
  obtains r where "guesses_handler calc self msg w = (r, w')" "guess_dict r = Inr d"
  using assms by (auto simp: guesses_handler_dict_def split: prod.splits)

section \<open>The texts of a reply\<close>

text \<open>
  C38: in every reachable world, the image of a reply of \<open>guesses_handler\<close> starts with the
  line \<open>f"\u5269\u4f59{last}\u56de"\<close> (guesses left), and \<open>last\<close> is printed as one digit
  \<open>k\<close> from 0 to 5: the guesses the player has left after this one.
\<close>

theorem reply_remaining_digit:
  assumes "reachable E w" "guesses_handler_dict (scorer E) self msg w = (Inr d, w')"
    and "dict_img d = Some bg"
  shows "\<exists>k. k \<le> 5 \<and> int k = MAX_GUESS - 1 - attempts (session_of w (group self)) (qq self) \<and>
             line_text (hd (bg_lines bg)) = cjk [0x5269, 0x4f59] @ [Asc (char_of (48 + k))] @ cjk [0x56de]"
proof -
  obtain r where h: "guesses_handler (scorer E) self msg w = (r, w')" "guess_dict r = Inr d"
    using assms(2) by (rule guesses_handler_dict_Inr)
  obtain v m where r: "r = Inr (Shown v m)" and bg: "bg = background_of v"
    using guess_dict_img [OF h(2) assms(3)] by blast
  let ?a = "attempts (session_of w (group self)) (qq self)"
  have sh: "?a < MAX_GUESS" "remaining v = MAX_GUESS - ?a - 1"
    using guesses_handler_shown [OF h(1) [unfolded r]] by simp_all
  have "0 \<le> ?a" using wf_world_session(1) [OF reachable_wf [OF assms(1)]] by blast
  then have rng: "0 \<le> remaining v" "remaining v \<le> 5" using sh by (simp_all add: MAX_GUESS_def)
  show ?thesis
  proof (intro exI conjI)
    show "nat (remaining v) \<le> 5" using rng by simp
    show "int (nat (remaining v)) = MAX_GUESS - 1 - ?a" using rng sh by simp
    show "line_text (hd (bg_lines bg)) =
        cjk [0x5269, 0x4f59] @ [Asc (char_of (48 + nat (remaining v)))] @ cjk [0x56de]"
      using rng by (simp add: bg background_of_def reply_lines_def remaining_text_def py_str_int_small)
  qed
qed

theorem reply_remaining_digit_witness:
  "reachable demo_env demo_guessed \<and>
   guesses_handler_dict (scorer demo_env) demo_player (py ''123456789m1119p3p'') demo_guessed =
     (Inr \<lparr>dict_error = False, dict_img = Some (background_of (swap_view 4)), dict_msg = Some []\<rparr>,
      snd (guesses_handler demo_calc demo_player (py ''123456789m1119p3p'') demo_guessed)) \<and>
   line_text (hd (bg_lines (background_of (swap_view 4)))) = cjk [0x5269, 0x4f59] @ py ''4'' @ cjk [0x56de] \<and>
   (\<exists>k. k \<le> 5 \<and> int k = MAX_GUESS - 1 - attempts (session_of demo_guessed 1) 7)"
proof -
  have "run demo_env demo_start guess_trace \<noteq> None" by code_simp
  then have r: "reachable demo_env demo_guessed"
    unfolding demo_guessed_def by (rule run_demo_reachable)
  have "fst (guesses_handler demo_calc demo_player (py ''123456789m1119p3p'') demo_guessed) =
      Inr (Shown (swap_view 4) None)"
    by code_simp
  then have g: "guesses_handler_dict (scorer demo_env) demo_player (py ''123456789m1119p3p'') demo_guessed =
     (Inr \<lparr>dict_error = False, dict_img = Some (background_of (swap_view 4)), dict_msg = Some []\<rparr>,
      snd (guesses_handler demo_calc demo_player (py ''123456789m1119p3p'') demo_guessed))"
    by (simp add: guesses_handler_dict_reply guess_dict_def demo_env_def)
  have t: "line_text (hd (bg_lines (background_of (swap_view 4)))) = cjk [0x5269, 0x4f59] @ py ''4'' @ cjk [0x56de]"
  proof -
    have "char_of (52::nat) = CHR ''4''" by code_simp
    then show ?thesis
      by (simp add: background_of_def reply_lines_def remaining_text_def swap_view_def py_str_int_def)
  qed
  show ?thesis
    using r g t reply_remaining_digit [OF r g] by (fastforce simp: demo_player_def)
qed

section \<open>The message of a win\<close>

text \<open>
  C39: a dict of \<open>guesses_handler\<close> without error and with a non-empty message is a win:
  the player is credited the secret hand's cost, the message is \<open>win_game\<close>'s
  congratulation with that payout and the player's new balance, and the game is over
  with its timeout cancelled.
\<close>

theorem guesses_handler_dict_win:
  assumes "guesses_handler_dict calc self msg w = (Inr d, w')"
    and "\<not> dict_error d" "dict_msg d \<noteq> Some []"
  shows "\<exists>h c. secret_hand (session_of w (group self)) = Some h \<and> status_cost_of (result h) = Inr c \<and>
           points w' (qq self) = points w (qq self) + c \<and>
           dict_msg d = Some (win_message (c, points w' (qq self))) \<and>
           \<not> active (session_of w' (group self)) \<and> timers w' timer_name = None"
proof -
  obtain r where h: "guesses_handler calc self msg w = (r, w')" "guess_dict r = Inr d"
    using assms(1) by (rule guesses_handler_dict_Inr)
  obtain v m where r: "r = Inr (Shown v m)"
    and dm: "dict_msg d = Some (case m of None \<Rightarrow> [] | Some pt \<Rightarrow> win_message pt)"
    using guess_dict_shown [OF h(2) assms(2)] by blast
  obtain p tot where m: "m = Some (p, tot)"
    using assms(3) dm by (cases m) auto
  have sh: "p = status_cost v \<and> tot = points w' (qq self)"
    "\<exists>h. secret_hand (session_of w (group self)) = Some h \<and> status_cost_of (result h) = Inr (status_cost v)"
    using guesses_handler_shown [OF h(1) [unfolded r m]] by blast+
  have eff: "guess_effect self (Inr (Shown v (Some (p, tot)))) w w'"
    using guesses_handler_effect [OF h(1) [unfolded r m]] .
  then have "points w' (qq self) = points w (qq self) + p" "\<not> active (session_of w' (group self))"
    "timers w' timer_name = None"
    by (auto simp: guess_effect_def abs_guess_effect_def timers_effect_def points_effect_def
        idle_session_def dest: fun_cong [where x = "group self"])
  with sh dm m show ?thesis by auto
qed

theorem guesses_handler_dict_win_witness:
  "guesses_handler_dict demo_calc demo_player (py ''123456789m1112p3p'') (demo_world 0) =
     (Inr \<lparr>dict_error = False, dict_img = Some (background_of demo_win_view),
           dict_msg = Some (win_message (1300, 1300))\<rparr>,
      snd (guesses_handler demo_calc demo_player (py ''123456789m1112p3p'') (demo_world 0))) \<and>
   points (snd (guesses_handler demo_calc demo_player (py ''123456789m1112p3p'') (demo_world 0))) 7 = 1300"
proof -
  have "fst (guesses_handler demo_calc demo_player (py ''123456789m1112p3p'') (demo_world 0)) =
      Inr (Shown demo_win_view (Some (1300, 1300)))"
    unfolding demo_win_view_def by code_simp
  then have g: "guesses_handler_dict demo_calc demo_player (py ''123456789m1112p3p'') (demo_world 0) =
     (Inr \<lparr>dict_error = False, dict_img = Some (background_of demo_win_view),
           dict_msg = Some (win_message (1300, 1300))\<rparr>,
      snd (guesses_handler demo_calc demo_player (py ''123456789m1112p3p'') (demo_world 0)))"
    by (simp add: guesses_handler_dict_reply guess_dict_def)
  obtain h c where h: "secret_hand (session_of (demo_world 0) (group demo_player)) = Some h"
    "status_cost_of (result h) = Inr c"
    "points (snd (guesses_handler demo_calc demo_player (py ''123456789m1112p3p'') (demo_world 0)))
       (qq demo_player) = points (demo_world 0) (qq demo_player) + c"
    using guesses_handler_dict_win [OF g] win_message_nonempty by auto
  have "secret_hand (session_of (demo_world 0) 1) = Some demo_hand" by code_simp
  moreover have "status_cost_of (result demo_hand) = Inr 1300" by code_simp
  ultimately have "c = 1300" using h(1,2) by (simp add: demo_player_def)
  then have "points (snd (guesses_handler demo_calc demo_player (py ''123456789m1112p3p'') (demo_world 0))) 7 =
      points (demo_world 0) 7 + 1300"
    using h(3) by (simp add: demo_player_def)
  then show ?thesis using g by (simp add: demo_world_def)
qed

end
