(* ===== verification/Spec2Isabelle.thy ===== *)
theory Spec2Isabelle
  imports Scenarios Render Answer Budget Reply
begin

text \<open>
  \<^bold>\<open>A verification development of mahjong-hand-guess.\<close>

  The program (\<open>src/handler.py\<close>) runs a guessing game in chat groups: \<open>start\<close>
  draws a secret winning hand from the corpus \<open>hands.txt\<close> and arms a five-minute
  timeout; \<open>guesses_handler\<close> checks a player's message, normalises it to tile
  notation, parses it into 136-ids with the \<open>mahjong\<close> package's
  \<open>TilesConverter\<close>, has the package's \<open>HandCalculator\<close> score it, colours each
  guessed tile against the secret hand, and either ends the game on a win (paying points)
  or counts one guess of the player; a player has at most \<open>MAX_GUESS\<close> = 6 guesses.
  All games live in the process-wide dictionary \<open>HandGuessProcess\<close>; the timeouts
  live in the registry of \<open>utils.call_later\<close>, under one name.

  \<^bold>\<open>Theories and what they model.\<close>
  \<^item> \<open>Prelude\<close>: Python exceptions (\<open>exc\<close>), indexing and slicing with negative
    indices (\<open>py_index\<close>, \<open>py_slice\<close>), dictionaries with and without default
    (\<open>dd_getitem\<close>, \<open>py_getitem\<close>), the rule collections \<open>py_simps\<close> and
    \<open>state_simps\<close>.
  \<^item> \<open>Text\<close>: the symbols of a message (8-bit characters, the ten glyphs of
    \<open>TileAsciiMap\<close>, other code points), \<open>TileAsciiMap\<close>, \<open>TileMap\<close>,
    \<open>str.isdigit\<close>, \<open>str.strip\<close>, \<open>int\<close> of one character.
  \<^item> \<open>Tiles\<close>: \<open>TilesConverter.one_line_string_to_136_array\<close> and
    \<open>string_to_136_array\<close> as the library's loops, proved equal to a reference scanner
    (\<open>scan\<close>), a reference numbering (\<open>assign_copies\<close>) and a reference converter
    (\<open>ref_convert\<close>); the tile count of a string, the effect of appending one tile.
  \<^item> \<open>Guess_Input\<close>: the character check of line 139 (\<open>illegal_msg\<close>) and
    \<open>format_hand_msg\<close> (lines 107--118): its three outcomes, and that its fix-up does
    not change the tiles.
  \<^item> \<open>Hand\<close>: the scorer's interface (a parameter of type \<open>estimator\<close>) and
    \<open>get_hand\<close> (lines 38--60), the random draw being a parameter; the draw past the end.
  \<^item> \<open>Feedback\<close>: the colours of lines 172--200 (\<open>tile_tag\<close>,
    \<open>hand_feedback\<close>, \<open>win_feedback\<close>), the design's colours on tile kinds
    (\<open>spec_tag\<close>, \<open>spec_win_tag\<close>) with an order on colours, the correctness of
    the hand colours and their refinement of the design's.
  \<^item> \<open>Session\<close>: the world record (\<open>process\<close> = \<open>HandGuessProcess\<close>,
    \<open>timers\<close> = the registry, \<open>points\<close>, \<open>clock\<close>, \<open>sending\<close> = the timeout
    callbacks suspended in \<open>send_group_msg\<close>), every method of \<open>HandGuess\<close> but the
    guess handler as a function of \<open>(qq, group)\<close> and the world, the design's view
    of a group (\<open>session\<close>: active, secret hand, counters; \<open>session_of\<close>) and the
    effect of each method on it.
  \<^item> \<open>Guess\<close>: \<open>guesses_handler\<close> (lines 137--244) as the composition of its
    stretches (\<open>guess_evaluate\<close>, \<open>guess_feedback\<close>, \<open>guess_view_of\<close>,
    \<open>guess_finish\<close>), its refinement of the design's guess step
    (\<open>guess_effect\<close>), the rejections, the win.
  \<^item> \<open>Game\<close>: the whole program as a step relation \<open>world_step\<close> on events
    (start, guess, clock, a due timer firing, a suspended timeout resuming), the
    representation invariant \<open>wf_world\<close> and the timer invariant \<open>timers_ok\<close>,
    kept by every step and so true of every \<open>reachable\<close> world (rule induction);
    example runs (\<open>run\<close>) exhibiting the interleavings the timeout allows.
  \<^item> \<open>Tile_Print\<close>: the library's printer \<open>to_one_line_string\<close> (modelled from
    the package's documentation) with Python's \<open>str(int)\<close>, and the round trip
    printer/parser on canonical tile lists (sorted, in range, lowest copies first).
  \<^item> \<open>Render\<close>: the data of the reply image (lines 170--230): the canvas and
    background sizes, the tile label of each pasted tile (\<open>tile_label\<close>) and the paste
    positions of the guessed hand (\<open>hand_pastes\<close>, \<open>reply_image_of\<close>); that every
    paste lies in the canvas and every label parses back to its tile kind.
  \<^item> \<open>Answer\<close>: the answer logged by \<open>start\<close> (line 102, \<open>start_log\<close>) and the
    proof that typing it back in, in a running game, wins.
  \<^item> \<open>Reply\<close>: the dicts \<open>start\<close> and \<open>guesses_handler\<close> return
    (\<open>start_dict\<close>, \<open>guess_dict\<close>, \<open>guesses_handler_dict\<close>): the rejection messages,
    \<open>win_game\<close>'s congratulation (line 135), and the image as its background
    (\<open>background_of\<close>) with the pastes of \<open>Render\<close> and the three
    \<open>draw_text_by_line\<close> calls (\<open>reply_lines\<close>) with their exact texts; Python's
    \<open>str.join\<close> and f-string formatting as \<open>py_join\<close> and \<open>py_format_opt\<close>.
  \<^item> \<open>Budget\<close>: the variant \<open>guess_budget\<close> of a game (the guesses its players have
    left, plus one while it runs) and the count \<open>shown_replies\<close> of the replies a run
    shows a group.
  \<^item> \<open>Scenarios\<close>: the design's example scenarios, evaluated, and the places where
    the code departs from the design.

  \<^bold>\<open>What the claims show.\<close>  The counters stay in \<open>0..MAX_GUESS\<close> and a group
  is running exactly when it has a secret hand, in every reachable world; exhausted
  players, illegal messages and starts over a running game are refused with nothing
  changed; every reply of the guess handler has exactly the design's effect on the
  sessions, timers and points, and a win pays the secret hand's cost and ends the game;
  a guess that reaches the colouring has fourteen tiles and a score with nonzero han,
  and one of any other size is refused; the hand colours are correct by 136-id and never exceed the design's colours on kinds;
  normalisation keeps the tiles; \<open>get_hand\<close> splits a corpus line into tiles, winning
  tile, tsumo flag and score; \<open>start\<close> in an idle group arms the timeout and activates
  exactly that group, and a failing draw changes nothing; a win is counted once (the
  game ends with it); from any reachable world a timer's events end the game
  (liveness); the reply image's pastes stay inside the canvas (bounds); the printed
  answer of a game, typed back, wins it (round trip through printer and parser); the
  guessing phase terminates: without a new start a group is shown at most
  \<open>1 + MAX_GUESS * card P\<close> replies, however long the run (termination, by the
  variant \<open>guess_budget\<close>); the guesses-left line of every reply image prints one digit
  from 0 to 5 (bounds); a dict without error and with a message is a win that paid the
  hand's cost and names the payout and the new balance.  Found by the model: the timeout resets after an await,
  so a stale callback ends a new game; all groups share one timeout name, so a game can
  lose its timeout; the sixth guess is allowed; wins are order-sensitive; colours depend
  on copy numbers; the winning-tile colour uses a leftover loop variable; \<open>0\<close> passes
  the check and \<open>0p\<close> reads as \<open>9m\<close>; a one-tile message crashes; a guess with no running
  game raises KeyError instead of a reply; the random draw can fall past the corpus.

  \<^bold>\<open>Bounds.\<close>  No loop of the program needs fuel: the character, formatting,
  converter, printer and colour loops are structural recursions over finite lists,
  \<open>str(int)\<close> (\<open>nat_digits\<close>) recurses on \<open>n div 10\<close> with its termination found
  by the package, and the event
  loop is the relation \<open>reachable\<close> (any finite sequence of events) or the structural
  \<open>run\<close> over an explicit event list.  Counters are Python integers (\<open>int\<close>), which
  do not overflow.

  \<^bold>\<open>Not modelled.\<close>  The scoring of mahjong hands (the scorer is a parameter, so every
  theorem holds for every scorer); the pixels and fonts of the images and their PNG
  encoding (\<open>pil2b64\<close>), an image being modelled as its size, the tiles pasted where and
  the text lines drawn where; the sending of messages (\<open>send_group_msg\<close> is only its
  await point, and \<open>print\<close> is the string \<open>start_log\<close>); the reading of
  \<open>hands.txt\<close> (a parameter list of lines) and the random choice (a parameter).  \<open>utils.call_later\<close>,
  \<open>user.User\<close>, the bot's command dispatch and the asyncio loop are not in
  \<open>src/\<close> and are modelled from the design.  Code points at or above 256 are
  abstract symbols: Python's \<open>\\d\<close> and \<open>int()\<close> also accept non-ASCII decimal
  digits, which the model does not represent.
\<close>

end
